(* ===== verification/Prelude.thy ===== *)
theory Prelude
  imports Main "HOL-Library.Word"
begin

text \<open>
  Shared vocabulary of the development: Go errors, panics, the integers and the parts of the
  Go standard library the sources use (\<^verbatim>\<open>strconv\<close>, \<^verbatim>\<open>strings\<close>), and the generic lemmas on lists,
  options and maps that the component theories share.

  A Go string is a sequence of bytes, so it is a \<^typ>\<open>string\<close> (a list of 8-bit characters).
  An \<^verbatim>\<open>int64\<close> is a 64-bit word read with \<^const>\<open>sint\<close>.
\<close>

named_theorems frame_simps \<open>what an operation leaves unchanged\<close>

section \<open>Errors and panics\<close>

text \<open>
  A non-nil Go \<^verbatim>\<open>error\<close>. \<open>ErrSnapshotGenerationMismatch\<close> is the sentinel that
  pkg/backend/backend.go declares, compared by identity; \<open>ErrorString\<close> is a value made by
  \<^verbatim>\<open>errors.New\<close> or \<^verbatim>\<open>errors.Errorf\<close>; \<open>Wrapped m e\<close> is \<^verbatim>\<open>errors.Wrap(e, m)\<close>;
  \<open>External n m\<close> is an error value of a library (its identity and its text). A nil error is
  \<^const>\<open>None\<close> where an error is returned on its own.
\<close>

datatype go_error =
    ErrSnapshotGenerationMismatch
  | ErrorString string
  | Wrapped string go_error
  | External nat string

text \<open>
  A computation of the Go program either returns or panics. What a panic carries is up to the computation:
  the message alone where it reads, the message with the state it leaves behind where it acts, for a panic
  undoes nothing and the deferred calls still run in that state.
\<close>

datatype ('p, 'a) ending = Returns 'a | Panics 'p

type_synonym 'a outcome = "(string, 'a) ending"
type_synonym ('s, 'a) unwinding = "('s \<times> string, 'a) ending"

definition is_panic :: "('p, 'a) ending \<Rightarrow> bool" where
  "is_panic r = (case r of Returns _ \<Rightarrow> False | Panics _ \<Rightarrow> True)"

lemma is_panic_simps [simp]: "\<not> is_panic (Returns x)" "is_panic (Panics m)"
  by (simp_all add: is_panic_def)

text \<open>The state in which a computation ends, one way or the other.\<close>

fun final_state :: "('s, 's \<times> 'a) unwinding \<Rightarrow> 's" where
  "final_state (Returns (s, x)) = s"
| "final_state (Panics (s, m)) = s"

lemma final_state_cases:
  obtains (returned) x where "e = Returns (final_state e, x)" | (panicked) m where "e = Panics (final_state e, m)"
  by (cases e rule: final_state.cases) auto

text \<open>Sequencing: a panic ends the computation.\<close>

fun and_then :: "('p, 'a) ending \<Rightarrow> ('a \<Rightarrow> ('p, 'b) ending) \<Rightarrow> ('p, 'b) ending" where
  "and_then (Returns x) f = f x"
| "and_then (Panics m) f = Panics m"

lemma and_then_Returns: "and_then r f = Returns y \<longleftrightarrow> (\<exists>x. r = Returns x \<and> f x = Returns y)"
  by (cases r) auto

lemma and_then_Panics: "and_then r f = Panics p \<longleftrightarrow> r = Panics p \<or> (\<exists>x. r = Returns x \<and> f x = Panics p)"
  by (cases r) auto

section \<open>Maps\<close>

text \<open>Reading a Go map of byte slices: a missing key reads as the nil (empty) slice.\<close>

definition bytes_at :: "(string \<rightharpoonup> string) \<Rightarrow> string \<Rightarrow> string" where
  "bytes_at m k = (case m k of None \<Rightarrow> [] | Some v \<Rightarrow> v)"

lemma bytes_at_upd [simp]: "bytes_at (m(k \<mapsto> v)) k' = (if k' = k then v else bytes_at m k')"
  by (simp add: bytes_at_def)

lemma bytes_at_empty [simp]: "bytes_at Map.empty k = []"
  by (simp add: bytes_at_def)

lemma sum_case_Inr_D:
  "(case r of Inl e \<Rightarrow> Inl (f e) | Inr x \<Rightarrow> g x) = Inr y \<Longrightarrow> \<exists>x. r = Inr x \<and> g x = Inr y"
  by (cases r) auto

section \<open>Decimal text of integers\<close>

type_synonym int64 = "64 word"

text \<open>The character of a decimal digit and back.\<close>

definition digit_char :: "nat \<Rightarrow> char" where
  "digit_char d = char_of (48 + d)"

definition digit_val :: "char \<Rightarrow> nat option" where
  "digit_val c = (let n = of_char c :: nat in if 48 \<le> n \<and> n \<le> 57 then Some (n - 48) else None)"

fun dec_digits :: "nat \<Rightarrow> string" where
  "dec_digits n = (if n < 10 then [digit_char n] else dec_digits (n div 10) @ [digit_char (n mod 10)])"

declare dec_digits.simps [simp del]

text \<open>The verb \<^verbatim>\<open>%d\<close> of \<^verbatim>\<open>fmt\<close>, and \<^verbatim>\<open>strconv.FormatInt(i, 10)\<close>.\<close>

definition show_int :: "int \<Rightarrow> string" where
  "show_int i = (if i < 0 then CHR ''-'' # dec_digits (nat (- i)) else dec_digits (nat i))"

definition FormatInt :: "int64 \<Rightarrow> string" where
  "FormatInt i = show_int (sint i)"

fun parse_digits :: "nat \<Rightarrow> string \<Rightarrow> nat option" where
  "parse_digits acc [] = Some acc"
| "parse_digits acc (c # cs) =
     (case digit_val c of None \<Rightarrow> None | Some d \<Rightarrow> parse_digits (10 * acc + d) cs)"

text \<open>
  \<^verbatim>\<open>strconv.ParseUint(s, 10, 64)\<close> followed by the range check of \<^verbatim>\<open>ParseInt\<close>; every error is
  \<^const>\<open>None\<close>, since the caller replaces the error it gets by its own.
\<close>

definition parse_magnitude :: "bool \<Rightarrow> string \<Rightarrow> int64 option" where
  "parse_magnitude neg s =
     (if s = [] then None
      else case parse_digits 0 s of
        None \<Rightarrow> None
      | Some n \<Rightarrow>
          (if \<not> neg \<and> 2 ^ 63 \<le> n then None
           else if neg \<and> 2 ^ 63 < n then None
           else Some (if neg then - of_nat n else of_nat n)))"

text \<open>\<^verbatim>\<open>strconv.ParseInt(s, 10, 64)\<close>: an optional sign, then decimal digits.\<close>

definition ParseInt :: "string \<Rightarrow> int64 option" where
  "ParseInt s =
     (case s of
        [] \<Rightarrow> None
      | c # cs \<Rightarrow>
          (if c = CHR ''+'' then parse_magnitude False cs
           else if c = CHR ''-'' then parse_magnitude True cs
           else parse_magnitude False s))"

lemma digit_val_char [simp]: "d < 10 \<Longrightarrow> digit_val (digit_char d) = Some d"
  by (simp add: digit_val_def digit_char_def)

lemma digit_char_neq [simp]:
  assumes "d < 10"
  shows "digit_char d \<noteq> CHR ''-''" "digit_char d \<noteq> CHR ''+''"
proof -
  have "of_char (digit_char d) = (48 + d :: nat)"
    using assms by (simp add: digit_char_def)
  then show "digit_char d \<noteq> CHR ''-''" "digit_char d \<noteq> CHR ''+''"
    using assms by auto
qed

lemma digit_chars:
  "digit_char 0 = CHR ''0''" "digit_char 1 = CHR ''1''" "digit_char 2 = CHR ''2''"
  "digit_char 3 = CHR ''3''" "digit_char 4 = CHR ''4''" "digit_char 5 = CHR ''5''"
  "digit_char 6 = CHR ''6''" "digit_char 7 = CHR ''7''" "digit_char 8 = CHR ''8''"
  "digit_char 9 = CHR ''9''"
  by (simp_all add: digit_char_def char_of_def bit_iff_odd)

lemma dec_digits_nonempty [simp]: "dec_digits n \<noteq> []"
  by (subst dec_digits.simps) simp

lemma parse_digits_append:
  "parse_digits acc (xs @ ys) = (case parse_digits acc xs of None \<Rightarrow> None | Some a \<Rightarrow> parse_digits a ys)"
  by (induction xs arbitrary: acc) (auto split: option.splits)

lemma parse_dec_digits [simp]: "parse_digits 0 (dec_digits n) = Some n"
proof (induction n rule: dec_digits.induct)
  case (1 n)
  show ?case
  proof (cases "n < 10")
    case True
    then show ?thesis by (subst dec_digits.simps) simp
  next
    case False
    then have "parse_digits 0 (dec_digits (n div 10)) = Some (n div 10)" using 1 by simp
    with False show ?thesis
      by (subst dec_digits.simps) (simp add: parse_digits_append)
  qed
qed

lemma dec_digits_hd: "\<exists>d cs. d < 10 \<and> dec_digits n = digit_char d # cs"
proof (induction n rule: dec_digits.induct)
  case (1 n)
  show ?case
  proof (cases "n < 10")
    case True
    then show ?thesis by (subst dec_digits.simps) auto
  next
    case False
    with 1 obtain d cs where "d < 10" "dec_digits (n div 10) = digit_char d # cs" by blast
    with False show ?thesis by (subst dec_digits.simps) auto
  qed
qed

lemma ParseInt_dec_digits: "ParseInt (dec_digits n) = parse_magnitude False (dec_digits n)"
  using dec_digits_hd [of n] by (auto simp: ParseInt_def)

lemma sint64_bounds: "- (2 ^ 63) \<le> sint (x :: int64)" "sint (x :: int64) < 2 ^ 63"
  using sint_ge [of x] sint_lt [of x] by simp_all

lemma parse_format [simp]: "ParseInt (FormatInt x) = Some x"
proof (cases "sint x < 0")
  case True
  have "word_of_int (- int (nat (- sint x))) = x" using True by simp
  moreover have "nat (- sint x) \<le> 2 ^ 63" using sint64_bounds(1) [of x] by simp
  ultimately show ?thesis
    using True by (simp add: FormatInt_def show_int_def ParseInt_def parse_magnitude_def)
next
  case False
  have "nat (sint x) < 2 ^ 63" using sint64_bounds(2) [of x] False by simp
  moreover have "of_nat (nat (sint x)) = x" using False by simp
  ultimately show ?thesis
    using False by (simp add: FormatInt_def show_int_def ParseInt_dec_digits parse_magnitude_def)
qed

lemma FormatInt_inj: "FormatInt x = FormatInt y \<longleftrightarrow> x = y"
  by (metis parse_format option.inject)

end
