(* ===== verification/Kube.thy ===== *)
theory Kube
  imports Prelude
begin

text \<open>
  The Kubernetes data the sources handle and the client they use. Objects are read through
  \<^verbatim>\<open>client.Object\<close>, an interface over the object's metadata: the record \<open>object_meta\<close>, which the
  sample's \<^verbatim>\<open>IamAccount\<close> extends. The API server is outside the repository: its state is a type
  variable \<open>'w\<close> (the world) and its client a record of functions, an argument of every definition
  that calls it.
\<close>

section \<open>Objects\<close>

record group_version_kind =
  gvk_Group :: string
  gvk_Version :: string
  gvk_Kind :: string

text \<open>
  \<^verbatim>\<open>metav1.ObjectMeta\<close> with the type information. \<open>om_DeletionTimestamp\<close> is \<^const>\<open>None\<close> exactly when
  \<^verbatim>\<open>GetDeletionTimestamp().IsZero()\<close> holds (a nil or a zero time).
\<close>

record object_meta =
  om_Namespace :: string
  om_Name :: string
  om_UID :: string
  om_Generation :: int64
  om_DeletionTimestamp :: "int option"
  om_Finalizers :: "string list"
  om_ResourceVersion :: string
  om_GVK :: group_version_kind

abbreviation meta_of :: "'b object_meta_scheme \<Rightarrow> object_meta" where
  "meta_of obj \<equiv> object_meta.truncate obj"

lemma meta_of_simps [simp]:
  "om_Namespace (meta_of obj) = om_Namespace obj"
  "om_Name (meta_of obj) = om_Name obj"
  "om_UID (meta_of obj) = om_UID obj"
  "om_Generation (meta_of obj) = om_Generation obj"
  "om_DeletionTimestamp (meta_of obj) = om_DeletionTimestamp obj"
  "om_Finalizers (meta_of obj) = om_Finalizers obj"
  "om_ResourceVersion (meta_of obj) = om_ResourceVersion obj"
  "om_GVK (meta_of obj) = om_GVK obj"
  by (simp_all add: object_meta.truncate_def)

record namespaced_name =
  nn_Namespace :: string
  nn_Name :: string

text \<open>An owner reference: the owner's kind, name and identity.\<close>

record owner_reference =
  own_Kind :: string
  own_Name :: string
  own_UID :: string
  own_Controller :: bool

section \<open>Secrets and their client\<close>

record secret =
  sec_Namespace :: string
  sec_Name :: string
  sec_OwnerReferences :: "owner_reference list"
  sec_ResourceVersion :: string
  sec_Data :: "string \<rightharpoonup> string"

definition secret_key :: "secret \<Rightarrow> namespaced_name" where
  "secret_key s = \<lparr>nn_Namespace = sec_Namespace s, nn_Name = sec_Name s\<rparr>"

lemma secret_key_upd [simp]:
  "secret_key (s\<lparr>sec_Data := d\<rparr>) = secret_key s"
  "secret_key (s\<lparr>sec_ResourceVersion := v\<rparr>) = secret_key s"
  "secret_key (s\<lparr>sec_OwnerReferences := ow\<rparr>) = secret_key s"
  by (simp_all add: secret_key_def)

text \<open>
  The part of \<^verbatim>\<open>client.Client\<close> that the snapshotter calls. A successful write returns the object
  as the server stored it (the client fills the argument in place); a failed one may still have
  changed the world. \<open>IsNotFound\<close> is \<^verbatim>\<open>apierrors.IsNotFound\<close>.
\<close>

record 'w secret_client =
  sc_Get :: "'w \<Rightarrow> namespaced_name \<Rightarrow> go_error + secret"
  sc_Create :: "'w \<Rightarrow> secret \<Rightarrow> 'w \<times> (go_error + secret)"
  sc_Update :: "'w \<Rightarrow> secret \<Rightarrow> 'w \<times> (go_error + secret)"
  sc_IsNotFound :: "go_error \<Rightarrow> bool"

section \<open>Documented behaviour of the secrets API\<close>

text \<open>
  What the Kubernetes API promises about one secret, as a relation between the world before and
  after a call: \<open>cur\<close> gives the stored secrets, \<open>past\<close> every version that was ever stored. Reads go
  through the manager's cache, so a read returns some version that was stored at some time, or
  reports absence, without promising that it is the latest. Writes are decided by the server:
  a create succeeds only when the name is free; an update succeeds only when the submitted resource
  version is the stored one (optimistic concurrency); every stored version gets a resource version
  that no earlier version of that name has. A write that reports an error either left the store as it
  was or was applied (a lost reply).
\<close>

definition stores :: "('w \<Rightarrow> namespaced_name \<rightharpoonup> secret) \<Rightarrow> ('w \<Rightarrow> namespaced_name \<Rightarrow> secret set) \<Rightarrow>
    'w \<Rightarrow> secret \<Rightarrow> secret \<Rightarrow> 'w \<Rightarrow> bool" where
  "stores cur past w s s' w' \<longleftrightarrow>
     secret_key s' = secret_key s \<and> sec_Data s' = sec_Data s \<and>
     (\<forall>v\<in>past w (secret_key s). sec_ResourceVersion v \<noteq> sec_ResourceVersion s') \<and>
     cur w' = (cur w)(secret_key s \<mapsto> s') \<and>
     past w' = (past w)(secret_key s := insert s' (past w (secret_key s)))"

definition unchanged :: "('w \<Rightarrow> namespaced_name \<rightharpoonup> secret) \<Rightarrow> ('w \<Rightarrow> namespaced_name \<Rightarrow> secret set) \<Rightarrow>
    'w \<Rightarrow> 'w \<Rightarrow> bool" where
  "unchanged cur past w w' \<longleftrightarrow> cur w' = cur w \<and> past w' = past w"

definition api_contract :: "'w secret_client \<Rightarrow> ('w \<Rightarrow> namespaced_name \<rightharpoonup> secret) \<Rightarrow>
    ('w \<Rightarrow> namespaced_name \<Rightarrow> secret set) \<Rightarrow> bool" where
  "api_contract c cur past \<longleftrightarrow>
     (\<forall>w n s. sc_Get c w n = Inr s \<longrightarrow> s \<in> past w n \<and> secret_key s = n) \<and>
     (\<forall>w s w' r. sc_Create c w s = (w', r) \<longrightarrow>
        (case r of
           Inr s' \<Rightarrow> cur w (secret_key s) = None \<and> stores cur past w s s' w'
         | Inl e \<Rightarrow> unchanged cur past w w' \<or>
             (\<exists>s'. cur w (secret_key s) = None \<and> stores cur past w s s' w'))) \<and>
     (\<forall>w s w' r. sc_Update c w s = (w', r) \<longrightarrow>
        (case r of
           Inr s' \<Rightarrow> (\<exists>t. cur w (secret_key s) = Some t \<and> sec_ResourceVersion t = sec_ResourceVersion s) \<and>
             stores cur past w s s' w'
         | Inl e \<Rightarrow> unchanged cur past w w' \<or>
             (\<exists>t s'. cur w (secret_key s) = Some t \<and> sec_ResourceVersion t = sec_ResourceVersion s \<and>
                stores cur past w s s' w')))"

lemma api_get:
  "api_contract c cur past \<Longrightarrow> sc_Get c w n = Inr s \<Longrightarrow> s \<in> past w n \<and> secret_key s = n"
  by (simp add: api_contract_def)

lemma api_create_ok:
  "api_contract c cur past \<Longrightarrow> sc_Create c w s = (w', Inr s') \<Longrightarrow>
     cur w (secret_key s) = None \<and> stores cur past w s s' w'"
  unfolding api_contract_def by (drule conjunct2, drule conjunct1) fastforce

lemma api_create_err:
  "api_contract c cur past \<Longrightarrow> sc_Create c w s = (w', Inl e) \<Longrightarrow>
     unchanged cur past w w' \<or> (\<exists>s'. cur w (secret_key s) = None \<and> stores cur past w s s' w')"
  unfolding api_contract_def by (drule conjunct2, drule conjunct1) fastforce

lemma api_update_ok:
  "api_contract c cur past \<Longrightarrow> sc_Update c w s = (w', Inr s') \<Longrightarrow>
     (\<exists>t. cur w (secret_key s) = Some t \<and> sec_ResourceVersion t = sec_ResourceVersion s) \<and>
     stores cur past w s s' w'"
  unfolding api_contract_def by (drule conjunct2, drule conjunct2) fastforce

lemma api_update_err:
  "api_contract c cur past \<Longrightarrow> sc_Update c w s = (w', Inl e) \<Longrightarrow>
     unchanged cur past w w' \<or>
     (\<exists>t s'. cur w (secret_key s) = Some t \<and> sec_ResourceVersion t = sec_ResourceVersion s \<and>
        stores cur past w s s' w')"
  unfolding api_contract_def by (drule conjunct2, drule conjunct2) fastforce

section \<open>Finalizers\<close>

text \<open>
  \<^verbatim>\<open>controllerutil\<close> of controller-runtime: three operations on the finalizers of an object, and what
  its documentation says of them.
\<close>

record 'o finalizer_ops =
  fin_Contains :: "'o \<Rightarrow> string \<Rightarrow> bool"
  fin_Add :: "'o \<Rightarrow> string \<Rightarrow> 'o"
  fin_Remove :: "'o \<Rightarrow> string \<Rightarrow> 'o"

definition finalizer_contract :: "'b object_meta_scheme finalizer_ops \<Rightarrow> bool" where
  "finalizer_contract F \<longleftrightarrow>
     (\<forall>obj f. fin_Contains F obj f \<longleftrightarrow> f \<in> set (om_Finalizers obj)) \<and>
     (\<forall>obj f. f \<in> set (om_Finalizers (fin_Add F obj f))) \<and>
     (\<forall>obj f. f \<notin> set (om_Finalizers (fin_Remove F obj f))) \<and>
     (\<forall>obj f. om_DeletionTimestamp (fin_Add F obj f) = om_DeletionTimestamp obj) \<and>
     (\<forall>obj f. om_DeletionTimestamp (fin_Remove F obj f) = om_DeletionTimestamp obj)"

lemma finalizer_contractD:
  assumes "finalizer_contract F"
  shows "fin_Contains F obj f \<longleftrightarrow> f \<in> set (om_Finalizers obj)"
    and "f \<in> set (om_Finalizers (fin_Add F obj f))"
    and "f \<notin> set (om_Finalizers (fin_Remove F obj f))"
    and "om_DeletionTimestamp (fin_Add F obj f) = om_DeletionTimestamp obj"
    and "om_DeletionTimestamp (fin_Remove F obj f) = om_DeletionTimestamp obj"
  using assms by (simp_all add: finalizer_contract_def)

text \<open>The finalizer operations on a list of names, an instance of the contract.\<close>

definition list_finalizers :: "'b object_meta_scheme finalizer_ops" where
  "list_finalizers =
     \<lparr>fin_Contains = (\<lambda>obj f. List.member (om_Finalizers obj) f),
      fin_Add = (\<lambda>obj f. if f \<in> set (om_Finalizers obj) then obj
                 else obj\<lparr>om_Finalizers := om_Finalizers obj @ [f]\<rparr>),
      fin_Remove = (\<lambda>obj f. obj\<lparr>om_Finalizers := filter (\<lambda>g. g \<noteq> f) (om_Finalizers obj)\<rparr>)\<rparr>"

lemma list_finalizers_contract [simp]: "finalizer_contract list_finalizers"
  by (simp add: finalizer_contract_def list_finalizers_def)

end
