(* ===== verification/StackRef.thy ===== *)
theory StackRef
  imports Kube
begin

text \<open>
  Stack references (pkg/backend/stack.go) and the secret name they determine
  (pkg/backend/snapshot.go): a stack belongs to one Kubernetes object, named by the object's
  namespace and uid.
\<close>

section \<open>Qualified names of the Pulumi SDK\<close>

text \<open>
  The package \<^verbatim>\<open>tokens\<close> of the Pulumi SDK: the test for a qualified name, its two parts and the
  delimiter. \<open>qname_contract\<close> is its documentation: the name of a qualified name is what follows the
  last delimiter and its namespace what precedes it, and the delimiter is one character.
\<close>

record qname_ops =
  qn_IsQName :: "string \<Rightarrow> bool"
  qn_Namespace :: "string \<Rightarrow> string"
  qn_Name :: "string \<Rightarrow> string"
  qn_Delimiter :: string

definition qname_contract :: "qname_ops \<Rightarrow> bool" where
  "qname_contract Q \<longleftrightarrow>
     (\<exists>d. qn_Delimiter Q = [d] \<and>
        (\<forall>ns n. d \<notin> set n \<longrightarrow>
           qn_Namespace Q (ns @ [d] @ n) = ns \<and> qn_Name Q (ns @ [d] @ n) = n))"

section \<open>Object references\<close>

record objectReference =
  or_UID :: string
  or_Namespace :: string

definition newStackReferenceForObject :: "object_meta \<Rightarrow> objectReference" where
  "newStackReferenceForObject obj = \<lparr>or_UID = om_UID obj, or_Namespace = om_Namespace obj\<rparr>"

definition parseStackReference :: "qname_ops \<Rightarrow> string \<Rightarrow> go_error + objectReference" where
  "parseStackReference Q s =
     (if \<not> qn_IsQName Q s then Inl (ErrorString (''invalid stack reference: '' @ s))
      else Inr \<lparr>or_UID = qn_Name Q s, or_Namespace = qn_Namespace Q s\<rparr>)"

definition objectReference_Name :: "qname_ops \<Rightarrow> objectReference \<Rightarrow> string" where
  "objectReference_Name Q r = or_Namespace r @ qn_Delimiter Q @ or_UID r"

definition objectReference_String :: "qname_ops \<Rightarrow> objectReference \<Rightarrow> string" where
  "objectReference_String Q r = objectReference_Name Q r"

text \<open>\<^verbatim>\<open>defaultBackend.ParseStackReference\<close> of pkg/backend/backend.go hands the result on.\<close>

definition ParseStackReference :: "qname_ops \<Rightarrow> string \<Rightarrow> go_error + objectReference" where
  "ParseStackReference Q s =
     (case parseStackReference Q s of Inl e \<Rightarrow> Inl e | Inr ref \<Rightarrow> Inr ref)"

definition makeSecretName :: "objectReference \<Rightarrow> namespaced_name" where
  "makeSecretName ref = \<lparr>nn_Namespace = or_Namespace ref, nn_Name = ''pulumi-'' @ or_UID ref\<rparr>"

section \<open>Correctness\<close>

lemma newStackReferenceForObject_simps [simp]:
  "or_UID (newStackReferenceForObject obj) = om_UID obj"
  "or_Namespace (newStackReferenceForObject obj) = om_Namespace obj"
  by (simp_all add: newStackReferenceForObject_def)

lemma makeSecretName_inj [simp]: "makeSecretName r = makeSecretName r' \<longleftrightarrow> r = r'"
  by (cases r; cases r') (auto simp: makeSecretName_def)

lemma parse_Name:
  assumes Q: "qname_contract Q" and q: "qn_IsQName Q (objectReference_Name Q r)"
    and d: "set (qn_Delimiter Q) \<inter> set (or_UID r) = {}"
  shows "parseStackReference Q (objectReference_Name Q r) = Inr r"
proof -
  obtain c where c: "qn_Delimiter Q = [c]"
    and split: "\<And>ns n. c \<notin> set n \<Longrightarrow> qn_Namespace Q (ns @ [c] @ n) = ns \<and> qn_Name Q (ns @ [c] @ n) = n"
    using Q unfolding qname_contract_def by blast
  have "c \<notin> set (or_UID r)" using d c by simp
  from split [OF this, of "or_Namespace r"] show ?thesis
    using q c by (simp add: parseStackReference_def objectReference_Name_def)
qed

text \<open>
  C32. Round trip of a stack reference: whenever the name of a reference is a qualified name and
  the uid holds no delimiter, the backend's \<^verbatim>\<open>ParseStackReference\<close> of the reference's text gives the
  reference back. So a stack name that the engine hands back (in a stack reference) finds the object
  it was made for.
\<close>

theorem stack_reference_roundtrip:
  assumes "qname_contract Q" and "qn_IsQName Q (objectReference_String Q r)"
    and "set (qn_Delimiter Q) \<inter> set (or_UID r) = {}"
  shows "ParseStackReference Q (objectReference_String Q r) = Inr r"
  using parse_Name [of Q r] assms by (simp add: ParseStackReference_def objectReference_String_def)

text \<open>Qualified names as the SDK documents them, with \<^verbatim>\<open>/\<close> as the delimiter.\<close>

definition slash_qnames :: qname_ops where
  "slash_qnames =
     \<lparr>qn_IsQName = (\<lambda>s. s \<noteq> [] \<and> list_all (\<lambda>c. c \<noteq> CHR '' '') s),
      qn_Namespace = (\<lambda>s. rev (drop 1 (dropWhile (\<lambda>c. c \<noteq> CHR ''/'') (rev s)))),
      qn_Name = (\<lambda>s. rev (takeWhile (\<lambda>c. c \<noteq> CHR ''/'') (rev s))),
      qn_Delimiter = ''/''\<rparr>"

lemma slash_qnames_simps [simp]:
  "qn_IsQName slash_qnames s \<longleftrightarrow> s \<noteq> [] \<and> list_all (\<lambda>c. c \<noteq> CHR '' '') s"
  "qn_Namespace slash_qnames s = rev (drop 1 (dropWhile (\<lambda>c. c \<noteq> CHR ''/'') (rev s)))"
  "qn_Name slash_qnames s = rev (takeWhile (\<lambda>c. c \<noteq> CHR ''/'') (rev s))"
  "qn_Delimiter slash_qnames = ''/''"
  by (simp_all add: slash_qnames_def)

lemma slash_qnames_contract [simp]: "qname_contract slash_qnames"
proof -
  have "takeWhile (\<lambda>c. c \<noteq> CHR ''/'') (rev n @ CHR ''/'' # xs) = rev n \<and>
    dropWhile (\<lambda>c. c \<noteq> CHR ''/'') (rev n @ CHR ''/'' # xs) = CHR ''/'' # xs"
    if "CHR ''/'' \<notin> set n" for n xs
    using that by (auto simp: takeWhile_tail dropWhile_append)
  then show ?thesis by (simp add: qname_contract_def)
qed

theorem stack_reference_roundtrip_witness:
  "ParseStackReference slash_qnames ''default/4f1e-92'' =
     Inr \<lparr>or_UID = ''4f1e-92'', or_Namespace = ''default''\<rparr>"
  using stack_reference_roundtrip
    [of slash_qnames "\<lparr>or_UID = ''4f1e-92'', or_Namespace = ''default''\<rparr>"]
  by (simp add: objectReference_String_def objectReference_Name_def)

end
