(* ===== verification/Pulumi.thy ===== *)
theory Pulumi
  imports Kube
begin

text \<open>
  The data of the Pulumi SDK and engine that the sources read or build: property values, resource
  states and snapshots, results, configuration, projects and plugin descriptions. These are the
  fields and constructors the sources use; the library's own functions stay parameters of the
  definitions that call them.
\<close>

section \<open>Properties, resources and snapshots\<close>

text \<open>
  \<^verbatim>\<open>resource.PropertyValue\<close>: strings and objects are the values the sources build or inspect, every
  other value is \<open>PropOther\<close>. A Go map of properties read at a missing key gives the zero value,
  which is null.
\<close>

datatype property_value =
    PropNull
  | PropString string
  | PropObject "string \<Rightarrow> property_value option"
  | PropOther nat

type_synonym property_map = "string \<rightharpoonup> property_value"

definition prop_at :: "property_map \<Rightarrow> string \<Rightarrow> property_value" where
  "prop_at m k = (case m k of None \<Rightarrow> PropNull | Some v \<Rightarrow> v)"

fun IsString :: "property_value \<Rightarrow> bool" where
  "IsString (PropString s) = True"
| "IsString _ = False"

fun StringValue :: "property_value \<Rightarrow> string" where
  "StringValue (PropString s) = s"
| "StringValue _ = []"

record resource_state =
  res_Type :: string
  res_URN :: string
  res_Delete :: bool
  res_Outputs :: property_map

record snapshot =
  snap_Resources :: "resource_state list"
  snap_PendingOperations :: "resource_state list"

section \<open>The checkpoint codec\<close>

text \<open>
  The checkpoint codec of Pulumi (\<^verbatim>\<open>stack.SerializeCheckpoint\<close> for the snapshotter's secrets manager,
  \<^verbatim>\<open>encoding.JSON.Marshal\<close>, \<^verbatim>\<open>stack.UnmarshalVersionedCheckpointToLatestCheckpoint\<close>,
  \<^verbatim>\<open>stack.DeserializeCheckpoint\<close>, whose snapshot may be nil) and \<^verbatim>\<open>stack.GetRootStackResource\<close>.
\<close>

record 'c checkpoint_codec =
  cc_Serialize :: "string \<Rightarrow> snapshot option \<Rightarrow> go_error + 'c"
  cc_Marshal :: "'c \<Rightarrow> go_error + string"
  cc_Unmarshal :: "string \<Rightarrow> go_error + 'c"
  cc_Deserialize :: "'c \<Rightarrow> go_error + snapshot option"
  cc_RootResource :: "snapshot option \<Rightarrow> go_error + resource_state option"

definition codec_contract :: "'c checkpoint_codec \<Rightarrow> bool" where
  "codec_contract C \<longleftrightarrow>
     (\<forall>name snap chk data. cc_Serialize C name snap = Inr chk \<longrightarrow> cc_Marshal C chk = Inr data \<longrightarrow>
        (\<exists>chk'. cc_Unmarshal C data = Inr chk' \<and> cc_Deserialize C chk' = Inr snap))"

lemma codec_roundtrip:
  assumes "codec_contract C" and "cc_Serialize C name snap = Inr chk" and "cc_Marshal C chk = Inr data"
  obtains chk' where "cc_Unmarshal C data = Inr chk'" "cc_Deserialize C chk' = Inr snap"
  using assms unfolding codec_contract_def by blast

section \<open>Results of engine operations\<close>

text \<open>
  A non-nil \<^verbatim>\<open>result.Result\<close>, by the values of its two methods: \<^verbatim>\<open>Error()\<close> and \<^verbatim>\<open>IsBail()\<close>. A nil result
  is \<^const>\<open>None\<close> where one is returned. \<^verbatim>\<open>result.FromError(err)\<close> of a non-nil error carries it and is
  not a bail.
\<close>

record op_result =
  res_Error :: "go_error option"
  res_IsBail :: bool

definition FromError :: "go_error \<Rightarrow> op_result" where
  "FromError e = \<lparr>res_Error = Some e, res_IsBail = False\<rparr>"

lemma FromError_simps [simp]: "res_Error (FromError e) = Some e" "\<not> res_IsBail (FromError e)"
  by (simp_all add: FromError_def)

text \<open>
  \<^verbatim>\<open>engine.ResourceChanges\<close>: how many resources each kind of step touched; a nil map reads as the
  empty one.
\<close>

type_synonym resource_changes = "string \<rightharpoonup> int"

section \<open>Configuration and projects\<close>

datatype config_key = ConfigKey (key_Namespace: string) (key_Name: string)

datatype config_value = PlainValue string | ObjectValue string

type_synonym config_map = "config_key \<rightharpoonup> config_value"

type_synonym runtime_options = "string \<rightharpoonup> nat"

record project =
  proj_Name :: string
  proj_Runtime :: string
  proj_RuntimeOptions :: runtime_options

section \<open>Plugins\<close>

datatype plugin_kind = AnalyzerPlugin | LanguagePlugin | ResourcePlugin | UnknownPlugin string

record plugin_info =
  pi_Name :: string
  pi_Kind :: plugin_kind
  pi_Version :: "string option"

section \<open>Log fields\<close>

datatype log_field =
    LogBool string bool
  | LogInt string int
  | LogString string string
  | LogError "go_error option"

end
