(* ===== verification/Instances.thy ===== *)
theory Instances
  imports StackRef Pulumi
begin

text \<open>
  Concrete external services that satisfy the contracts the development assumes of them: an
  in-memory secrets API with optimistic concurrency and a checkpoint codec for simple snapshots. They
  are used only to show that the contracts can hold and to run the model on concrete inputs.
\<close>

section \<open>An in-memory secrets API\<close>

text \<open>The versions stored under each name, the latest first.\<close>

type_synonym mem = "namespaced_name \<Rightarrow> secret list"

definition fresh_version :: "secret list \<Rightarrow> string" where
  "fresh_version vs = replicate (Suc (foldr (\<lambda>v. max (length (sec_ResourceVersion v))) vs 0)) CHR ''v''"

definition not_found :: go_error where "not_found = External 404 ''not found''"

definition conflict :: go_error where "conflict = External 409 ''conflict''"

definition mem_Get :: "mem \<Rightarrow> namespaced_name \<Rightarrow> go_error + secret" where
  "mem_Get w n = (case w n of [] \<Rightarrow> Inl not_found
     | s # _ \<Rightarrow> if secret_key s = n then Inr s else Inl not_found)"

definition mem_push :: "mem \<Rightarrow> secret \<Rightarrow> mem \<times> (go_error + secret)" where
  "mem_push w s =
     (let s' = s\<lparr>sec_ResourceVersion := fresh_version (w (secret_key s))\<rparr>
      in (w(secret_key s := s' # w (secret_key s)), Inr s'))"

definition mem_Create :: "mem \<Rightarrow> secret \<Rightarrow> mem \<times> (go_error + secret)" where
  "mem_Create w s = (if w (secret_key s) = [] then mem_push w s else (w, Inl conflict))"

definition mem_Update :: "mem \<Rightarrow> secret \<Rightarrow> mem \<times> (go_error + secret)" where
  "mem_Update w s =
     (case w (secret_key s) of
        [] \<Rightarrow> (w, Inl not_found)
      | t # _ \<Rightarrow> if sec_ResourceVersion t = sec_ResourceVersion s then mem_push w s
                 else (w, Inl conflict))"

definition mem_client :: "mem secret_client" where
  "mem_client = \<lparr>sc_Get = mem_Get, sc_Create = mem_Create, sc_Update = mem_Update,
     sc_IsNotFound = (\<lambda>e. e = not_found)\<rparr>"

definition mem_cur :: "mem \<Rightarrow> namespaced_name \<rightharpoonup> secret" where
  "mem_cur w n = (case w n of [] \<Rightarrow> None | s # _ \<Rightarrow> Some s)"

definition mem_past :: "mem \<Rightarrow> namespaced_name \<Rightarrow> secret set" where
  "mem_past w n = set (w n)"

lemma mem_client_simps [simp]:
  "sc_Get mem_client = mem_Get" "sc_Create mem_client = mem_Create"
  "sc_Update mem_client = mem_Update" "sc_IsNotFound mem_client e \<longleftrightarrow> e = not_found"
  by (simp_all add: mem_client_def)

lemma fresh_version_longer:
  "v \<in> set vs \<Longrightarrow> length (sec_ResourceVersion v) < length (fresh_version vs)"
  by (induction vs) (auto simp: fresh_version_def less_Suc_eq_le max_def)

lemma fresh_version_neq [simp]: "v \<in> set vs \<Longrightarrow> sec_ResourceVersion v \<noteq> fresh_version vs"
  using fresh_version_longer [of v vs] by force

lemma mem_push_stores:
  assumes "mem_push w s = (w', Inr s')"
  shows "stores mem_cur mem_past w s s' w'"
proof -
  from assms have "s' = s\<lparr>sec_ResourceVersion := fresh_version (w (secret_key s))\<rparr>"
    and "w' = w(secret_key s := s' # w (secret_key s))"
    by (auto simp: mem_push_def Let_def)
  then show ?thesis by (simp add: stores_def mem_past_def mem_cur_def fun_eq_iff)
qed

lemma mem_push_ok: "\<exists>w' s'. mem_push w s = (w', Inr s')"
  by (simp add: mem_push_def Let_def)

lemma mem_Create_spec:
  "mem_Create w s = (w', r) \<Longrightarrow>
     (case r of Inr s' \<Rightarrow> mem_cur w (secret_key s) = None \<and> stores mem_cur mem_past w s s' w'
      | Inl e \<Rightarrow> unchanged mem_cur mem_past w w')"
  using mem_push_ok [of w s] mem_push_stores [of w s]
  by (auto simp: mem_Create_def mem_cur_def unchanged_def split: if_splits)

lemma mem_Update_spec:
  "mem_Update w s = (w', r) \<Longrightarrow>
     (case r of
        Inr s' \<Rightarrow> (\<exists>t. mem_cur w (secret_key s) = Some t \<and> sec_ResourceVersion t = sec_ResourceVersion s) \<and>
          stores mem_cur mem_past w s s' w'
      | Inl e \<Rightarrow> unchanged mem_cur mem_past w w')"
  using mem_push_ok [of w s] mem_push_stores [of w s]
  by (auto simp: mem_Update_def mem_cur_def unchanged_def split: if_splits list.splits)

lemma mem_client_contract [simp]: "api_contract mem_client mem_cur mem_past"
  unfolding api_contract_def
proof (intro conjI allI impI)
  fix w n s
  assume "sc_Get mem_client w n = Inr s"
  then show "s \<in> mem_past w n" "secret_key s = n"
    by (auto simp: mem_Get_def mem_past_def split: list.splits if_splits)
next
  fix w s w' r
  assume "sc_Create mem_client w s = (w', r)"
  from mem_Create_spec [OF this [simplified]]
  show "case r of Inr s' \<Rightarrow> mem_cur w (secret_key s) = None \<and> stores mem_cur mem_past w s s' w'
    | Inl e \<Rightarrow> unchanged mem_cur mem_past w w' \<or>
        (\<exists>s'. mem_cur w (secret_key s) = None \<and> stores mem_cur mem_past w s s' w')"
    by (auto split: sum.splits)
next
  fix w s w' r
  assume "sc_Update mem_client w s = (w', r)"
  from mem_Update_spec [OF this [simplified]]
  show "case r of
      Inr s' \<Rightarrow> (\<exists>t. mem_cur w (secret_key s) = Some t \<and> sec_ResourceVersion t = sec_ResourceVersion s) \<and>
        stores mem_cur mem_past w s s' w'
    | Inl e \<Rightarrow> unchanged mem_cur mem_past w w' \<or>
        (\<exists>t s'. mem_cur w (secret_key s) = Some t \<and> sec_ResourceVersion t = sec_ResourceVersion s \<and>
           stores mem_cur mem_past w s s' w')"
    by (auto split: sum.splits)
qed

section \<open>A checkpoint codec\<close>

text \<open>
  Snapshots that are lists of resource names: the text holds one name per line. Other snapshots are
  refused by \<open>Serialize\<close>.
\<close>

definition plain_resource :: "string \<Rightarrow> resource_state" where
  "plain_resource u = \<lparr>res_Type = ''t'', res_URN = u, res_Delete = False, res_Outputs = Map.empty\<rparr>"

definition plain_snapshot :: "string list \<Rightarrow> snapshot" where
  "plain_snapshot us = \<lparr>snap_Resources = map plain_resource us, snap_PendingOperations = []\<rparr>"

definition newline :: char where "newline = CHR 0x0A"

definition join_lines :: "string list \<Rightarrow> string" where
  "join_lines us = concat (map (\<lambda>u. u @ [newline]) us)"

fun split_lines :: "string \<Rightarrow> string \<Rightarrow> string list" where
  "split_lines acc [] = []"
| "split_lines acc (c # cs) = (if c = newline then acc # split_lines [] cs else split_lines (acc @ [c]) cs)"

lemma split_line: "newline \<notin> set u \<Longrightarrow> split_lines acc (u @ newline # t) = (acc @ u) # split_lines [] t"
  by (induction u arbitrary: acc) auto

lemma split_join [simp]: "\<forall>u\<in>set us. newline \<notin> set u \<Longrightarrow> split_lines [] (join_lines us) = us"
  by (induction us) (auto simp: join_lines_def split_line)

lemma join_lines_not_nil [simp]: "join_lines us \<noteq> ''nil''"
proof (cases us rule: rev_cases)
  case (snoc vs v)
  then have "last (join_lines us) = newline" by (simp add: join_lines_def)
  then show ?thesis by (auto simp: newline_def)
qed (simp add: join_lines_def)

definition plain_names :: "snapshot \<Rightarrow> string list" where
  "plain_names s = map res_URN (snap_Resources s)"

lemma plain_names_snapshot [simp]: "plain_names (plain_snapshot us) = us"
  by (simp add: plain_names_def plain_snapshot_def plain_resource_def comp_def)

definition plain_codec :: "(string list option) checkpoint_codec" where
  "plain_codec =
     \<lparr>cc_Serialize = (\<lambda>name snap. case snap of None \<Rightarrow> Inr None
        | Some s \<Rightarrow> if s = plain_snapshot (plain_names s) \<and> list_all (\<lambda>u. newline \<notin> set u) (plain_names s)
                    then Inr (Some (plain_names s)) else Inl (External 1 ''unsupported'')),
      cc_Marshal = (\<lambda>c. Inr (case c of None \<Rightarrow> ''nil'' | Some us \<Rightarrow> join_lines us)),
      cc_Unmarshal = (\<lambda>t. Inr (if t = ''nil'' then None else Some (split_lines [] t))),
      cc_Deserialize = (\<lambda>c. Inr (map_option plain_snapshot c)),
      cc_RootResource = (\<lambda>snap. Inr None)\<rparr>"

lemma plain_codec_contract [simp]: "codec_contract plain_codec"
  by (auto simp: codec_contract_def plain_codec_def list_all_iff split: option.splits if_splits)

lemma plain_codec_simps [simp]:
  "cc_Serialize plain_codec name None = Inr None"
  "list_all (\<lambda>u. newline \<notin> set u) us \<Longrightarrow>
     cc_Serialize plain_codec name (Some (plain_snapshot us)) = Inr (Some us)"
  "cc_Marshal plain_codec (Some us) = Inr (join_lines us)"
  "cc_Marshal plain_codec None = Inr ''nil''"
  "cc_Unmarshal plain_codec t = Inr (if t = ''nil'' then None else Some (split_lines [] t))"
  "cc_Deserialize plain_codec c = Inr (map_option plain_snapshot c)"
  "cc_RootResource plain_codec snap = Inr None"
  by (simp_all add: plain_codec_def)

end
