(* ===== verification/Snapshot.thy ===== *)
theory Snapshot
  imports Instances
begin

text \<open>
  Snapshot storage (pkg/backend/snapshot.go): the state of each stack is kept in one Kubernetes
  secret, its data holding the serialised checkpoint and the generation of the object it was made
  for. The interface \<^verbatim>\<open>SnapshotStorage\<close> is a record of functions; the locale \<open>snapshot_storage\<close> states
  what its callers rely on, and is interpreted on the secret snapshotter.
\<close>

section \<open>The interface SnapshotStorage\<close>

text \<open>
  The methods of \<^verbatim>\<open>SnapshotStorage\<close> (with \<^verbatim>\<open>GetObjectGeneration\<close> of \<^verbatim>\<open>SnapshotHandle\<close>) over handles \<open>'h\<close>.
  A handle is a pointer, and \<^verbatim>\<open>SetSnapshot\<close> writes through the one it is given: its result holds the
  world, what the prior handle points to afterwards, and the error or the handle returned.
\<close>

record ('w, 'h) snapshotStorage =
  ss_GetSnapshot :: "'w \<Rightarrow> object_meta \<Rightarrow> go_error + (snapshot option \<times> 'h option)"
  ss_SetSnapshot :: "'w \<Rightarrow> object_meta \<Rightarrow> snapshot option \<Rightarrow> 'h option \<Rightarrow>
    'w \<times> 'h option \<times> (go_error + 'h)"
  ss_GetObjectGeneration :: "'h \<Rightarrow> int64"
  ss_GetStackOutputs :: "'w \<Rightarrow> string \<Rightarrow> go_error + property_map"
  ss_GetStackResourceOutputs :: "'w \<Rightarrow> string \<Rightarrow> (go_error + property_map) outcome"

section \<open>The secret snapshotter\<close>

text \<open>
  \<^verbatim>\<open>secretSnapshotter\<close>: the client and the codec, with the two library functions it calls,
  \<^verbatim>\<open>metav1.NewControllerRef\<close> and the operations on qualified names.
\<close>

record ('w, 'c) secretSnapshotter =
  sn_Client :: "'w secret_client"
  sn_Codec :: "'c checkpoint_codec"
  sn_QName :: qname_ops
  sn_ControllerRef :: "object_meta \<Rightarrow> group_version_kind \<Rightarrow> owner_reference"

record secretSnapshotHandle =
  sh_objectGeneration :: int64
  sh_secret :: "secret option"

definition GetObjectGeneration :: "secretSnapshotHandle \<Rightarrow> int64" where
  "GetObjectGeneration h = sh_objectGeneration h"

text \<open>
  \<^verbatim>\<open>getSnapshot\<close>: \<^const>\<open>None\<close> when the object has no secret (snapshot, handle and error are nil).
\<close>

definition getSnapshot :: "('w, 'c) secretSnapshotter \<Rightarrow> 'w \<Rightarrow> objectReference \<Rightarrow>
    go_error + (snapshot option \<times> secretSnapshotHandle) option" where
  "getSnapshot s w ref =
     (case sc_Get (sn_Client s) w (makeSecretName ref) of
        Inl e \<Rightarrow>
          (if sc_IsNotFound (sn_Client s) e then Inr None else Inl (Wrapped ''load checkpoint'' e))
      | Inr secret \<Rightarrow>
          (case cc_Unmarshal (sn_Codec s) (bytes_at (sec_Data secret) ''checkpoint'') of
             Inl e \<Rightarrow> Inl (Wrapped ''unmarshal checkpoint'' e)
           | Inr chkpoint \<Rightarrow>
               (case cc_Deserialize (sn_Codec s) chkpoint of
                  Inl e \<Rightarrow> Inl (Wrapped ''deserialize snapshot from checkpoint'' e)
                | Inr snap \<Rightarrow>
                    (case ParseInt (bytes_at (sec_Data secret) ''generation'') of
                       None \<Rightarrow> Inl (ErrorString ''parse generation'')
                     | Some generation \<Rightarrow>
                         Inr (Some (snap, \<lparr>sh_objectGeneration = generation,
                                            sh_secret = Some secret\<rparr>))))))"

text \<open>\<^verbatim>\<open>GetSnapshot\<close> with its integrity check on the generation.\<close>

definition GetSnapshot :: "('w, 'c) secretSnapshotter \<Rightarrow> 'w \<Rightarrow> object_meta \<Rightarrow>
    go_error + (snapshot option \<times> secretSnapshotHandle option)" where
  "GetSnapshot s w obj =
     (case getSnapshot s w (newStackReferenceForObject obj) of
        Inl e \<Rightarrow> Inl e
      | Inr None \<Rightarrow> Inr (None, None)
      | Inr (Some (None, h)) \<Rightarrow> Inr (None, None)
      | Inr (Some (Some snap, h)) \<Rightarrow>
          (if sint (GetObjectGeneration h) > sint (om_Generation obj)
           then Inl ErrSnapshotGenerationMismatch
           else Inr (Some snap, Some h)))"

definition zero_handle :: secretSnapshotHandle where
  "zero_handle = \<lparr>sh_objectGeneration = 0, sh_secret = None\<rparr>"

text \<open>
  \<^verbatim>\<open>setSnapshot\<close>: the secret's data, then a create or an update. The handle is the prior one when
  there is one: its generation is written before the secret is, its secret after.
\<close>

definition secret_data :: "string \<Rightarrow> int64 \<Rightarrow> (string \<rightharpoonup> string)" where
  "secret_data data generation = [''checkpoint'' \<mapsto> data, ''generation'' \<mapsto> FormatInt generation]"

definition new_secret :: "('w, 'c) secretSnapshotter \<Rightarrow> object_meta \<Rightarrow> (string \<rightharpoonup> string) \<Rightarrow> secret" where
  "new_secret s obj secretData =
     (let name = makeSecretName (newStackReferenceForObject obj)
      in \<lparr>sec_Namespace = nn_Namespace name, sec_Name = nn_Name name,
          sec_OwnerReferences = [sn_ControllerRef s obj (om_GVK obj)],
          sec_ResourceVersion = [], sec_Data = secretData\<rparr>)"

definition write_secret :: "('w, 'c) secretSnapshotter \<Rightarrow> 'w \<Rightarrow> object_meta \<Rightarrow> (string \<rightharpoonup> string) \<Rightarrow>
    secretSnapshotHandle \<Rightarrow> 'w \<times> (go_error + secret)" where
  "write_secret s w obj secretData handle =
     (case sh_secret handle of
        None \<Rightarrow>
          (case sc_Create (sn_Client s) w (new_secret s obj secretData) of
             (w', Inl e) \<Rightarrow> (w', Inl (Wrapped ''create checkpoint'' e))
           | (w', Inr secret) \<Rightarrow> (w', Inr secret))
      | Some old \<Rightarrow>
          (case sc_Update (sn_Client s) w (old\<lparr>sec_Data := secretData\<rparr>) of
             (w', Inl e) \<Rightarrow> (w', Inl (Wrapped ''update checkpoint'' e))
           | (w', Inr secret) \<Rightarrow> (w', Inr secret)))"

definition setSnapshot :: "('w, 'c) secretSnapshotter \<Rightarrow> 'w \<Rightarrow> object_meta \<Rightarrow> snapshot option \<Rightarrow>
    secretSnapshotHandle option \<Rightarrow>
    'w \<times> secretSnapshotHandle option \<times> (go_error + secretSnapshotHandle)" where
  "setSnapshot s w obj snap prior =
     (let ref = newStackReferenceForObject obj in
      case cc_Serialize (sn_Codec s) (objectReference_Name (sn_QName s) ref) snap of
        Inl e \<Rightarrow> (w, prior, Inl (Wrapped ''serialize snapshot'' e))
      | Inr chk \<Rightarrow>
          (case cc_Marshal (sn_Codec s) chk of
             Inl e \<Rightarrow> (w, prior, Inl (Wrapped ''marshal checkpoint'' e))
           | Inr data \<Rightarrow>
               (let secretData = secret_data data (om_Generation obj);
                    handle = (case prior of Some h \<Rightarrow> h | None \<Rightarrow> zero_handle)
                               \<lparr>sh_objectGeneration := om_Generation obj\<rparr>
                in case write_secret s w obj secretData handle of
                     (w', Inl e) \<Rightarrow> (w', map_option (\<lambda>_. handle) prior, Inl e)
                   | (w', Inr secret) \<Rightarrow>
                       (let h = handle\<lparr>sh_secret := Some secret\<rparr>
                        in (w', map_option (\<lambda>_. h) prior, Inr h)))))"

definition SetSnapshot :: "('w, 'c) secretSnapshotter \<Rightarrow> 'w \<Rightarrow> object_meta \<Rightarrow> snapshot option \<Rightarrow>
    secretSnapshotHandle option \<Rightarrow>
    'w \<times> secretSnapshotHandle option \<times> (go_error + secretSnapshotHandle)" where
  "SetSnapshot s w obj snap prior = setSnapshot s w obj snap prior"

section \<open>The backend client\<close>

definition GetStackOutputs :: "('w, 'c) secretSnapshotter \<Rightarrow> 'w \<Rightarrow> string \<Rightarrow> go_error + property_map" where
  "GetStackOutputs s w stackName =
     (case parseStackReference (sn_QName s) stackName of
        Inl e \<Rightarrow> Inl e
      | Inr ref \<Rightarrow>
          (case getSnapshot s w ref of
             Inl e \<Rightarrow> Inl e
           | Inr found \<Rightarrow>
               (case cc_RootResource (sn_Codec s) (case found of None \<Rightarrow> None | Some (snap, _) \<Rightarrow> snap) of
                  Inl e \<Rightarrow> Inl (Wrapped ''getting root stack resources'' e)
                | Inr None \<Rightarrow> Inr Map.empty
                | Inr (Some res) \<Rightarrow> Inr (res_Outputs res))))"

text \<open>The loop of \<^verbatim>\<open>GetStackResourceOutputs\<close> over the resources of the snapshot.\<close>

definition resource_entry :: "resource_state \<Rightarrow> property_value" where
  "resource_entry r =
     PropObject [''type'' \<mapsto> PropString (res_Type r), ''outputs'' \<mapsto> PropObject (res_Outputs r)]"

fun resource_outputs_loop :: "property_map \<Rightarrow> resource_state list \<Rightarrow> property_map" where
  "resource_outputs_loop pm [] = pm"
| "resource_outputs_loop pm (r # rs) =
     (if res_Delete r then resource_outputs_loop pm rs
      else resource_outputs_loop (pm(res_URN r \<mapsto> resource_entry r)) rs)"

text \<open>
  \<^verbatim>\<open>GetStackResourceOutputs\<close> reads \<^verbatim>\<open>snap.Resources\<close> without asking whether the snapshot is nil.
\<close>

definition GetStackResourceOutputs :: "('w, 'c) secretSnapshotter \<Rightarrow> 'w \<Rightarrow> string \<Rightarrow>
    (go_error + property_map) outcome" where
  "GetStackResourceOutputs s w stackName =
     (case parseStackReference (sn_QName s) stackName of
        Inl e \<Rightarrow> Returns (Inl e)
      | Inr ref \<Rightarrow>
          (case getSnapshot s w ref of
             Inl e \<Rightarrow> Returns (Inl e)
           | Inr found \<Rightarrow>
               (case (case found of None \<Rightarrow> None | Some (snap, _) \<Rightarrow> snap) of
                  None \<Rightarrow> Panics ''nil pointer dereference: snap.Resources''
                | Some snap \<Rightarrow>
                    Returns (Inr (resource_outputs_loop Map.empty (snap_Resources snap))))))"

section \<open>Logging and construction\<close>

text \<open>\<^verbatim>\<open>logSnapshot\<close>, run by the deferred function of \<^verbatim>\<open>GetSnapshot\<close>: it dereferences the handle's secret.\<close>

definition logSnapshot :: "snapshot option \<Rightarrow> secretSnapshotHandle option \<Rightarrow> log_field list outcome" where
  "logSnapshot snap handle =
     (let f = (case snap of None \<Rightarrow> []
               | Some s \<Rightarrow> [LogInt ''pulumi.pending_operations'' (int (length (snap_PendingOperations s)))])
      in case handle of
           None \<Rightarrow> Returns f
         | Some h \<Rightarrow>
             (case sh_secret h of
                None \<Rightarrow> Panics ''nil pointer dereference: h.secret''
              | Some secret \<Rightarrow>
                  Returns (f @ [LogInt ''pulumi.object_generation'' (sint (sh_objectGeneration h)),
                                LogString ''pulumi.secret_resource_version'' (sec_ResourceVersion secret)])))"

text \<open>\<^verbatim>\<open>NewSecretSnapshotter\<close>: the secret snapshotter as a \<^verbatim>\<open>SnapshotStorage\<close>.\<close>

definition NewSecretSnapshotter :: "('w, 'c) secretSnapshotter \<Rightarrow>
    ('w, secretSnapshotHandle) snapshotStorage" where
  "NewSecretSnapshotter s =
     \<lparr>ss_GetSnapshot = GetSnapshot s, ss_SetSnapshot = SetSnapshot s,
      ss_GetObjectGeneration = GetObjectGeneration,
      ss_GetStackOutputs = GetStackOutputs s,
      ss_GetStackResourceOutputs = GetStackResourceOutputs s\<rparr>"

lemma NewSecretSnapshotter_simps [simp]:
  "ss_GetSnapshot (NewSecretSnapshotter s) = GetSnapshot s"
  "ss_SetSnapshot (NewSecretSnapshotter s) = SetSnapshot s"
  "ss_GetObjectGeneration (NewSecretSnapshotter s) = GetObjectGeneration"
  "ss_GetStackOutputs (NewSecretSnapshotter s) = GetStackOutputs s"
  "ss_GetStackResourceOutputs (NewSecretSnapshotter s) = GetStackResourceOutputs s"
  by (simp_all add: NewSecretSnapshotter_def)


section \<open>The contract of SnapshotStorage and its provider\<close>

text \<open>
  What a stack relies on: a snapshot comes with a handle and without one there is no handle, the
  handle's generation never exceeds the object's, a stored snapshot's handle has the object's
  generation, and writing keeps a handle pointer a handle pointer.
\<close>

locale snapshot_storage =
  fixes S :: "('w, 'h) snapshotStorage"
  assumes get_nil: "ss_GetSnapshot S w obj = Inr (None, ho) \<Longrightarrow> ho = None"
    and get_some: "ss_GetSnapshot S w obj = Inr (Some sn, ho) \<Longrightarrow> ho \<noteq> None"
    and get_generation: "ss_GetSnapshot S w obj = Inr (snap, Some h) \<Longrightarrow>
      sint (ss_GetObjectGeneration S h) \<le> sint (om_Generation obj)"
    and set_generation: "ss_SetSnapshot S w obj snap prior = (w', p, Inr h) \<Longrightarrow>
      ss_GetObjectGeneration S h = om_Generation obj"
    and set_prior: "ss_SetSnapshot S w obj snap prior = (w', p, r) \<Longrightarrow>
      (p = None) = (prior = None)"
begin

lemma get_handle_iff: "ss_GetSnapshot S w obj = Inr (snap, h) \<Longrightarrow> (snap = None) = (h = None)"
  by (cases snap) (auto dest: get_nil get_some)

end

lemma setSnapshot_cases:
  assumes "setSnapshot s w obj snap prior = (w', p, r)"
  obtains (serialize) e where "w' = w" "p = prior" "r = Inl (Wrapped ''serialize snapshot'' e)"
  | (marshal) e where "w' = w" "p = prior" "r = Inl (Wrapped ''marshal checkpoint'' e)"
  | (write_error) handle d e
    where "handle = (case prior of Some h \<Rightarrow> h | None \<Rightarrow> zero_handle)\<lparr>sh_objectGeneration := om_Generation obj\<rparr>"
      "write_secret s w obj (secret_data d (om_Generation obj)) handle = (w', Inl e)"
      "p = map_option (\<lambda>_. handle) prior" "r = Inl e"
  | (ok) handle chk d sec
    where "handle = (case prior of Some h \<Rightarrow> h | None \<Rightarrow> zero_handle)\<lparr>sh_objectGeneration := om_Generation obj\<rparr>"
      "cc_Serialize (sn_Codec s) (objectReference_Name (sn_QName s) (newStackReferenceForObject obj)) snap = Inr chk"
      "cc_Marshal (sn_Codec s) chk = Inr d"
      "write_secret s w obj (secret_data d (om_Generation obj)) handle = (w', Inr sec)"
      "p = map_option (\<lambda>_. handle\<lparr>sh_secret := Some sec\<rparr>) prior"
      "r = Inr (handle\<lparr>sh_secret := Some sec\<rparr>)"
proof -
  let ?handle = "(case prior of Some h \<Rightarrow> h | None \<Rightarrow> zero_handle)\<lparr>sh_objectGeneration := om_Generation obj\<rparr>"
  let ?name = "objectReference_Name (sn_QName s) (newStackReferenceForObject obj)"
  show ?thesis
  proof (cases "cc_Serialize (sn_Codec s) ?name snap")
    case (Inl e)
    with assms show ?thesis by (intro serialize [of e]) (auto simp: setSnapshot_def Let_def)
  next
    case chk: (Inr chk)
    show ?thesis
    proof (cases "cc_Marshal (sn_Codec s) chk")
      case (Inl e)
      with assms chk show ?thesis by (intro marshal [of e]) (auto simp: setSnapshot_def Let_def)
    next
      case data: (Inr d)
      obtain w1 r1 where wr: "write_secret s w obj (secret_data d (om_Generation obj)) ?handle = (w1, r1)"
        by (cases "write_secret s w obj (secret_data d (om_Generation obj)) ?handle")
      show ?thesis
      proof (cases r1)
        case (Inl e)
        with assms chk data wr show ?thesis
          by (intro write_error [of ?handle d e]) (auto simp: setSnapshot_def Let_def)
      next
        case (Inr sec)
        with assms chk data wr show ?thesis
          by (intro ok [of ?handle chk d sec]) (auto simp: setSnapshot_def Let_def)
      qed
    qed
  qed
qed

lemma setSnapshot_generation:
  "setSnapshot s w obj snap prior = (w', p, Inr h) \<Longrightarrow> sh_objectGeneration h = om_Generation obj"
  by (erule setSnapshot_cases) auto

lemma setSnapshot_prior: "setSnapshot s w obj snap prior = (w', p, r) \<Longrightarrow> (p = None) = (prior = None)"
  by (erule setSnapshot_cases) auto

interpretation secret_storage: snapshot_storage "NewSecretSnapshotter s" for s
  by unfold_locales
    (auto simp: GetSnapshot_def SetSnapshot_def GetObjectGeneration_def setSnapshot_generation
      dest: setSnapshot_prior split: sum.splits option.splits if_splits)

section \<open>Correctness of the snapshotter\<close>

lemma secret_data_simps [simp]:
  "bytes_at (secret_data d g) ''checkpoint'' = d"
  "bytes_at (secret_data d g) ''generation'' = FormatInt g"
  by (simp_all add: secret_data_def)

lemma new_secret_simps [simp]:
  "secret_key (new_secret s obj d) = makeSecretName (newStackReferenceForObject obj)"
  "sec_Data (new_secret s obj d) = d"
  by (simp_all add: new_secret_def secret_key_def Let_def)

lemma stores_key: "stores cur past w s s' w' \<Longrightarrow> secret_key s' = secret_key s"
  by (simp add: stores_def)

lemma stores_data: "stores cur past w s s' w' \<Longrightarrow> sec_Data s' = sec_Data s"
  by (simp add: stores_def)

text \<open>A handle belongs to an object when the secret it holds is the object's.\<close>

definition handle_for :: "object_meta \<Rightarrow> secretSnapshotHandle \<Rightarrow> bool" where
  "handle_for obj h \<longleftrightarrow>
     (\<forall>sec. sh_secret h = Some sec \<longrightarrow> secret_key sec = makeSecretName (newStackReferenceForObject obj))"

lemma handle_for_simps [simp]:
  "handle_for obj zero_handle"
  "handle_for obj (h\<lparr>sh_objectGeneration := g\<rparr>) = handle_for obj h"
  "handle_for obj (h\<lparr>sh_secret := Some sec\<rparr>) \<longleftrightarrow>
     secret_key sec = makeSecretName (newStackReferenceForObject obj)"
  by (simp_all add: handle_for_def zero_handle_def)

lemma write_secret_ok:
  assumes "api_contract (sn_Client s) cur past" and "handle_for obj h"
    and "write_secret s w obj d h = (w', Inr sec)"
  shows "\<exists>t. secret_key t = makeSecretName (newStackReferenceForObject obj) \<and> sec_Data t = d \<and>
    stores cur past w t sec w' \<and>
    (case sh_secret h of None \<Rightarrow> cur w (makeSecretName (newStackReferenceForObject obj)) = None
     | Some old \<Rightarrow> \<exists>c. cur w (makeSecretName (newStackReferenceForObject obj)) = Some c \<and> sec_ResourceVersion c = sec_ResourceVersion old)"
proof (cases "sh_secret h")
  case None
  with assms(3) have "sc_Create (sn_Client s) w (new_secret s obj d) = (w', Inr sec)"
    by (auto simp: write_secret_def split: prod.splits sum.splits)
  from api_create_ok [OF assms(1) this] None show ?thesis
    by (intro exI [of _ "new_secret s obj d"]) simp
next
  case (Some old)
  with assms(3) have "sc_Update (sn_Client s) w (old\<lparr>sec_Data := d\<rparr>) = (w', Inr sec)"
    by (auto simp: write_secret_def split: prod.splits sum.splits)
  from api_update_ok [OF assms(1) this] Some assms(2) show ?thesis
    by (intro exI [of _ "old\<lparr>sec_Data := d\<rparr>"]) (simp add: handle_for_def)
qed

lemma write_secret_err:
  assumes "api_contract (sn_Client s) cur past" and "handle_for obj h"
    and "write_secret s w obj d h = (w', Inl e)"
  shows "unchanged cur past w w' \<or> (\<exists>t sec. secret_key t = makeSecretName (newStackReferenceForObject obj) \<and>
    sec_Data t = d \<and> stores cur past w t sec w' \<and>
    (case sh_secret h of None \<Rightarrow> cur w (makeSecretName (newStackReferenceForObject obj)) = None
     | Some old \<Rightarrow> \<exists>c. cur w (makeSecretName (newStackReferenceForObject obj)) = Some c \<and> sec_ResourceVersion c = sec_ResourceVersion old))"
proof (cases "sh_secret h")
  case None
  with assms(3) obtain e' where "sc_Create (sn_Client s) w (new_secret s obj d) = (w', Inl e')"
    by (auto simp: write_secret_def split: prod.splits sum.splits)
  from api_create_err [OF assms(1) this] None show ?thesis by fastforce
next
  case (Some old)
  with assms(3) obtain e' where "sc_Update (sn_Client s) w (old\<lparr>sec_Data := d\<rparr>) = (w', Inl e')"
    by (auto simp: write_secret_def split: prod.splits sum.splits)
  from api_update_err [OF assms(1) this] Some assms(2) show ?thesis
    by (fastforce simp: handle_for_def)
qed

lemma write_secret_data:
  assumes "api_contract (sn_Client s) cur past" and "write_secret s w obj d h = (w', Inr sec)"
  shows "sec_Data sec = d"
proof (cases "sh_secret h")
  case None
  with assms(2) have "sc_Create (sn_Client s) w (new_secret s obj d) = (w', Inr sec)"
    by (auto simp: write_secret_def split: prod.splits sum.splits)
  from api_create_ok [OF assms(1) this] show ?thesis by (auto dest: stores_data)
next
  case (Some old)
  with assms(2) have "sc_Update (sn_Client s) w (old\<lparr>sec_Data := d\<rparr>) = (w', Inr sec)"
    by (auto simp: write_secret_def split: prod.splits sum.splits)
  from api_update_ok [OF assms(1) this] show ?thesis by (auto dest: stores_data)
qed

lemma getSnapshot_not_sentinel [simp]: "getSnapshot s w ref \<noteq> Inl ErrSnapshotGenerationMismatch"
  by (simp add: getSnapshot_def split: sum.split option.split)

lemma getSnapshot_found:
  assumes "getSnapshot s w ref = Inr (Some (snap, h))"
  obtains secret chk g where "sc_Get (sn_Client s) w (makeSecretName ref) = Inr secret"
    "cc_Unmarshal (sn_Codec s) (bytes_at (sec_Data secret) ''checkpoint'') = Inr chk"
    "cc_Deserialize (sn_Codec s) chk = Inr snap"
    "ParseInt (bytes_at (sec_Data secret) ''generation'') = Some g"
    "h = \<lparr>sh_objectGeneration = g, sh_secret = Some secret\<rparr>"
  using assms by (simp add: getSnapshot_def split: sum.splits option.splits if_splits)

lemma getSnapshot_stored:
  assumes "sc_Get (sn_Client s) w (makeSecretName ref) = Inr sec"
    and "sec_Data sec = secret_data d g"
    and "cc_Unmarshal (sn_Codec s) d = Inr chk" and "cc_Deserialize (sn_Codec s) chk = Inr snap"
  shows "getSnapshot s w ref = Inr (Some (snap, \<lparr>sh_objectGeneration = g, sh_secret = Some sec\<rparr>))"
  using assms by (simp add: getSnapshot_def)

text \<open>
  C15. Round trip of the snapshot store: once \<^verbatim>\<open>SetSnapshot\<close> has stored a snapshot for an object,
  \<^verbatim>\<open>GetSnapshot\<close> for the same object (same namespace and uid, any later state of it) whose read finds the
  stored secret returns exactly that snapshot and an equal handle, unless the object it is asked for
  is older than the one the snapshot was made for: then it returns
  \<^verbatim>\<open>ErrSnapshotGenerationMismatch\<close>. The generation survives its passage through decimal text.
\<close>

theorem snapshot_roundtrip:
  assumes codec: "codec_contract (sn_Codec s)" and api: "api_contract (sn_Client s) cur past"
    and set: "SetSnapshot s w obj (Some snap) prior = (w', p, Inr h)"
    and same: "om_Namespace obj' = om_Namespace obj" "om_UID obj' = om_UID obj"
    and get: "sc_Get (sn_Client s) w2 (makeSecretName (newStackReferenceForObject obj')) =
      Inr (the (sh_secret h))"
  shows "GetSnapshot s w2 obj' =
    (if sint (om_Generation obj) > sint (om_Generation obj') then Inl ErrSnapshotGenerationMismatch
     else Inr (Some snap, Some h))"
  using set [unfolded SetSnapshot_def]
proof (cases rule: setSnapshot_cases)
  case (ok handle chk d sec)
  then have "sec_Data sec = secret_data d (om_Generation obj)" and sec: "the (sh_secret h) = sec"
    using write_secret_data [OF api] by auto
  moreover obtain chk' where "cc_Unmarshal (sn_Codec s) d = Inr chk'" "cc_Deserialize (sn_Codec s) chk' = Inr (Some snap)"
    by (rule codec_roundtrip [OF codec ok(2,3)])
  ultimately have "getSnapshot s w2 (newStackReferenceForObject obj') =
      Inr (Some (Some snap, \<lparr>sh_objectGeneration = om_Generation obj, sh_secret = Some sec\<rparr>))"
    using get by (intro getSnapshot_stored) simp_all
  moreover have "h = \<lparr>sh_objectGeneration = om_Generation obj, sh_secret = Some sec\<rparr>"
    using ok by simp
  ultimately show ?thesis by (simp add: GetSnapshot_def GetObjectGeneration_def)
qed simp_all

text \<open>
  C16. When \<^verbatim>\<open>GetSnapshot\<close> reports \<^verbatim>\<open>ErrSnapshotGenerationMismatch\<close>: exactly when the object's secret is
  there, its checkpoint decodes to a snapshot, its generation parses, and that generation is greater
  than the object's (compared as signed 64-bit integers). No other failure (a failed read, a corrupt
  checkpoint, an unreadable generation) is ever reported as that sentinel, which the reconciler
  answers with a requeue.
\<close>

theorem generation_mismatch_iff:
  "GetSnapshot s w obj = Inl ErrSnapshotGenerationMismatch \<longleftrightarrow>
     (\<exists>secret chk snap g.
        sc_Get (sn_Client s) w (makeSecretName (newStackReferenceForObject obj)) = Inr secret \<and>
        cc_Unmarshal (sn_Codec s) (bytes_at (sec_Data secret) ''checkpoint'') = Inr chk \<and>
        cc_Deserialize (sn_Codec s) chk = Inr (Some snap) \<and>
        ParseInt (bytes_at (sec_Data secret) ''generation'') = Some g \<and>
        sint (om_Generation obj) < sint g)"
  (is "?L = (\<exists>secret chk snap g. ?R secret chk snap g)")
proof
  assume ?L
  then obtain snap h where
    "getSnapshot s w (newStackReferenceForObject obj) = Inr (Some (Some snap, h))"
    and "sint (om_Generation obj) < sint (sh_objectGeneration h)"
    by (auto simp: GetSnapshot_def GetObjectGeneration_def
        split: sum.splits option.splits if_splits)
  then show "\<exists>secret chk snap g. ?R secret chk snap g"
    by (auto elim!: getSnapshot_found)
next
  assume "\<exists>secret chk snap g. ?R secret chk snap g"
  then show ?L by (auto simp: GetSnapshot_def getSnapshot_def GetObjectGeneration_def)
qed

text \<open>
  C18. What a failed \<^verbatim>\<open>SetSnapshot\<close> leaves behind: the secret the caller's handle holds is untouched (so a
  retry submits the same resource version), but its generation is not always: when the write of the
  secret fails the handle already has the generation of the object that could not be stored, although
  no snapshot of that generation was persisted by this handle. When serialising fails, neither the
  world nor the handle changes.
\<close>

theorem failed_SetSnapshot_state:
  assumes "SetSnapshot s w obj snap prior = (w', p, Inl e)"
  shows "map_option sh_secret p = map_option sh_secret prior \<and>
    (p = prior \<and> w' = w \<and>
       (\<exists>e'. e = Wrapped ''serialize snapshot'' e' \<or> e = Wrapped ''marshal checkpoint'' e') \<or>
     map_option sh_objectGeneration p = map_option (\<lambda>_. om_Generation obj) prior \<and>
       (\<exists>e'. e = Wrapped ''create checkpoint'' e' \<or> e = Wrapped ''update checkpoint'' e'))"
  using assms [unfolded SetSnapshot_def]
proof (cases rule: setSnapshot_cases)
  case (write_error handle d e')
  from write_error(2) have "\<exists>e'. e = Wrapped ''create checkpoint'' e' \<or> e = Wrapped ''update checkpoint'' e'"
    using write_error(4) by (auto simp: write_secret_def split: option.splits prod.splits sum.splits)
  moreover have "map_option sh_secret p = map_option sh_secret prior"
    "map_option sh_objectGeneration p = map_option (\<lambda>_. om_Generation obj) prior"
    using write_error(1,3) by (cases prior; simp)+
  ultimately show ?thesis by simp
qed simp_all

text \<open>
  No lost update: a successful \<^verbatim>\<open>SetSnapshot\<close> without a stored secret in hand finds no secret under
  the object's name, and one with a handle finds the very version the handle was made from still
  stored; in both cases what is stored afterwards is the returned handle's secret, holding the
  serialised checkpoint and the object's generation. So two controllers that loaded the same version
  cannot both write.
\<close>

theorem SetSnapshot_no_lost_update:
  assumes api: "api_contract (sn_Client s) cur past"
    and set: "SetSnapshot s w obj snap prior = (w', p, Inr h)"
    and "\<forall>h0. prior = Some h0 \<longrightarrow> handle_for obj h0"
  shows "(case Option.bind prior sh_secret of
      None \<Rightarrow> cur w (makeSecretName (newStackReferenceForObject obj)) = None
    | Some old \<Rightarrow> \<exists>c. cur w (makeSecretName (newStackReferenceForObject obj)) = Some c \<and>
        sec_ResourceVersion c = sec_ResourceVersion old) \<and>
    cur w' (makeSecretName (newStackReferenceForObject obj)) = sh_secret h \<and>
    (\<exists>sec d. sh_secret h = Some sec \<and> sec_Data sec = secret_data d (om_Generation obj)) \<and>
    handle_for obj h"
  using set [unfolded SetSnapshot_def]
proof (cases rule: setSnapshot_cases)
  case (ok handle chk d sec)
  then have hf: "handle_for obj handle"
    using assms(3) by (auto split: option.splits)
  have "sh_secret handle = Option.bind prior sh_secret"
    using ok by (simp add: zero_handle_def split: option.splits)
  with write_secret_ok [OF api hf ok(4)] show ?thesis
    using ok by (auto simp: stores_def)
qed simp_all

text \<open>
  C17. Isolation of stacks: whatever its outcome, \<^verbatim>\<open>SetSnapshot\<close> for one object leaves the stored secret
  of every other object reference as it was, so the state of one custom resource is never written by
  the reconciliation of another.
\<close>

theorem SetSnapshot_frame:
  assumes api: "api_contract (sn_Client s) cur past"
    and set: "SetSnapshot s w obj snap prior = (w', p, r)"
    and "\<forall>h0. prior = Some h0 \<longrightarrow> handle_for obj h0"
    and "ref \<noteq> newStackReferenceForObject obj"
  shows "cur w' (makeSecretName ref) = cur w (makeSecretName ref)"
  using set [unfolded SetSnapshot_def]
proof (cases rule: setSnapshot_cases)
  case (write_error handle d e)
  then have "handle_for obj handle" using assms(3) by (auto split: option.splits)
  from write_secret_err [OF api this write_error(2)] show ?thesis
    using assms(4) by (auto simp: unchanged_def stores_def)
next
  case (ok handle chk d sec)
  then have "handle_for obj handle" using assms(3) by (auto split: option.splits)
  from write_secret_ok [OF api this ok(4)] show ?thesis
    using assms(4) by (auto simp: stores_def)
qed simp_all

lemma resource_outputs_loop_eq:
  "resource_outputs_loop pm rs =
     pm ++ map_of (rev (map (\<lambda>r. (res_URN r, resource_entry r)) (filter (\<lambda>r. \<not> res_Delete r) rs)))"
  by (induction rs arbitrary: pm) simp_all

text \<open>
  C33. What \<^verbatim>\<open>GetStackResourceOutputs\<close> returns for an existing stack: every resource that is not marked
  for deletion, under its URN, with its type and outputs, and nothing else; where a URN occurs twice
  the later resource counts. It panics exactly when the name is a qualified name and no snapshot is
  found for it (no secret, or a checkpoint without a snapshot), since the code reads the resources of
  a nil snapshot; every other failure is returned.
\<close>

theorem GetStackResourceOutputs_cases:
  "GetStackResourceOutputs s w name =
     (case parseStackReference (sn_QName s) name of
        Inl e \<Rightarrow> Returns (Inl e)
      | Inr ref \<Rightarrow>
          (case getSnapshot s w ref of
             Inl e \<Rightarrow> Returns (Inl e)
           | Inr None \<Rightarrow> Panics ''nil pointer dereference: snap.Resources''
           | Inr (Some (None, h)) \<Rightarrow> Panics ''nil pointer dereference: snap.Resources''
           | Inr (Some (Some snap, h)) \<Rightarrow>
               Returns (Inr (map_of (rev (map (\<lambda>r. (res_URN r, resource_entry r))
                 (filter (\<lambda>r. \<not> res_Delete r) (snap_Resources snap))))))))"
  by (auto simp: GetStackResourceOutputs_def resource_outputs_loop_eq split: sum.splits option.splits)

text \<open>
  C34. The two queries of the backend client disagree on a stack that has no state yet: for a
  qualified name whose secret is not found, where the library finds no root resource in a nil
  snapshot, \<^verbatim>\<open>GetStackOutputs\<close> returns the empty property map, and \<^verbatim>\<open>GetStackResourceOutputs\<close> panics.
\<close>

theorem missing_stack_queries:
  assumes "parseStackReference (sn_QName s) name = Inr ref"
    and "sc_Get (sn_Client s) w (makeSecretName ref) = Inl e" and "sc_IsNotFound (sn_Client s) e"
    and "cc_RootResource (sn_Codec s) None = Inr None"
  shows "GetStackOutputs s w name = Inr Map.empty \<and> is_panic (GetStackResourceOutputs s w name)"
proof -
  have "getSnapshot s w ref = Inr None" using assms(2,3) by (simp add: getSnapshot_def)
  with assms(1,4) show ?thesis by (simp add: GetStackOutputs_def GetStackResourceOutputs_def)
qed

text \<open>
  The deferred logging of \<^verbatim>\<open>GetSnapshot\<close> never panics: whenever it returns a handle, the handle holds
  a secret, so reading its resource version is safe.
\<close>

theorem GetSnapshot_log_safe:
  assumes "GetSnapshot s w obj = Inr (snap, h)"
  shows "\<exists>f. logSnapshot snap h = Returns f"
proof (cases h)
  case None
  then show ?thesis by (simp add: logSnapshot_def)
next
  case (Some k)
  with assms obtain sn where "getSnapshot s w (newStackReferenceForObject obj) = Inr (Some (sn, k))"
    by (auto simp: GetSnapshot_def split: sum.splits option.splits if_splits)
  then have "sh_secret k \<noteq> None" by (auto elim: getSnapshot_found)
  with Some show ?thesis by (auto simp: logSnapshot_def)
qed

section \<open>Concrete runs\<close>

definition demo_snapshotter :: "(mem, string list option) secretSnapshotter" where
  "demo_snapshotter =
     \<lparr>sn_Client = mem_client, sn_Codec = plain_codec, sn_QName = slash_qnames,
      sn_ControllerRef = (\<lambda>obj gvk. \<lparr>own_Kind = gvk_Kind gvk, own_Name = om_Name obj,
        own_UID = om_UID obj, own_Controller = True\<rparr>)\<rparr>"

lemma demo_snapshotter_simps [simp]:
  "sn_Client demo_snapshotter = mem_client" "sn_Codec demo_snapshotter = plain_codec"
  "sn_QName demo_snapshotter = slash_qnames"
  by (simp_all add: demo_snapshotter_def)

definition demo_object :: "int64 \<Rightarrow> object_meta" where
  "demo_object g =
     \<lparr>om_Namespace = ''ns'', om_Name = ''acct'', om_UID = ''u1'', om_Generation = g,
      om_DeletionTimestamp = None, om_Finalizers = [], om_ResourceVersion = ''1'',
      om_GVK = \<lparr>gvk_Group = ''g'', gvk_Version = ''v1'', gvk_Kind = ''K''\<rparr>\<rparr>"

lemma demo_object_simps [simp]:
  "om_Namespace (demo_object g) = ''ns''" "om_UID (demo_object g) = ''u1''"
  "om_Generation (demo_object g) = g" "om_DeletionTimestamp (demo_object g) = None"
  "newStackReferenceForObject (demo_object g) = \<lparr>or_UID = ''u1'', or_Namespace = ''ns''\<rparr>"
  by (simp_all add: demo_object_def newStackReferenceForObject_def)

definition demo_name :: namespaced_name where
  "demo_name = \<lparr>nn_Namespace = ''ns'', nn_Name = ''pulumi-u1''\<rparr>"

lemma demo_name_simps [simp]:
  "makeSecretName \<lparr>or_UID = ''u1'', or_Namespace = ''ns''\<rparr> = demo_name"
  by (simp_all add: demo_name_def makeSecretName_def)

definition demo_secret :: "string \<Rightarrow> string \<Rightarrow> int64 \<Rightarrow> secret" where
  "demo_secret version data g =
     \<lparr>sec_Namespace = ''ns'', sec_Name = ''pulumi-u1'',
      sec_OwnerReferences = [\<lparr>own_Kind = ''K'', own_Name = ''acct'', own_UID = ''u1'', own_Controller = True\<rparr>],
      sec_ResourceVersion = version, sec_Data = secret_data data g\<rparr>"

definition demo_handle :: "string \<Rightarrow> string \<Rightarrow> int64 \<Rightarrow> secretSnapshotHandle" where
  "demo_handle version data g =
     \<lparr>sh_objectGeneration = g, sh_secret = Some (demo_secret version data g)\<rparr>"

definition no_secrets :: mem where "no_secrets = (\<lambda>_. [])"

lemma fresh_version_simps [simp]:
  "fresh_version [] = ''v''"
  "fresh_version [demo_secret ''v'' d g] = ''vv''"
  by (simp_all add: fresh_version_def demo_secret_def numeral_eq_Suc)

lemma demo_secret_simps [simp]:
  "secret_key (demo_secret v d g) = demo_name"
  "sec_Data (demo_secret v d g) = secret_data d g"
  "sec_ResourceVersion (demo_secret v d g) = v"
  "(demo_secret v d g)\<lparr>sec_Data := secret_data d' g'\<rparr> = demo_secret v d' g'"
  "(demo_secret v d g)\<lparr>sec_ResourceVersion := v'\<rparr> = demo_secret v' d g"
  by (simp_all add: demo_secret_def demo_name_def secret_key_def)

lemma demo_new_secret [simp]:
  "new_secret demo_snapshotter (demo_object g) (secret_data d g) = demo_secret [] d g"
  by (simp add: new_secret_def demo_secret_def demo_name_def demo_snapshotter_def)
    (simp add: demo_object_def)

lemma demo_create:
  "list_all (\<lambda>u. newline \<notin> set u) us \<Longrightarrow>
   SetSnapshot demo_snapshotter no_secrets (demo_object g) (Some (plain_snapshot us)) None =
     (no_secrets(demo_name := [demo_secret ''v'' (join_lines us) g]), None,
      Inr (demo_handle ''v'' (join_lines us) g))"
  by (simp add: SetSnapshot_def setSnapshot_def write_secret_def zero_handle_def mem_Create_def
      mem_push_def no_secrets_def demo_handle_def Let_def)

theorem snapshot_roundtrip_witness:
  "GetSnapshot demo_snapshotter (no_secrets(demo_name := [demo_secret ''v'' (join_lines [''a'', ''b'']) 3]))
     (demo_object 5) = Inr (Some (plain_snapshot [''a'', ''b'']), Some (demo_handle ''v'' (join_lines [''a'', ''b'']) 3))"
proof -
  have "SetSnapshot demo_snapshotter no_secrets (demo_object 3) (Some (plain_snapshot [''a'', ''b''])) None =
     (no_secrets(demo_name := [demo_secret ''v'' (join_lines [''a'', ''b'']) 3]), None,
      Inr (demo_handle ''v'' (join_lines [''a'', ''b'']) 3))"
    by (intro demo_create) (simp add: newline_def)
  from snapshot_roundtrip [of demo_snapshotter mem_cur mem_past, OF _ _ this, of "demo_object 5"]
  show ?thesis by (simp add: mem_Get_def demo_handle_def)
qed

lemma demo_update:
  "list_all (\<lambda>u. newline \<notin> set u) us \<Longrightarrow>
   SetSnapshot demo_snapshotter (no_secrets(demo_name := [demo_secret ''v'' d g])) (demo_object g')
     (Some (plain_snapshot us)) (Some (demo_handle ''v'' d g)) =
     (no_secrets(demo_name := [demo_secret ''vv'' (join_lines us) g', demo_secret ''v'' d g]),
      Some (demo_handle ''vv'' (join_lines us) g'), Inr (demo_handle ''vv'' (join_lines us) g'))"
  by (simp add: SetSnapshot_def setSnapshot_def write_secret_def mem_Update_def
      mem_push_def no_secrets_def demo_handle_def Let_def)

lemma demo_conflict:
  "SetSnapshot demo_snapshotter (no_secrets(demo_name := [demo_secret ''vv'' d g])) (demo_object g')
     (Some (plain_snapshot [])) (Some (demo_handle ''v'' d' g'')) =
     (no_secrets(demo_name := [demo_secret ''vv'' d g]),
      Some \<lparr>sh_objectGeneration = g', sh_secret = Some (demo_secret ''v'' d' g'')\<rparr>,
      Inl (Wrapped ''update checkpoint'' conflict))"
  by (simp add: SetSnapshot_def setSnapshot_def write_secret_def mem_Update_def
      mem_push_def no_secrets_def demo_handle_def Let_def)

lemma demo_handle_for [simp]: "handle_for (demo_object g) (demo_handle v d g')"
  by (simp add: handle_for_def demo_handle_def)

theorem failed_SetSnapshot_state_witness:
  "map_option sh_objectGeneration
     (fst (snd (SetSnapshot demo_snapshotter (no_secrets(demo_name := [demo_secret ''vv'' [] 4]))
       (demo_object 5) (Some (plain_snapshot [])) (Some (demo_handle ''v'' [] 3))))) = Some 5"
  using failed_SetSnapshot_state [OF demo_conflict [of "[]" 4 5 "[]" 3]]
  by (simp add: demo_conflict conflict_def)

theorem SetSnapshot_no_lost_update_witness:
  "mem_cur (no_secrets(demo_name := [demo_secret ''vv'' [] 5, demo_secret ''v'' [] 3])) demo_name =
     sh_secret (demo_handle ''vv'' [] 5)"
proof -
  have "SetSnapshot demo_snapshotter (no_secrets(demo_name := [demo_secret ''v'' [] 3])) (demo_object 5)
     (Some (plain_snapshot [])) (Some (demo_handle ''v'' [] 3)) =
     (no_secrets(demo_name := [demo_secret ''vv'' [] 5, demo_secret ''v'' [] 3]),
      Some (demo_handle ''vv'' [] 5), Inr (demo_handle ''vv'' [] 5))"
    using demo_update [of "[]" "[]" 3 5] by (simp add: join_lines_def)
  from SetSnapshot_no_lost_update [of demo_snapshotter mem_cur mem_past, OF _ this]
  show ?thesis by simp
qed

theorem SetSnapshot_frame_witness:
  "mem_cur (no_secrets(demo_name := [demo_secret ''v'' [] 3]))
       (makeSecretName \<lparr>or_UID = ''u2'', or_Namespace = ''ns''\<rparr>) =
     mem_cur no_secrets (makeSecretName \<lparr>or_UID = ''u2'', or_Namespace = ''ns''\<rparr>)"
  using SetSnapshot_frame [of demo_snapshotter mem_cur mem_past,
      OF _ demo_create [of "[]" 3], of "\<lparr>or_UID = ''u2'', or_Namespace = ''ns''\<rparr>"]
  by (simp add: join_lines_def)

theorem missing_stack_queries_witness:
  "GetStackOutputs demo_snapshotter no_secrets ''ns/u1'' = Inr Map.empty \<and>
     is_panic (GetStackResourceOutputs demo_snapshotter no_secrets ''ns/u1'')"
  by (rule missing_stack_queries [of _ _ "\<lparr>or_UID = ''u1'', or_Namespace = ''ns''\<rparr>" _ not_found])
    (simp_all add: parseStackReference_def mem_Get_def no_secrets_def)

theorem GetSnapshot_log_safe_witness:
  "\<exists>f. logSnapshot (Some (plain_snapshot [''a''])) (Some (demo_handle ''v'' (join_lines [''a'']) 3)) = Returns f"
  by (rule GetSnapshot_log_safe [of demo_snapshotter
        "no_secrets(demo_name := [demo_secret ''v'' (join_lines [''a'']) 3])" "demo_object 4"])
    (simp add: GetSnapshot_def getSnapshot_def GetObjectGeneration_def mem_Get_def demo_handle_def newline_def)

end
