(* ===== verification/HostServer.thy ===== *)
theory HostServer
  imports Pulumi
begin

text \<open>
  The engine service that the plugin host serves to its plugins (pkg/plugin/host_server.go): its
  address, the root resource it remembers, and the log requests it forwards to the host's two sinks.
\<close>

section \<open>State and construction\<close>

text \<open>
  \<^verbatim>\<open>diag.Severity\<close> as the sources use it, and the severity of a log request (an enumeration that may
  hold a number the code does not know).
\<close>

datatype severity = SevDebug | SevInfo | SevWarning | SevError

datatype log_severity = LogSeverity_DEBUG | LogSeverity_INFO | LogSeverity_WARNING | LogSeverity_ERROR
  | LogSeverity_Unknown int

record log_request =
  lr_Severity :: log_severity
  lr_Urn :: string
  lr_Message :: string
  lr_StreamId :: int
  lr_Ephemeral :: bool

text \<open>
  \<open>hs_rootUrn\<close> is the atomic value; the two channels of the struct are between the server and
  \<^verbatim>\<open>rpcutil.Serve\<close>, which is a parameter where they are used.
\<close>

record hostServer =
  hs_addr :: string
  hs_rootUrn :: string

text \<open>\<open>serve\<close> is \<^verbatim>\<open>rpcutil.Serve\<close>: it starts the server on a free port or fails.\<close>

definition newHostServer :: "('w \<Rightarrow> 'w \<times> (go_error + int)) \<Rightarrow> 'w \<Rightarrow> 'w \<times> (go_error + hostServer)" where
  "newHostServer serve w =
     (case serve w of
        (w', Inl e) \<Rightarrow> (w', Inl e)
      | (w', Inr port) \<Rightarrow> (w', Inr \<lparr>hs_addr = ''127.0.0.1:'' @ show_int port, hs_rootUrn = []\<rparr>))"

definition Address :: "hostServer \<Rightarrow> string" where
  "Address eng = hs_addr eng"

text \<open>
  \<^verbatim>\<open>Cancel\<close>: a send on the cancel channel, then a receive from the done channel. \<open>stop\<close> is the serving
  goroutine's side: what it does on the signal and the error it finishes with.
\<close>

definition Cancel :: "('w \<Rightarrow> 'w \<times> go_error option) \<Rightarrow> 'w \<Rightarrow> 'w \<times> go_error option" where
  "Cancel stop w = stop w"

section \<open>Requests\<close>

text \<open>The two sinks of the host: a message of a severity about a resource, on a stream.\<close>

type_synonym 'w sink = "'w \<Rightarrow> severity \<Rightarrow> string \<Rightarrow> string \<Rightarrow> int \<Rightarrow> 'w"

fun severity_of :: "log_severity \<Rightarrow> go_error + severity" where
  "severity_of LogSeverity_DEBUG = Inr SevDebug"
| "severity_of LogSeverity_INFO = Inr SevInfo"
| "severity_of LogSeverity_WARNING = Inr SevWarning"
| "severity_of LogSeverity_ERROR = Inr SevError"
| "severity_of (LogSeverity_Unknown n) = Inl (ErrorString (''Unrecognized logging severity: '' @ show_int n))"

definition server_Log :: "'w sink \<Rightarrow> 'w sink \<Rightarrow> 'w \<Rightarrow> log_request \<Rightarrow> 'w \<times> go_error option" where
  "server_Log sink statusSink w req =
     (case severity_of (lr_Severity req) of
        Inl e \<Rightarrow> (w, Some e)
      | Inr sev \<Rightarrow>
          (if lr_Ephemeral req then (statusSink w sev (lr_Urn req) (lr_Message req) (lr_StreamId req), None)
           else (sink w sev (lr_Urn req) (lr_Message req) (lr_StreamId req), None)))"

definition GetRootResource :: "hostServer \<Rightarrow> string" where
  "GetRootResource eng = hs_rootUrn eng"

definition SetRootResource :: "hostServer \<Rightarrow> string \<Rightarrow> hostServer" where
  "SetRootResource eng urn = eng\<lparr>hs_rootUrn := urn\<rparr>"

section \<open>Correctness\<close>

lemma root_resource [simp]:
  "GetRootResource (SetRootResource eng urn) = urn"
  "Address (SetRootResource eng urn) = Address eng"
  by (simp_all add: GetRootResource_def SetRootResource_def Address_def)

text \<open>
  A log request reaches exactly one sink, the status sink when it is ephemeral and the ordinary
  one otherwise, with its severity, resource, message and stream unchanged; a request of a severity
  the server does not know reaches none and is answered with an error, and these are the only errors.
\<close>

theorem server_Log_routes:
  "server_Log sink statusSink w req =
     (case lr_Severity req of
        LogSeverity_Unknown n \<Rightarrow>
          (w, Some (ErrorString (''Unrecognized logging severity: '' @ show_int n)))
      | sev \<Rightarrow>
          ((if lr_Ephemeral req then statusSink else sink) w
             (case sev of LogSeverity_DEBUG \<Rightarrow> SevDebug | LogSeverity_INFO \<Rightarrow> SevInfo
              | LogSeverity_WARNING \<Rightarrow> SevWarning | _ \<Rightarrow> SevError)
             (lr_Urn req) (lr_Message req) (lr_StreamId req), None))"
  by (simp add: server_Log_def split: log_severity.split)

end
