(* ===== verification/Host.thy ===== *)
theory Host
  imports HostServer
begin

text \<open>
  The plugin host (pkg/plugin/host.go): it loads language runtimes and resource providers on demand,
  caches them, reports them to the engine, and closes them. Its operations hold its mutex from start to
  end, so each is one step on the host's state. Plugins are interface values compared by identity;
  their methods, the loaders and the server's goroutine are parameters.
\<close>

section \<open>State\<close>

type_synonym provider = nat

type_synonym runtime = nat

record resourcePlugin =
  rp_Plugin :: provider
  rp_Info :: plugin_info

record languagePlugin =
  lp_Plugin :: runtime
  lp_Info :: plugin_info

text \<open>The methods of the plugins and of the server's goroutine, acting on the world.\<close>

record 'w plugin_ops =
  po_ProviderInfo :: "'w \<Rightarrow> provider \<Rightarrow> 'w \<times> (go_error + plugin_info)"
  po_ProviderClose :: "'w \<Rightarrow> provider \<Rightarrow> 'w \<times> go_error option"
  po_ProviderCancel :: "'w \<Rightarrow> provider \<Rightarrow> 'w \<times> go_error option"
  po_RuntimeInfo :: "'w \<Rightarrow> runtime \<Rightarrow> 'w \<times> (go_error + plugin_info)"
  po_RuntimeClose :: "'w \<Rightarrow> runtime \<Rightarrow> 'w \<times> go_error option"
  po_ServerStop :: "'w \<Rightarrow> 'w \<times> go_error option"
  po_Sink :: "'w sink"
  po_StatusSink :: "'w sink"

type_synonym 'w provider_loader = "'w \<Rightarrow> string \<Rightarrow> string option \<Rightarrow> 'w \<times> provider option \<times> go_error option"

type_synonym 'w runtime_loader = "'w \<Rightarrow> string \<Rightarrow> 'w \<times> runtime option \<times> go_error option"

text \<open>
  The struct \<^verbatim>\<open>host\<close>. \<open>h_ctx\<close> is the plugin context's pointer; \<open>h_reportedResourcePlugins\<close> a Go map used
  as a set.
\<close>

record 'w host =
  h_ctx :: "nat option"
  h_providerLoader :: "'w provider_loader"
  h_languageRuntimeLoader :: "'w runtime_loader"
  h_languagePlugins :: "string \<rightharpoonup> languagePlugin"
  h_resourcePlugins :: "provider \<rightharpoonup> resourcePlugin"
  h_reportedResourcePlugins :: "string \<rightharpoonup> unit"
  h_plugins :: "plugin_info list"
  h_server :: hostServer

section \<open>Construction\<close>

definition NewHost :: "('w \<Rightarrow> 'w \<times> (go_error + int)) \<Rightarrow> 'w \<Rightarrow> 'w runtime_loader \<Rightarrow> 'w provider_loader \<Rightarrow>
    'w \<times> (go_error + 'w host)" where
  "NewHost serve w languageRuntimeLoader providerLoader =
     (case newHostServer serve w of
        (w', Inl e) \<Rightarrow> (w', Inl e)
      | (w', Inr svr) \<Rightarrow>
          (w', Inr \<lparr>h_ctx = None, h_providerLoader = providerLoader,
             h_languageRuntimeLoader = languageRuntimeLoader, h_languagePlugins = Map.empty,
             h_resourcePlugins = Map.empty, h_reportedResourcePlugins = Map.empty, h_plugins = [],
             h_server = svr\<rparr>))"

definition SetPluginContext :: "'w host \<Rightarrow> nat \<Rightarrow> 'w host" where
  "SetPluginContext h ctx = h\<lparr>h_ctx := Some ctx\<rparr>"

definition SetLanguageRuntimeLoader :: "'w host \<Rightarrow> 'w runtime_loader \<Rightarrow> 'w host" where
  "SetLanguageRuntimeLoader h loader = h\<lparr>h_languageRuntimeLoader := loader\<rparr>"

definition SetProviderLoader :: "'w host \<Rightarrow> 'w provider_loader \<Rightarrow> 'w host" where
  "SetProviderLoader h loader = h\<lparr>h_providerLoader := loader\<rparr>"

section \<open>Loading and caching\<close>

definition plugin_key :: "plugin_info \<Rightarrow> string" where
  "plugin_key info = pi_Name info @ (case pi_Version info of None \<Rightarrow> [] | Some v \<Rightarrow> v)"

text \<open>The part of \<^verbatim>\<open>Provider\<close> that records a loaded provider.\<close>

definition record_provider :: "'w host \<Rightarrow> provider \<Rightarrow> plugin_info \<Rightarrow> 'w host" where
  "record_provider h plug info =
     (let key = plugin_key info;
          h' = (if h_reportedResourcePlugins h key = None
                then h\<lparr>h_reportedResourcePlugins := (h_reportedResourcePlugins h)(key \<mapsto> ()),
                       h_plugins := h_plugins h @ [info]\<rparr>
                else h)
      in h'\<lparr>h_resourcePlugins :=
              (h_resourcePlugins h')(plug \<mapsto> \<lparr>rp_Plugin = plug, rp_Info = info\<rparr>)\<rparr>)"

definition Provider :: "'w plugin_ops \<Rightarrow> 'w \<times> 'w host \<Rightarrow> string \<Rightarrow> string option \<Rightarrow>
    ('w \<times> 'w host) \<times> provider option \<times> go_error option" where
  "Provider po st pkg version =
     (case st of (w, h) \<Rightarrow>
       (case h_providerLoader h w pkg version of
          (w1, Some plug, None) \<Rightarrow>
            (case po_ProviderInfo po w1 plug of
               (w2, Inl infoerr) \<Rightarrow> ((w2, h), None, Some infoerr)
             | (w2, Inr info) \<Rightarrow> ((w2, record_provider h plug info), Some plug, None))
        | (w1, plug, err) \<Rightarrow> ((w1, h), plug, err)))"

definition CloseProvider :: "'w plugin_ops \<Rightarrow> 'w \<times> 'w host \<Rightarrow> provider \<Rightarrow>
    ('w \<times> 'w host) \<times> go_error option" where
  "CloseProvider po st plug =
     (case st of (w, h) \<Rightarrow>
       (case po_ProviderClose po w plug of
          (w', Some err) \<Rightarrow> ((w', h), Some err)
        | (w', None) \<Rightarrow>
            ((w', h\<lparr>h_resourcePlugins := (h_resourcePlugins h)(plug := None)\<rparr>), None)))"

definition record_runtime :: "'w host \<Rightarrow> string \<Rightarrow> runtime \<Rightarrow> plugin_info \<Rightarrow> 'w host" where
  "record_runtime h name plug info =
     h\<lparr>h_plugins := h_plugins h @ [info],
       h_languagePlugins := (h_languagePlugins h)(name \<mapsto> \<lparr>lp_Plugin = plug, lp_Info = info\<rparr>)\<rparr>"

definition LanguageRuntime :: "'w plugin_ops \<Rightarrow> 'w \<times> 'w host \<Rightarrow> string \<Rightarrow>
    ('w \<times> 'w host) \<times> runtime option \<times> go_error option" where
  "LanguageRuntime po st name =
     (case st of (w, h) \<Rightarrow>
       (case h_languagePlugins h name of
          Some plug \<Rightarrow> ((w, h), Some (lp_Plugin plug), None)
        | None \<Rightarrow>
            (case h_languageRuntimeLoader h w name of
               (w1, Some plug, None) \<Rightarrow>
                 (case po_RuntimeInfo po w1 plug of
                    (w2, Inl infoerr) \<Rightarrow> ((w2, h), None, Some infoerr)
                  | (w2, Inr info) \<Rightarrow> ((w2, record_runtime h name plug info), Some plug, None))
             | (w1, plug, err) \<Rightarrow> ((w1, h), plug, err))))"

section \<open>Cancellation and closing\<close>

text \<open>
  A Go map is iterated in an unspecified order: the loops take the order as an argument, a list of the
  keys. \<^verbatim>\<open>SignalCancellation\<close> collects the failures in a multierror (\<open>[]\<close> is nil).
\<close>

definition cancel_error :: "resourcePlugin \<Rightarrow> go_error \<Rightarrow> go_error" where
  "cancel_error plug err =
     Wrapped (''Error signaling cancellation to resource provider '' @ [CHR 0x27] @
       pi_Name (rp_Info plug) @ [CHR 0x27]) err"

fun cancel_loop :: "'w plugin_ops \<Rightarrow> 'w host \<Rightarrow> 'w \<Rightarrow> go_error list \<Rightarrow> provider list \<Rightarrow> 'w \<times> go_error list" where
  "cancel_loop po h w result [] = (w, result)"
| "cancel_loop po h w result (p # ps) =
     (case h_resourcePlugins h p of
        None \<Rightarrow> cancel_loop po h w result ps
      | Some plug \<Rightarrow>
          (case po_ProviderCancel po w (rp_Plugin plug) of
             (w', None) \<Rightarrow> cancel_loop po h w' result ps
           | (w', Some err) \<Rightarrow>
               cancel_loop po h w'
                 (result @ [cancel_error plug err]) ps))"

definition SignalCancellation :: "'w plugin_ops \<Rightarrow> provider list \<Rightarrow> 'w \<times> 'w host \<Rightarrow>
    ('w \<times> 'w host) \<times> go_error list" where
  "SignalCancellation po order st =
     (case st of (w, h) \<Rightarrow>
        case cancel_loop po h w [] order of (w', result) \<Rightarrow> ((w', h), result))"

fun close_resources :: "'w plugin_ops \<Rightarrow> 'w host \<Rightarrow> 'w \<Rightarrow> provider list \<Rightarrow> 'w" where
  "close_resources po h w [] = w"
| "close_resources po h w (p # ps) =
     (case h_resourcePlugins h p of
        None \<Rightarrow> close_resources po h w ps
      | Some plug \<Rightarrow> close_resources po h (fst (po_ProviderClose po w (rp_Plugin plug))) ps)"

fun close_languages :: "'w plugin_ops \<Rightarrow> 'w host \<Rightarrow> 'w \<Rightarrow> string list \<Rightarrow> 'w" where
  "close_languages po h w [] = w"
| "close_languages po h w (n # ns) =
     (case h_languagePlugins h n of
        None \<Rightarrow> close_languages po h w ns
      | Some plug \<Rightarrow> close_languages po h (fst (po_RuntimeClose po w (lp_Plugin plug))) ns)"

definition Close :: "'w plugin_ops \<Rightarrow> provider list \<Rightarrow> string list \<Rightarrow> 'w \<times> 'w host \<Rightarrow>
    ('w \<times> 'w host) \<times> go_error option" where
  "Close po rorder lorder st =
     (case st of (w, h) \<Rightarrow>
        let w1 = close_resources po h w rorder;
            w2 = close_languages po h w1 lorder;
            h' = h\<lparr>h_languagePlugins := Map.empty, h_resourcePlugins := Map.empty\<rparr>
        in case Cancel (po_ServerStop po) w2 of (w3, err) \<Rightarrow> ((w3, h'), err))"

section \<open>The other methods\<close>

definition ServerAddr :: "'w host \<Rightarrow> string" where
  "ServerAddr h = Address (h_server h)"

definition host_Log :: "'w plugin_ops \<Rightarrow> 'w \<Rightarrow> severity \<Rightarrow> string \<Rightarrow> string \<Rightarrow> int \<Rightarrow> 'w" where
  "host_Log po w sev urn msg streamID = po_Sink po w sev urn msg streamID"

definition host_LogStatus :: "'w plugin_ops \<Rightarrow> 'w \<Rightarrow> severity \<Rightarrow> string \<Rightarrow> string \<Rightarrow> int \<Rightarrow> 'w" where
  "host_LogStatus po w sev urn msg streamID = po_StatusSink po w sev urn msg streamID"

definition Analyzer :: "string \<Rightarrow> go_error" where
  "Analyzer name = ErrorString ''unsupported: Host::Analyzer''"

definition PolicyAnalyzer :: "string \<Rightarrow> string \<Rightarrow> go_error" where
  "PolicyAnalyzer name path = ErrorString ''unsupported: Host::PolicyAnalyzer''"

definition ListAnalyzers :: "nat list" where
  "ListAnalyzers = []"

definition ListPlugins :: "'w host \<Rightarrow> plugin_info list" where
  "ListPlugins h = h_plugins h"

text \<open>The three bits of \<^verbatim>\<open>plugin.Flags\<close>.\<close>

record plugin_flags =
  fl_AnalyzerPlugins :: bool
  fl_LanguagePlugins :: bool
  fl_ResourcePlugins :: bool

text \<open>
  One turn of the loop of \<^verbatim>\<open>EnsurePlugins\<close>: the new state and the failures it adds, or the panic on a kind it
  does not know, after what the turns before it did.
\<close>

definition ensure_plugin :: "'w plugin_ops \<Rightarrow> plugin_flags \<Rightarrow> 'w \<times> 'w host \<Rightarrow> plugin_info \<Rightarrow>
    ('w \<times> 'w host, ('w \<times> 'w host) \<times> go_error list) unwinding" where
  "ensure_plugin po kinds st p =
     (case pi_Kind p of
        AnalyzerPlugin \<Rightarrow>
          Returns (st, if fl_AnalyzerPlugins kinds
            then [Wrapped (''failed to load analyzer plugin '' @ pi_Name p) (Analyzer (pi_Name p))] else [])
      | LanguagePlugin \<Rightarrow>
          (if fl_LanguagePlugins kinds
           then (case LanguageRuntime po st (pi_Name p) of
                   (st', _, None) \<Rightarrow> Returns (st', [])
                 | (st', _, Some err) \<Rightarrow>
                     Returns (st', [Wrapped (''failed to load language plugin '' @ pi_Name p) err]))
           else Returns (st, []))
      | ResourcePlugin \<Rightarrow>
          (if fl_ResourcePlugins kinds
           then (case Provider po st (pi_Name p) (pi_Version p) of
                   (st', _, None) \<Rightarrow> Returns (st', [])
                 | (st', _, Some err) \<Rightarrow>
                     Returns (st', [Wrapped (''failed to load resource plugin '' @ pi_Name p) err]))
           else Returns (st, []))
      | UnknownPlugin k \<Rightarrow> Panics (st, ''unexpected plugin kind: '' @ k))"

fun ensure_loop :: "'w plugin_ops \<Rightarrow> plugin_flags \<Rightarrow> 'w \<times> 'w host \<Rightarrow> go_error list \<Rightarrow> plugin_info list \<Rightarrow>
    ('w \<times> 'w host, ('w \<times> 'w host) \<times> go_error list) unwinding" where
  "ensure_loop po kinds st result [] = Returns (st, result)"
| "ensure_loop po kinds st result (p # ps) =
     and_then (ensure_plugin po kinds st p) (\<lambda>(st', errs). ensure_loop po kinds st' (result @ errs) ps)"

definition EnsurePlugins :: "'w plugin_ops \<Rightarrow> 'w \<times> 'w host \<Rightarrow> plugin_info list \<Rightarrow> plugin_flags \<Rightarrow>
    ('w \<times> 'w host, ('w \<times> 'w host) \<times> go_error list) unwinding" where
  "EnsurePlugins po st plugins kinds = ensure_loop po kinds st [] plugins"


section \<open>Calls on the host\<close>

text \<open>
  The methods a client of \<^verbatim>\<open>plugin.Host\<close> can call, and the requests a plugin can make of the host's
  server, as one type of calls with one type of replies. The map orders of the loops are part of the
  call.
\<close>

datatype host_call =
    CallProvider string "string option"
  | CallCloseProvider provider
  | CallLanguageRuntime string
  | CallAnalyzer string
  | CallPolicyAnalyzer string string
  | CallListAnalyzers
  | CallListPlugins
  | CallEnsurePlugins "plugin_info list" plugin_flags
  | CallSignalCancellation "provider list"
  | CallServerAddr
  | CallLog severity string string int
  | CallLogStatus severity string string int
  | CallClose "provider list" "string list"
  | ServeLog log_request
  | ServeGetRootResource
  | ServeSetRootResource string

datatype host_reply =
    ReplyProvider "provider option" "go_error option"
  | ReplyRuntime "runtime option" "go_error option"
  | ReplyAnalyzers "nat list"
  | ReplyPlugins "plugin_info list"
  | ReplyErrors "go_error list"
  | ReplyError "go_error option"
  | ReplyString string
  | ReplyNone

fun host_step :: "'w plugin_ops \<Rightarrow> 'w \<times> 'w host \<Rightarrow> host_call \<Rightarrow>
    ('w \<times> 'w host, ('w \<times> 'w host) \<times> host_reply) unwinding" where
  "host_step po st (CallProvider pkg version) =
     (case Provider po st pkg version of (st', p, e) \<Rightarrow> Returns (st', ReplyProvider p e))"
| "host_step po st (CallCloseProvider p) =
     (case CloseProvider po st p of (st', e) \<Rightarrow> Returns (st', ReplyError e))"
| "host_step po st (CallLanguageRuntime name) =
     (case LanguageRuntime po st name of (st', r, e) \<Rightarrow> Returns (st', ReplyRuntime r e))"
| "host_step po st (CallAnalyzer name) = Returns (st, ReplyError (Some (Analyzer name)))"
| "host_step po st (CallPolicyAnalyzer name path) =
     Returns (st, ReplyError (Some (PolicyAnalyzer name path)))"
| "host_step po st CallListAnalyzers = Returns (st, ReplyAnalyzers ListAnalyzers)"
| "host_step po st CallListPlugins = Returns (st, ReplyPlugins (ListPlugins (snd st)))"
| "host_step po st (CallEnsurePlugins plugins kinds) =
     and_then (EnsurePlugins po st plugins kinds) (\<lambda>(st', errs). Returns (st', ReplyErrors errs))"
| "host_step po st (CallSignalCancellation order) =
     (case SignalCancellation po order st of (st', errs) \<Rightarrow> Returns (st', ReplyErrors errs))"
| "host_step po st CallServerAddr = Returns (st, ReplyString (ServerAddr (snd st)))"
| "host_step po (w, h) (CallLog sev urn msg i) = Returns ((host_Log po w sev urn msg i, h), ReplyNone)"
| "host_step po (w, h) (CallLogStatus sev urn msg i) =
     Returns ((host_LogStatus po w sev urn msg i, h), ReplyNone)"
| "host_step po st (CallClose rorder lorder) =
     (case Close po rorder lorder st of (st', e) \<Rightarrow> Returns (st', ReplyError e))"
| "host_step po (w, h) (ServeLog req) =
     (case server_Log (host_Log po) (host_LogStatus po) w req of (w', e) \<Rightarrow> Returns ((w', h), ReplyError e))"
| "host_step po st ServeGetRootResource =
     Returns (st, ReplyString (GetRootResource (h_server (snd st))))"
| "host_step po (w, h) (ServeSetRootResource urn) =
     Returns ((w, h\<lparr>h_server := SetRootResource (h_server h) urn\<rparr>), ReplyNone)"

text \<open>
  The wrapped host (\<^verbatim>\<open>wrapHost\<close>, \<^verbatim>\<open>wrappedHost\<close> of pkg/backend/stack.go): every method is the wrapped
  host's, but \<^verbatim>\<open>Close\<close> returns nil and does nothing, since the engine closes the host of its options
  at the end of an operation and the stack's host outlives it.
\<close>

fun wrapped_host_step :: "'w plugin_ops \<Rightarrow> 'w \<times> 'w host \<Rightarrow> host_call \<Rightarrow>
    ('w \<times> 'w host, ('w \<times> 'w host) \<times> host_reply) unwinding" where
  "wrapped_host_step po st (CallClose rorder lorder) = Returns (st, ReplyError None)"
| "wrapped_host_step po st c = host_step po st c"

section \<open>The host's invariant\<close>

text \<open>
  A resource plugin is stored under its own identity and its kind is among the reported ones; the
  plugins the host lists are the language plugins it loaded and one resource plugin of each reported
  key, in the order of loading.
\<close>

definition host_ok :: "'w host \<Rightarrow> bool" where
  "host_ok h \<longleftrightarrow>
     (\<forall>p plug. h_resourcePlugins h p = Some plug \<longrightarrow>
        rp_Plugin plug = p \<and> plugin_key (rp_Info plug) \<in> dom (h_reportedResourcePlugins h)) \<and>
     (\<forall>n plug. h_languagePlugins h n = Some plug \<longrightarrow> lp_Info plug \<in> set (h_plugins h)) \<and>
     (\<exists>ls rs. h_plugins h \<in> shuffles ls rs \<and> distinct (map plugin_key rs) \<and>
        set (map plugin_key rs) = dom (h_reportedResourcePlugins h))"

lemma shuffles_snoc_single: "ys @ [z] \<in> shuffles [z] ys"
  by (induction ys) auto

lemma shuffles_snoc_left: "zs \<in> shuffles xs ys \<Longrightarrow> zs @ [z] \<in> shuffles (xs @ [z]) ys"
  by (induction xs ys arbitrary: zs rule: shuffles.induct) (auto simp: shuffles_snoc_single)

lemma shuffles_snoc_right: "zs \<in> shuffles xs ys \<Longrightarrow> zs @ [z] \<in> shuffles xs (ys @ [z])"
  using shuffles_snoc_left [of zs ys xs z] by (simp add: shuffles_commutes)

lemma host_ok_server [simp]: "host_ok (h\<lparr>h_server := s\<rparr>) = host_ok h"
  by (simp add: host_ok_def)

lemma host_ok_record_provider:
  assumes "host_ok h"
  shows "host_ok (record_provider h p info)"
proof (cases "h_reportedResourcePlugins h (plugin_key info)")
  case None
  from assms obtain ls rs where "h_plugins h \<in> shuffles ls rs" "distinct (map plugin_key rs)"
    "set (map plugin_key rs) = dom (h_reportedResourcePlugins h)"
    by (auto simp: host_ok_def)
  moreover from this None have "plugin_key info \<notin> set (map plugin_key rs)" by auto
  ultimately have "\<exists>ls rs. h_plugins h @ [info] \<in> shuffles ls rs \<and> distinct (map plugin_key rs) \<and>
      set (map plugin_key rs) = insert (plugin_key info) (dom (h_reportedResourcePlugins h))"
    by (intro exI [of _ ls] exI [of _ "rs @ [info]"]) (auto intro: shuffles_snoc_right)
  with assms None show ?thesis by (auto simp: host_ok_def record_provider_def Let_def)
next
  case (Some u)
  with assms show ?thesis by (auto simp: host_ok_def record_provider_def Let_def)
qed

lemma host_ok_record_runtime:
  assumes "host_ok h"
  shows "host_ok (record_runtime h n p info)"
proof -
  from assms obtain ls rs where "h_plugins h \<in> shuffles ls rs" "distinct (map plugin_key rs)"
    "set (map plugin_key rs) = dom (h_reportedResourcePlugins h)"
    by (auto simp: host_ok_def)
  then have "\<exists>ls rs. h_plugins h @ [info] \<in> shuffles ls rs \<and> distinct (map plugin_key rs) \<and>
      set (map plugin_key rs) = dom (h_reportedResourcePlugins h)"
    by (intro exI [of _ "ls @ [info]"] exI [of _ rs]) (auto intro: shuffles_snoc_left)
  with assms show ?thesis by (auto simp: host_ok_def record_runtime_def)
qed


section \<open>Relations kept by every call\<close>

text \<open>
  Every call changes the host only by recording a provider or a runtime, by forgetting a provider, by
  remembering a root resource, or by closing. A relation that holds across these changes (other than
  closing) holds across every call but \<^verbatim>\<open>Close\<close>, and across every call on the wrapped host.
\<close>

fun is_close :: "host_call \<Rightarrow> bool" where
  "is_close (CallClose rorder lorder) = True"
| "is_close _ = False"

lemma wrapped_host_step_open: "\<not> is_close c \<Longrightarrow> wrapped_host_step po st c = host_step po st c"
  by (cases c) simp_all

lemma wrapped_host_step_close: "is_close c \<Longrightarrow> wrapped_host_step po st c = Returns (st, ReplyError None)"
  by (cases c) simp_all

locale host_relation =
  fixes P :: "'w host \<Rightarrow> 'w host \<Rightarrow> bool"
  assumes P_refl: "P h h"
    and P_trans: "P h1 h2 \<Longrightarrow> P h2 h3 \<Longrightarrow> P h1 h3"
    and P_provider: "P h (record_provider h p info)"
    and P_runtime: "h_languagePlugins h n = None \<Longrightarrow> P h (record_runtime h n p info)"
    and P_forget: "P h (h\<lparr>h_resourcePlugins := (h_resourcePlugins h)(p := None)\<rparr>)"
    and P_root: "P h (h\<lparr>h_server := SetRootResource (h_server h) urn\<rparr>)"
begin

lemma P_Provider: "Provider po (w, h) pkg version = ((w', h'), r) \<Longrightarrow> P h h'"
  by (auto simp: Provider_def P_refl P_provider split: prod.splits option.splits sum.splits)

lemma P_CloseProvider: "CloseProvider po (w, h) p = ((w', h'), r) \<Longrightarrow> P h h'"
  by (auto simp: CloseProvider_def P_refl P_forget split: prod.splits option.splits)

lemma P_LanguageRuntime: "LanguageRuntime po (w, h) n = ((w', h'), r) \<Longrightarrow> P h h'"
  by (auto simp: LanguageRuntime_def P_refl P_runtime split: prod.splits option.splits sum.splits)

lemma P_ensure_plugin: "ensure_plugin po kinds (w, h) p = Returns ((w', h'), errs) \<Longrightarrow> P h h'"
  by (auto simp: ensure_plugin_def P_refl split: plugin_kind.splits if_splits prod.splits option.splits
      dest: P_Provider P_LanguageRuntime)

lemma P_ensure_loop:
  "ensure_loop po kinds (w, h) result ps = Returns ((w', h'), errs) \<Longrightarrow> P h h'"
proof (induction ps arbitrary: w h result)
  case Nil
  then show ?case by (simp add: P_refl)
next
  case (Cons p ps)
  then obtain w1 h1 errs1 where "ensure_plugin po kinds (w, h) p = Returns ((w1, h1), errs1)"
    and "ensure_loop po kinds (w1, h1) (result @ errs1) ps = Returns ((w', h'), errs)"
    by (auto simp: and_then_Returns)
  then show ?case using Cons.IH P_ensure_plugin P_trans by blast
qed

lemma P_ensure_panic: "ensure_loop po kinds (w, h) result ps = Panics ((w', h'), m) \<Longrightarrow> P h h'"
proof (induction ps arbitrary: w h result)
  case (Cons p ps)
  from Cons.prems consider "ensure_plugin po kinds (w, h) p = Panics ((w', h'), m)"
    | w1 h1 errs1 where "ensure_plugin po kinds (w, h) p = Returns ((w1, h1), errs1)"
        "ensure_loop po kinds (w1, h1) (result @ errs1) ps = Panics ((w', h'), m)"
    by (auto simp: and_then_Panics)
  then show ?case
  proof cases
    case 1
    then show ?thesis by (auto simp: ensure_plugin_def P_refl split: plugin_kind.splits if_splits prod.splits option.splits)
  next
    case 2
    then show ?thesis using Cons.IH P_ensure_plugin P_trans by blast
  qed
qed simp

lemma P_step: "host_step po (w, h) c = Returns ((w', h'), r) \<Longrightarrow> \<not> is_close c \<Longrightarrow> P h h'"
  by (cases c)
    (auto simp: P_refl P_root EnsurePlugins_def SignalCancellation_def and_then_Returns
      split: prod.splits dest: P_Provider P_CloseProvider P_LanguageRuntime P_ensure_loop)

lemma P_wrapped: "wrapped_host_step po (w, h) c = Returns ((w', h'), r) \<Longrightarrow> P h h'"
  by (cases "is_close c") (auto simp: P_refl wrapped_host_step_open wrapped_host_step_close dest: P_step)

lemma P_wrapped_panic: "wrapped_host_step po (w, h) c = Panics ((w', h'), m) \<Longrightarrow> P h h'"
  by (cases c) (auto simp: EnsurePlugins_def and_then_Panics split: prod.splits dest: P_ensure_panic)

end

text \<open>The invariant, and what a host keeps: its caches grow, its list of plugins is extended.\<close>

definition host_extends :: "'w host \<Rightarrow> 'w host \<Rightarrow> bool" where
  "host_extends h h' \<longleftrightarrow>
     h_languagePlugins h \<subseteq>\<^sub>m h_languagePlugins h' \<and>
     h_reportedResourcePlugins h \<subseteq>\<^sub>m h_reportedResourcePlugins h' \<and>
     (\<exists>new. h_plugins h' = h_plugins h @ new) \<and>
     h_ctx h' = h_ctx h \<and> h_providerLoader h' = h_providerLoader h \<and>
     h_languageRuntimeLoader h' = h_languageRuntimeLoader h \<and> ServerAddr h' = ServerAddr h"

lemma host_extends_record_provider: "host_extends h (record_provider h p info)"
  by (auto simp: host_extends_def record_provider_def Let_def map_le_def ServerAddr_def)

lemma host_extends_record_runtime:
  "h_languagePlugins h n = None \<Longrightarrow> host_extends h (record_runtime h n p info)"
  by (auto simp: host_extends_def record_runtime_def map_le_def ServerAddr_def)

lemma host_extends_trans: "host_extends h1 h2 \<Longrightarrow> host_extends h2 h3 \<Longrightarrow> host_extends h1 h3"
  by (auto simp: host_extends_def intro: map_le_trans)

interpretation extends: host_relation host_extends
  by unfold_locales
    (auto intro: host_extends_trans simp: host_extends_record_provider host_extends_record_runtime,
      auto simp: host_extends_def ServerAddr_def)

interpretation ok: host_relation "\<lambda>h h'. host_ok h \<longrightarrow> host_ok h'"
  by unfold_locales (auto simp: host_ok_record_provider host_ok_record_runtime, auto simp: host_ok_def split: if_splits)


section \<open>Sequences of calls\<close>

fun calls_run :: "('s \<Rightarrow> host_call \<Rightarrow> ('s, 's \<times> host_reply) unwinding) \<Rightarrow> 's \<Rightarrow> host_call list \<Rightarrow>
    ('s, 's \<times> host_reply list) unwinding" where
  "calls_run step st [] = Returns (st, [])"
| "calls_run step st (c # cs) =
     and_then (step st c) (\<lambda>(st', r).
       and_then (calls_run step st' cs) (\<lambda>(st'', rs). Returns (st'', r # rs)))"

lemma calls_run_Cons:
  "calls_run step st (c # cs) = Returns (st2, rs) \<Longrightarrow>
     \<exists>st1 r rs'. step st c = Returns (st1, r) \<and> calls_run step st1 cs = Returns (st2, rs')"
  by (auto simp: and_then_Returns)

context host_relation
begin

lemma P_wrapped_run:
  "calls_run (wrapped_host_step po) (w, h) cs = Returns ((w', h'), rs) \<Longrightarrow> P h h'"
proof (induction cs arbitrary: w h rs)
  case Nil
  then show ?case by (simp add: P_refl)
next
  case (Cons c cs)
  from calls_run_Cons [OF Cons.prems] obtain w1 h1 r rs'
    where "wrapped_host_step po (w, h) c = Returns ((w1, h1), r)"
      "calls_run (wrapped_host_step po) (w1, h1) cs = Returns ((w', h'), rs')" by auto
  then show ?case using Cons.IH P_wrapped P_trans by blast
qed

end

lemma Close_host:
  "Close po rorder lorder (w, h) = ((w', h'), e) \<Longrightarrow>
     h' = h\<lparr>h_languagePlugins := Map.empty, h_resourcePlugins := Map.empty\<rparr>"
  by (simp add: Close_def Let_def split: prod.splits)

lemma host_ok_step:
  assumes "host_step po (w, h) c = Returns ((w', h'), r)" and "host_ok h"
  shows "host_ok h'"
proof (cases "is_close c")
  case True
  then obtain ro lo where "c = CallClose ro lo" by (cases c) auto
  with assms(1) have "h' = h\<lparr>h_languagePlugins := Map.empty, h_resourcePlugins := Map.empty\<rparr>"
    by (auto split: prod.splits dest: Close_host)
  with assms(2) show ?thesis by (auto simp: host_ok_def)
next
  case False
  from ok.P_step [OF assms(1) this] assms(2) show ?thesis by simp
qed

lemma NewHost_ok: "NewHost serve w ll pl = (w0, Inr h) \<Longrightarrow> host_ok h"
  by (auto simp: NewHost_def host_ok_def split: prod.splits sum.splits)

lemma host_ok_run:
  "calls_run (host_step po) (w, h) cs = Returns ((w', h'), rs) \<Longrightarrow> host_ok h \<Longrightarrow> host_ok h'"
proof (induction cs arbitrary: w h rs)
  case (Cons c cs)
  from calls_run_Cons [OF Cons.prems(1)] obtain w1 h1 r rs'
    where "host_step po (w, h) c = Returns ((w1, h1), r)"
      "calls_run (host_step po) (w1, h1) cs = Returns ((w', h'), rs')" by auto
  with Cons.IH Cons.prems(2) show ?case using host_ok_step [of po w h c w1 h1 r] by simp
qed simp


text \<open>
  C28. A language runtime is loaded once: after a call of \<^verbatim>\<open>LanguageRuntime\<close> that returned a runtime, and
  any sequence of calls the engine makes on the wrapped host (closing it included), the same call
  returns the same runtime, without asking the loader and without changing anything.
\<close>

theorem language_runtime_cached:
  assumes "LanguageRuntime po (w, h) name = ((w1, h1), Some r, None)"
    and "calls_run (wrapped_host_step po) (w1, h1) cs = Returns ((w2, h2), rs)"
  shows "LanguageRuntime po (w2, h2) name = ((w2, h2), Some r, None)"
proof -
  from assms(1) obtain plug where "h_languagePlugins h1 name = Some plug" "lp_Plugin plug = r"
    by (auto simp: LanguageRuntime_def record_runtime_def split: option.splits prod.splits sum.splits)
  moreover have "h_languagePlugins h1 \<subseteq>\<^sub>m h_languagePlugins h2"
    using extends.P_wrapped_run [OF assms(2)] by (simp add: host_extends_def)
  ultimately have "h_languagePlugins h2 name = Some plug"
    by (metis domI map_le_def)
  with \<open>lp_Plugin plug = r\<close> show ?thesis by (simp add: LanguageRuntime_def)
qed

lemma close_resources_fold:
  assumes "\<forall>p plug. h_resourcePlugins h p = Some plug \<longrightarrow> rp_Plugin plug = p"
    and "set ps \<subseteq> dom (h_resourcePlugins h)"
  shows "close_resources po h w ps = foldl (\<lambda>w p. fst (po_ProviderClose po w p)) w ps"
  using assms(2)
proof (induction ps arbitrary: w)
  case (Cons p ps)
  then obtain plug where "h_resourcePlugins h p = Some plug" by auto
  with assms(1) have "rp_Plugin plug = p" by simp
  with \<open>h_resourcePlugins h p = Some plug\<close> Cons show ?case by simp
qed simp

text \<open>
  C29. Closing a host that satisfies its bookkeeping: whatever order the maps are iterated in, every
  loaded provider is closed exactly once, then every cached runtime, and errors of plugins are ignored;
  both caches are empty afterwards; then the server is stopped, and its error is the one returned. The
  list of plugins and the record of reported ones survive.
\<close>

theorem Close_closes_everything:
  assumes "host_ok h" and "set rorder = dom (h_resourcePlugins h)" and "distinct rorder"
    and "set lorder = dom (h_languagePlugins h)" and "distinct lorder"
  shows "Close po rorder lorder (w, h) =
    (let closed = foldl (\<lambda>w p. fst (po_ProviderClose po w p)) w rorder;
         closed' = foldl (\<lambda>w n. fst (po_RuntimeClose po w (lp_Plugin (the (h_languagePlugins h n))))) closed lorder
     in ((fst (po_ServerStop po closed'),
          h\<lparr>h_languagePlugins := Map.empty, h_resourcePlugins := Map.empty\<rparr>),
         snd (po_ServerStop po closed')))"
proof -
  have "close_resources po h w rorder = foldl (\<lambda>w p. fst (po_ProviderClose po w p)) w rorder"
    using assms(1,2) by (intro close_resources_fold) (auto simp: host_ok_def)
  moreover have "close_languages po h v ns =
      foldl (\<lambda>w n. fst (po_RuntimeClose po w (lp_Plugin (the (h_languagePlugins h n))))) v ns"
    if "set ns \<subseteq> dom (h_languagePlugins h)" for v ns
    using that by (induction ns arbitrary: v) auto
  ultimately show ?thesis using assms(4) by (simp add: Close_def Let_def Cancel_def split: prod.split)
qed


text \<open>The answers of the providers to a cancellation, in the order they are asked.\<close>

fun cancel_answers :: "'w plugin_ops \<Rightarrow> 'w \<Rightarrow> provider list \<Rightarrow> (provider \<times> go_error option) list" where
  "cancel_answers po w [] = []"
| "cancel_answers po w (p # ps) =
     (p, snd (po_ProviderCancel po w p)) # cancel_answers po (fst (po_ProviderCancel po w p)) ps"

lemma cancel_loop_eq:
  assumes "\<forall>p plug. h_resourcePlugins h p = Some plug \<longrightarrow> rp_Plugin plug = p"
    and "set ps \<subseteq> dom (h_resourcePlugins h)"
  shows "cancel_loop po h w result ps =
    (foldl (\<lambda>w p. fst (po_ProviderCancel po w p)) w ps,
     result @ [cancel_error (the (h_resourcePlugins h p)) e. (p, Some e) \<leftarrow> cancel_answers po w ps])"
  using assms(2)
proof (induction ps arbitrary: w result)
  case (Cons p ps)
  then obtain plug where plug: "h_resourcePlugins h p = Some plug" by auto
  with assms(1) have "rp_Plugin plug = p" by simp
  with plug Cons show ?case by (cases "po_ProviderCancel po w p") (auto split: option.splits)
qed simp

text \<open>
  Cancelling a host that satisfies its bookkeeping: every loaded provider is told to cancel, in
  whatever order the map is iterated, whether or not an earlier one failed; the errors returned are
  those of the providers that failed, each wrapped with the provider's name, in that order; and the
  host itself does not change.
\<close>

theorem SignalCancellation_reaches_all:
  assumes "host_ok h" and "set order = dom (h_resourcePlugins h)"
  shows "SignalCancellation po order (w, h) =
    ((foldl (\<lambda>w p. fst (po_ProviderCancel po w p)) w order, h),
     [cancel_error (the (h_resourcePlugins h p)) e. (p, Some e) \<leftarrow> cancel_answers po w order])"
proof -
  have "cancel_loop po h w [] order =
    (foldl (\<lambda>w p. fst (po_ProviderCancel po w p)) w order,
     [] @ [cancel_error (the (h_resourcePlugins h p)) e. (p, Some e) \<leftarrow> cancel_answers po w order])"
    using assms by (intro cancel_loop_eq) (auto simp: host_ok_def)
  then show ?thesis by (simp add: SignalCancellation_def)
qed

text \<open>
  The outcomes of \<^verbatim>\<open>Provider\<close>: without a provider, or with an error, the loader's answer is handed on
  and the host does not change; a provider whose information cannot be read is not returned and not
  recorded (so it is never closed by the host); otherwise it is returned, recorded under its identity,
  and its information is listed exactly when no plugin with the same name and version text was
  reported before.
\<close>

theorem Provider_outcomes:
  "Provider po (w, h) pkg version =
     (case h_providerLoader h w pkg version of
        (w1, None, err) \<Rightarrow> ((w1, h), None, err)
      | (w1, Some p, Some err) \<Rightarrow> ((w1, h), Some p, Some err)
      | (w1, Some p, None) \<Rightarrow>
          (case po_ProviderInfo po w1 p of
             (w2, Inl infoerr) \<Rightarrow> ((w2, h), None, Some infoerr)
           | (w2, Inr info) \<Rightarrow>
               ((w2, h\<lparr>h_resourcePlugins := (h_resourcePlugins h)(p \<mapsto> \<lparr>rp_Plugin = p, rp_Info = info\<rparr>),
                  h_reportedResourcePlugins := (h_reportedResourcePlugins h)(plugin_key info \<mapsto> ()),
                  h_plugins := h_plugins h @
                    (if h_reportedResourcePlugins h (plugin_key info) = None then [info] else [])\<rparr>),
                Some p, None)))"
proof -
  have "record_provider h p info = h\<lparr>h_resourcePlugins := (h_resourcePlugins h)(p \<mapsto> \<lparr>rp_Plugin = p, rp_Info = info\<rparr>),
      h_reportedResourcePlugins := (h_reportedResourcePlugins h)(plugin_key info \<mapsto> ()),
      h_plugins := h_plugins h @ (if h_reportedResourcePlugins h (plugin_key info) = None then [info] else [])\<rparr>"
    for p info
    by (cases h) (auto simp: record_provider_def Let_def fun_upd_idem_iff)
  then show ?thesis by (simp add: Provider_def split: prod.split option.split sum.split)
qed

text \<open>
  The key under which providers are reported joins the name and the version without a separator,
  so two different plugins can share it: the provider \<open>aws1\<close> at version \<open>2.0.0\<close> and the provider
  \<open>aws\<close> at version \<open>12.0.0\<close>. Whichever is loaded second is used but missing from the list of
  plugins the host reports.
\<close>

theorem plugin_key_collision:
  assumes "i1 = \<lparr>pi_Name = ''aws1'', pi_Kind = ResourcePlugin, pi_Version = Some ''2.0.0''\<rparr>"
    and "i2 = \<lparr>pi_Name = ''aws'', pi_Kind = ResourcePlugin, pi_Version = Some ''12.0.0''\<rparr>"
    and "h_plugins h = []" and "h_reportedResourcePlugins h = Map.empty"
  shows "ListPlugins (record_provider (record_provider h p i1) q i2) = [i1] \<and>
    ListPlugins (record_provider (record_provider h q i2) p i1) = [i2] \<and> i1 \<noteq> i2"
  using assms by (simp add: record_provider_def plugin_key_def ListPlugins_def Let_def)

lemma ensure_plugin_panics [simp]:
  "is_panic (ensure_plugin po kinds st p) \<longleftrightarrow> (\<exists>k. pi_Kind p = UnknownPlugin k)"
  by (simp add: ensure_plugin_def split: plugin_kind.split prod.split option.split)

lemma is_panic_and_then: "is_panic (and_then r f) \<longleftrightarrow> is_panic r \<or> (\<exists>x. r = Returns x \<and> is_panic (f x))"
  by (cases r) auto

lemma not_panic_Returns: "\<not> is_panic r \<Longrightarrow> \<exists>x. r = Returns x"
  by (cases r) auto

lemma ensure_loop_panics:
  "is_panic (ensure_loop po kinds st result ps) \<longleftrightarrow> (\<exists>p\<in>set ps. \<exists>k. pi_Kind p = UnknownPlugin k)"
proof (induction ps arbitrary: st result)
  case (Cons p ps)
  show ?case
  proof (cases "\<exists>k. pi_Kind p = UnknownPlugin k")
    case False
    then obtain st' errs where "ensure_plugin po kinds st p = Returns (st', errs)"
      using not_panic_Returns [of "ensure_plugin po kinds st p"] by auto
    with False Cons show ?thesis by auto
  qed (auto simp: is_panic_and_then)
qed simp

lemma ensure_loop_append:
  "ensure_loop po kinds st result (ps @ qs) =
     and_then (ensure_loop po kinds st result ps) (\<lambda>(st', result'). ensure_loop po kinds st' result' qs)"
proof (induction ps arbitrary: st result)
  case (Cons p ps)
  then show ?case by (cases "ensure_plugin po kinds st p") (auto split: prod.split)
qed simp

lemma ensure_loop_result:
  "ensure_loop po kinds st result ps =
     and_then (ensure_loop po kinds st [] ps) (\<lambda>(st', errs). Returns (st', result @ errs))"
proof (induction ps arbitrary: st result)
  case (Cons p ps)
  show ?case
  proof (cases "ensure_plugin po kinds st p")
    case (Returns x)
    obtain st1 e1 where x: "x = (st1, e1)" by (cases x)
    show ?thesis
      using Cons.IH [of st1 "result @ e1"] Cons.IH [of st1 e1] Returns x
      by (cases "ensure_loop po kinds st1 [] ps") (auto split: prod.splits)
  qed simp
qed simp

text \<open>
  C30. \<^verbatim>\<open>EnsurePlugins\<close> panics exactly when the list holds a plugin of a kind it does not know; otherwise it
  works through the whole list, a failure never stopping it: ensuring a list and then another is
  ensuring the two in turn, with the failures of both; a plugin of a kind that is not requested
  changes nothing, and a requested analyzer always fails (they are not supported).
\<close>

theorem EnsurePlugins_outcomes:
  "(is_panic (EnsurePlugins po st ps kinds) \<longleftrightarrow> (\<exists>p\<in>set ps. \<exists>k. pi_Kind p = UnknownPlugin k)) \<and>
   EnsurePlugins po st (ps @ qs) kinds =
     and_then (EnsurePlugins po st ps kinds) (\<lambda>(st1, errs1).
       and_then (EnsurePlugins po st1 qs kinds) (\<lambda>(st2, errs2). Returns (st2, errs1 @ errs2))) \<and>
   EnsurePlugins po st [\<lparr>pi_Name = n, pi_Kind = AnalyzerPlugin, pi_Version = v\<rparr>] kinds =
     Returns (st, if fl_AnalyzerPlugins kinds
       then [Wrapped (''failed to load analyzer plugin '' @ n) (ErrorString ''unsupported: Host::Analyzer'')]
       else []) \<and>
   EnsurePlugins po st [\<lparr>pi_Name = n, pi_Kind = ResourcePlugin, pi_Version = v\<rparr>]
     (kinds\<lparr>fl_ResourcePlugins := False\<rparr>) = Returns (st, []) \<and>
   EnsurePlugins po st [\<lparr>pi_Name = n, pi_Kind = LanguagePlugin, pi_Version = v\<rparr>]
     (kinds\<lparr>fl_LanguagePlugins := False\<rparr>) = Returns (st, [])"
proof (intro conjI)
  have "ensure_loop po kinds st [] (ps @ qs) =
      and_then (ensure_loop po kinds st [] ps) (\<lambda>(st1, errs1). ensure_loop po kinds st1 errs1 qs)"
    by (rule ensure_loop_append)
  also have "(\<lambda>(st1, errs1). ensure_loop po kinds st1 errs1 qs) = (\<lambda>(st1, errs1).
      and_then (ensure_loop po kinds st1 [] qs) (\<lambda>(st2, errs2). Returns (st2, errs1 @ errs2)))"
    by (rule ext, clarsimp, rule ensure_loop_result)
  finally show "EnsurePlugins po st (ps @ qs) kinds =
     and_then (EnsurePlugins po st ps kinds) (\<lambda>(st1, errs1).
       and_then (EnsurePlugins po st1 qs kinds) (\<lambda>(st2, errs2). Returns (st2, errs1 @ errs2)))"
    by (simp add: EnsurePlugins_def)
qed (simp_all add: EnsurePlugins_def ensure_loop_panics ensure_plugin_def Analyzer_def)

section \<open>Concrete runs\<close>

text \<open>
  A world that logs the closing of plugins: provider \<open>p\<close> is logged as \<open>p\<close>, runtime \<open>r\<close> as \<open>100 + r\<close>,
  the server as 999; the provider 7 fails to cancel.
\<close>

definition demo_info :: "nat \<Rightarrow> plugin_info" where
  "demo_info p = \<lparr>pi_Name = ''p'' @ dec_digits p, pi_Kind = ResourcePlugin, pi_Version = None\<rparr>"

definition demo_plugins :: "nat list plugin_ops" where
  "demo_plugins =
     \<lparr>po_ProviderInfo = (\<lambda>w p. (w, Inr (demo_info p))),
      po_ProviderClose = (\<lambda>w p. (w @ [p], None)),
      po_ProviderCancel = (\<lambda>w p. (w, if p = 7 then Some (External 7 ''busy'') else None)),
      po_RuntimeInfo = (\<lambda>w r. (w, Inr \<lparr>pi_Name = ''rt'', pi_Kind = LanguagePlugin, pi_Version = None\<rparr>)),
      po_RuntimeClose = (\<lambda>w r. (w @ [100 + r], None)),
      po_ServerStop = (\<lambda>w. (w @ [999], None)),
      po_Sink = (\<lambda>w sev urn msg i. w), po_StatusSink = (\<lambda>w sev urn msg i. w)\<rparr>"

definition demo_serve :: "nat list \<Rightarrow> nat list \<times> (go_error + int)" where
  "demo_serve w = (w, Inr 4242)"

definition demo_providers :: "nat list provider_loader" where
  "demo_providers w pkg version = (w, Some (if pkg = ''gcp'' then 3 else 7), None)"

definition demo_runtimes :: "nat list runtime_loader" where
  "demo_runtimes w name = (w, if name = ''embedded'' then Some 1 else None, None)"

definition demo_host :: "nat list host" where
  "demo_host =
     \<lparr>h_ctx = None, h_providerLoader = demo_providers, h_languageRuntimeLoader = demo_runtimes,
      h_languagePlugins = Map.empty, h_resourcePlugins = Map.empty,
      h_reportedResourcePlugins = Map.empty, h_plugins = [],
      h_server = \<lparr>hs_addr = ''127.0.0.1:4242'', hs_rootUrn = []\<rparr>\<rparr>"

lemma demo_NewHost: "NewHost demo_serve [] demo_runtimes demo_providers = ([], Inr demo_host)"
  by (simp add: NewHost_def newHostServer_def demo_serve_def demo_host_def show_int_def dec_digits.simps
      digit_chars)

lemma demo_host_ok [simp]: "host_ok demo_host"
  by (rule NewHost_ok [OF demo_NewHost])

definition demo_host3 :: "nat list host" where
  "demo_host3 = record_runtime (record_provider (record_provider demo_host 3 (demo_info 3)) 7 (demo_info 7))
     ''embedded'' 1 \<lparr>pi_Name = ''rt'', pi_Kind = LanguagePlugin, pi_Version = None\<rparr>"

lemma demo_host3_ok [simp]: "host_ok demo_host3"
  by (simp add: demo_host3_def host_ok_record_runtime host_ok_record_provider)

lemma demo_host3_maps [simp]:
  "h_resourcePlugins demo_host3 = [3 \<mapsto> \<lparr>rp_Plugin = 3, rp_Info = demo_info 3\<rparr>, 7 \<mapsto> \<lparr>rp_Plugin = 7, rp_Info = demo_info 7\<rparr>]"
  "h_languagePlugins demo_host3 = [''embedded'' \<mapsto> \<lparr>lp_Plugin = 1,
     lp_Info = \<lparr>pi_Name = ''rt'', pi_Kind = LanguagePlugin, pi_Version = None\<rparr>\<rparr>]"
  by (simp_all add: demo_host3_def record_runtime_def record_provider_def Let_def demo_host_def)

lemma demo_host3_calls:
  "calls_run (host_step demo_plugins) ([], demo_host)
     [CallProvider ''gcp'' None, CallProvider ''k8s-api'' None, CallLanguageRuntime ''embedded''] =
   Returns (([], demo_host3),
     [ReplyProvider (Some 3) None, ReplyProvider (Some 7) None, ReplyRuntime (Some 1) None])"
  by (simp add: Provider_def LanguageRuntime_def demo_host3_def record_provider_def Let_def
      demo_host_def demo_plugins_def demo_providers_def demo_runtimes_def)


theorem language_runtime_cached_witness:
  "LanguageRuntime demo_plugins ([], demo_host3) ''embedded'' = (([], demo_host3), Some 1, None)"
proof -
  have 1: "LanguageRuntime demo_plugins ([], demo_host3) ''embedded'' = (([], demo_host3), Some 1, None)"
    by (simp add: LanguageRuntime_def)
  show ?thesis
    by (rule language_runtime_cached [OF 1, of "[CallClose [3, 7] [''embedded'']]"]) simp
qed

theorem Close_closes_everything_witness:
  "fst (fst (Close demo_plugins [7, 3] [''embedded''] ([], demo_host3))) = [7, 3, 101, 999]"
proof -
  have "set [7, 3] = dom (h_resourcePlugins demo_host3)" "set [''embedded''] = dom (h_languagePlugins demo_host3)"
    by auto
  from Close_closes_everything [OF demo_host3_ok this(1) _ this(2), of demo_plugins "[]"]
  show ?thesis by (simp add: Let_def demo_plugins_def)
qed

theorem SignalCancellation_reaches_all_witness:
  "snd (SignalCancellation demo_plugins [7, 3] ([], demo_host3)) =
     [cancel_error \<lparr>rp_Plugin = 7, rp_Info = demo_info 7\<rparr> (External 7 ''busy'')]"
proof -
  have "set [7, 3] = dom (h_resourcePlugins demo_host3)" by auto
  from SignalCancellation_reaches_all [OF demo_host3_ok this, of demo_plugins "[]"]
  show ?thesis by (simp add: demo_plugins_def)
qed

theorem plugin_key_collision_witness:
  "ListPlugins (record_provider (record_provider demo_host 1
      \<lparr>pi_Name = ''aws1'', pi_Kind = ResourcePlugin, pi_Version = Some ''2.0.0''\<rparr>) 2
      \<lparr>pi_Name = ''aws'', pi_Kind = ResourcePlugin, pi_Version = Some ''12.0.0''\<rparr>) =
    [\<lparr>pi_Name = ''aws1'', pi_Kind = ResourcePlugin, pi_Version = Some ''2.0.0''\<rparr>]"
  using plugin_key_collision [OF refl refl, of demo_host 1 2] by (simp add: demo_host_def)

end
