(* ===== verification/Status.thy ===== *)
theory Status
  imports Pulumi
begin

text \<open>
  Stack changes (pkg/reconcile/status.go) and the event channel that feeds them (\<^verbatim>\<open>newUpdate\<close> of
  pkg/backend/stack.go). The engine sends its events on an unbuffered channel; a goroutine receives
  them and calls the update's handler, so the handler runs beside the engine and the last event may
  still be in its hands when the engine operation has returned.
\<close>

section \<open>Engine events and stack changes\<close>

text \<open>
  \<^verbatim>\<open>engine.Event\<close>: a resource's outputs (its type and, unless it is nil, its new state's outputs), the
  summary of the changes, and every other event by its type.
\<close>

datatype engine_event =
    ResourceOutputsEvent string "property_map option"
  | SummaryEvent resource_changes
  | OtherEvent string

definition pulumiStackType :: string where
  "pulumiStackType = ''pulumi:pulumi:Stack''"

record stack_changes =
  chg_Planning :: bool
  chg_HasResourceChanges :: bool
  chg_Outputs :: property_map

definition NewStackChanges :: "bool \<Rightarrow> stack_changes" where
  "NewStackChanges dryRun =
     \<lparr>chg_Planning = dryRun, chg_HasResourceChanges = False, chg_Outputs = Map.empty\<rparr>"

text \<open>\<^verbatim>\<open>EngineEvent\<close>; \<open>hc\<close> is \<^verbatim>\<open>ResourceChanges.HasChanges\<close> of the engine.\<close>

fun EngineEvent :: "(resource_changes \<Rightarrow> bool) \<Rightarrow> stack_changes \<Rightarrow> engine_event \<Rightarrow> stack_changes" where
  "EngineEvent hc b (ResourceOutputsEvent type new) =
     (if type = pulumiStackType
      then (case new of None \<Rightarrow> b | Some outputs \<Rightarrow> b\<lparr>chg_Outputs := outputs\<rparr>)
      else b)"
| "EngineEvent hc b (SummaryEvent changes) = b\<lparr>chg_HasResourceChanges := hc changes\<rparr>"
| "EngineEvent hc b (OtherEvent type) = b"

section \<open>The event channel\<close>

text \<open>
  The drainer of one update: the handler's state and the event it has received and not yet handled.
  \<open>send\<close> is a send of the engine on the unbuffered channel: it completes when the goroutine is back
  at the receive, after handling the event in hand. \<open>read_handler\<close> is what a reader sees once the
  engine has returned; \<open>drained\<close> says whether the goroutine handled its last event before the read.
\<close>

record 's drainer =
  dr_state :: 's
  dr_inflight :: "engine_event option"

definition handle_inflight :: "('s \<Rightarrow> engine_event \<Rightarrow> 's) \<Rightarrow> 's drainer \<Rightarrow> 's drainer" where
  "handle_inflight h d =
     (case dr_inflight d of None \<Rightarrow> d
      | Some e \<Rightarrow> \<lparr>dr_state = h (dr_state d) e, dr_inflight = None\<rparr>)"

definition send :: "('s \<Rightarrow> engine_event \<Rightarrow> 's) \<Rightarrow> 's drainer \<Rightarrow> engine_event \<Rightarrow> 's drainer" where
  "send h d e = (handle_inflight h d)\<lparr>dr_inflight := Some e\<rparr>"

definition new_drainer :: "'s \<Rightarrow> 's drainer" where
  "new_drainer s = \<lparr>dr_state = s, dr_inflight = None\<rparr>"

definition read_handler :: "('s \<Rightarrow> engine_event \<Rightarrow> 's) \<Rightarrow> bool \<Rightarrow> 's drainer \<Rightarrow> 's" where
  "read_handler h drained d = dr_state (if drained then handle_inflight h d else d)"

text \<open>A nil handler: the goroutine receives the events and drops them.\<close>

definition handler_or_nil :: "('s \<Rightarrow> engine_event \<Rightarrow> 's) option \<Rightarrow> 's \<Rightarrow> engine_event \<Rightarrow> 's" where
  "handler_or_nil h s e = (case h of None \<Rightarrow> s | Some f \<Rightarrow> f s e)"

lemma handle_inflight_simps [simp]:
  "handle_inflight h \<lparr>dr_state = s, dr_inflight = None\<rparr> = \<lparr>dr_state = s, dr_inflight = None\<rparr>"
  "handle_inflight h \<lparr>dr_state = s, dr_inflight = Some e\<rparr> = \<lparr>dr_state = h s e, dr_inflight = None\<rparr>"
  by (simp_all add: handle_inflight_def)

lemma send_state [simp]:
  "dr_state (send h d e) = dr_state (handle_inflight h d)" "dr_inflight (send h d e) = Some e"
  by (simp_all add: send_def)

lemma handle_send [simp]:
  "handle_inflight h (send h d e) = \<lparr>dr_state = h (dr_state (handle_inflight h d)) e, dr_inflight = None\<rparr>"
  by (simp add: send_def handle_inflight_def)

lemma send_eq: "handle_inflight h d = \<lparr>dr_state = t, dr_inflight = i\<rparr> \<Longrightarrow>
    send h d e = \<lparr>dr_state = t, dr_inflight = Some e\<rparr>"
  by (simp add: send_def)

text \<open>After any sends, the drainer has handled all events but the last, which it has in hand.\<close>

lemma foldl_send:
  "es \<noteq> [] \<Longrightarrow> foldl (send h) (new_drainer s) es =
     \<lparr>dr_state = foldl h s (butlast es), dr_inflight = Some (last es)\<rparr>"
proof (induction es rule: rev_induct)
  case (snoc e es)
  then show ?case
  proof (cases "es = []")
    case True
    then show ?thesis by (simp add: send_def new_drainer_def)
  next
    case False
    with snoc have "handle_inflight h (foldl (send h) (new_drainer s) es) =
        \<lparr>dr_state = foldl h s es, dr_inflight = None\<rparr>"
      by simp (metis append_butlast_last_id foldl_append foldl_Cons foldl_Nil)
    then show ?thesis by (simp add: send_eq)
  qed
qed simp

lemma read_handler_cases:
  "read_handler h drained (foldl (send h) (new_drainer s) es) =
     (if drained then foldl h s es else foldl h s (butlast es))"
proof (cases es rule: rev_cases)
  case Nil
  then show ?thesis by (simp add: read_handler_def new_drainer_def)
next
  case (snoc ys y)
  then have "foldl (send h) (new_drainer s) es =
      \<lparr>dr_state = foldl h s ys, dr_inflight = Some y\<rparr>"
    using foldl_send [of es h s] by simp
  with snoc show ?thesis by (simp add: read_handler_def)
qed

section \<open>Interleavings of engine and drainer\<close>

text \<open>
  The same channel as a step relation on the events still to send, the event in hand and the
  handler's state: the engine hands an event over, or the goroutine handles the one it has. Every
  interleaving is allowed.
\<close>

type_synonym 's channel = "engine_event list \<times> engine_event option \<times> 's"

inductive channel_step :: "('s \<Rightarrow> engine_event \<Rightarrow> 's) \<Rightarrow> 's channel \<Rightarrow> 's channel \<Rightarrow> bool"
  for h where
  hand_over: "channel_step h (e # es, None, s) (es, Some e, s)"
| handle: "channel_step h (es, Some e, s) (es, None, h s e)"

inductive channel_run :: "('s \<Rightarrow> engine_event \<Rightarrow> 's) \<Rightarrow> 's channel \<Rightarrow> 's channel \<Rightarrow> bool"
  for h where
  start: "channel_run h c c"
| step: "channel_run h c c' \<Longrightarrow> channel_step h c' c'' \<Longrightarrow> channel_run h c c''"

inductive_cases channel_stepE: "channel_step h c c'"

text \<open>The invariant of a run: what was sent is what is handled, then what is in hand.\<close>

definition channel_inv :: "('s \<Rightarrow> engine_event \<Rightarrow> 's) \<Rightarrow> engine_event list \<Rightarrow> 's \<Rightarrow> 's channel \<Rightarrow> bool" where
  "channel_inv h es s c =
     (case c of (todo, inflight, t) \<Rightarrow>
        \<exists>done. es = done @ (case inflight of None \<Rightarrow> [] | Some e \<Rightarrow> [e]) @ todo \<and> t = foldl h s done)"

lemma channel_step_inv:
  assumes "channel_step h c c'" and "channel_inv h es s c"
  shows "channel_inv h es s c'"
  using assms
proof (cases rule: channel_step.cases)
  case (handle rest e t)
  with assms(2) obtain d where "es = d @ [e] @ rest" "t = foldl h s d"
    by (auto simp: channel_inv_def)
  with handle show ?thesis
    by (auto simp: channel_inv_def intro!: exI [of _ "d @ [e]"])
qed (auto simp: channel_inv_def)

lemma channel_run_inv: "channel_run h c c' \<Longrightarrow> channel_inv h es s c \<Longrightarrow> channel_inv h es s c'"
  by (induction rule: channel_run.induct) (auto intro: channel_step_inv)

text \<open>
  C23. What the handler has seen when an engine operation returns, for every interleaving of the
  engine and the draining goroutine: all the events of the operation in order, or all but the last,
  which the goroutine has received and not handled; and both outcomes occur. Nothing else is possible:
  no event is lost, duplicated or reordered.
\<close>

theorem events_handled_at_return:
  "(\<exists>inflight. channel_run h (es, None, s) ([], inflight, t)) \<longleftrightarrow>
     (\<exists>drained. t = read_handler h drained (foldl (send h) (new_drainer s) es))"
proof
  assume "\<exists>inflight. channel_run h (es, None, s) ([], inflight, t)"
  then obtain i where "channel_run h (es, None, s) ([], i, t)" ..
  from channel_run_inv [OF this, of es s] obtain d
    where "es = d @ (case i of None \<Rightarrow> [] | Some e \<Rightarrow> [e])" "t = foldl h s d"
    by (auto simp: channel_inv_def)
  then have "t = (if i = None then foldl h s es else foldl h s (butlast es))"
    by (cases i) auto
  then show "\<exists>drained. t = read_handler h drained (foldl (send h) (new_drainer s) es)"
    by (intro exI [of _ "i = None"]) (simp add: read_handler_cases)
next
  have sent: "channel_run h (ds @ e # rest, None, s) (rest, Some e, foldl h s ds)" for ds e rest
  proof (induction ds arbitrary: e rest rule: rev_induct)
    case Nil
    show ?case by (auto intro: channel_run.intros channel_step.intros)
  next
    case (snoc x ds)
    have "channel_run h (ds @ x # e # rest, None, s) (e # rest, Some x, foldl h s ds)" by (rule snoc)
    then have "channel_run h (ds @ x # e # rest, None, s) (e # rest, None, h (foldl h s ds) x)"
      by (rule channel_run.step) (rule channel_step.handle)
    then show ?case
      using channel_run.step [OF _ channel_step.hand_over] by simp
  qed
  assume "\<exists>drained. t = read_handler h drained (foldl (send h) (new_drainer s) es)"
  then obtain drained where t: "t = (if drained then foldl h s es else foldl h s (butlast es))"
    by (auto simp: read_handler_cases)
  show "\<exists>inflight. channel_run h (es, None, s) ([], inflight, t)"
  proof (cases es rule: rev_cases)
    case Nil
    with t show ?thesis by (auto intro: channel_run.start)
  next
    case (snoc ds e)
    have "channel_run h (es, None, s) ([], Some e, foldl h s ds)" using sent [of ds e "[]"] snoc by simp
    moreover from this have "channel_run h (es, None, s) ([], None, h (foldl h s ds) e)"
      by (rule channel_run.step) (rule channel_step.handle)
    ultimately show ?thesis using t snoc by (cases drained) auto
  qed
qed

section \<open>The contract of an event handler\<close>

text \<open>
  A handler that keeps part of its state (\<open>tag\<close>) under every event keeps it through every
  interleaving; the reconciler relies on it for the planning flag.
\<close>

locale event_handler =
  fixes h :: "'s \<Rightarrow> engine_event \<Rightarrow> 's" and tag :: "'s \<Rightarrow> 'a"
  assumes tag_stable: "tag (h s e) = tag s"
begin

lemma tag_fold: "tag (foldl h s es) = tag s"
  by (induction es arbitrary: s) (simp_all add: tag_stable)

lemma tag_handle_inflight [simp]: "tag (dr_state (handle_inflight h d)) = tag (dr_state d)"
  by (simp add: handle_inflight_def tag_stable split: option.split)

lemma tag_send [simp]: "tag (dr_state (send h d e)) = tag (dr_state d)"
  by simp

lemma tag_read: "tag (read_handler h b d) = tag (dr_state d)"
  by (simp add: read_handler_def)

end

lemma EngineEvent_Planning [simp]: "chg_Planning (EngineEvent hc b e) = chg_Planning b"
  by (cases e) (auto split: option.splits)

interpretation stack_changes: event_handler "EngineEvent hc" chg_Planning for hc
  by unfold_locales simp

section \<open>What the accumulated changes say\<close>

definition stack_outputs_of :: "engine_event \<Rightarrow> property_map option" where
  "stack_outputs_of e =
     (case e of ResourceOutputsEvent type new \<Rightarrow> if type = pulumiStackType then new else None
      | _ \<Rightarrow> None)"

definition summary_of :: "engine_event \<Rightarrow> resource_changes option" where
  "summary_of e = (case e of SummaryEvent c \<Rightarrow> Some c | _ \<Rightarrow> None)"

definition last_some :: "('a \<Rightarrow> 'b option) \<Rightarrow> 'a list \<Rightarrow> 'b option" where
  "last_some f xs = foldl (\<lambda>acc x. case f x of None \<Rightarrow> acc | Some y \<Rightarrow> Some y) None xs"

lemma last_some_snoc: "last_some f (xs @ [x]) = (case f x of None \<Rightarrow> last_some f xs | Some y \<Rightarrow> Some y)"
  unfolding last_some_def by (subst foldl_append) (simp split: option.split)

lemma last_some_Nil [simp]: "last_some f [] = None"
  by (simp add: last_some_def)

lemma StackChanges_fold:
  "foldl (EngineEvent hc) (NewStackChanges dryRun) es =
     \<lparr>chg_Planning = dryRun,
      chg_HasResourceChanges = (case last_some summary_of es of None \<Rightarrow> False | Some c \<Rightarrow> hc c),
      chg_Outputs = (case last_some stack_outputs_of es of None \<Rightarrow> Map.empty | Some m \<Rightarrow> m)\<rparr>"
proof (induction es rule: rev_induct)
  case Nil
  then show ?case by (simp add: NewStackChanges_def)
next
  case (snoc e es)
  then show ?case
    by (cases e) (simp_all add: last_some_snoc summary_of_def stack_outputs_of_def split: option.split)
qed

text \<open>
  What \<^verbatim>\<open>StackChanges\<close> holds after it has been given a list of events: the outputs of the last
  event of the stack resource that carries a new state (none, if there is no such event), whether the
  last summary has changes (no, without a summary), and the planning flag it was made with. Events of
  other resources and of other types leave it unchanged.
\<close>

theorem StackChanges_after_events:
  "foldl (EngineEvent hc) (NewStackChanges dryRun) es =
     \<lparr>chg_Planning = dryRun,
      chg_HasResourceChanges = (case last_some summary_of es of None \<Rightarrow> False | Some c \<Rightarrow> hc c),
      chg_Outputs = (case last_some stack_outputs_of es of None \<Rightarrow> Map.empty | Some m \<Rightarrow> m)\<rparr>"
  by (rule StackChanges_fold)

end
