(* ===== verification/Engine.thy ===== *)
theory Engine
  imports Host Status
begin

text \<open>
  Engine operations as the repository sees them. The Pulumi engine is outside the repository: an
  operation of it is a parameter, a program that makes calls on the repository's code (save a
  snapshot, send an event, call the plugin host, read another stack's outputs), goes on with the
  replies, and ends with a result or a panic. Everything else it does is not visible to the code
  modelled here.
\<close>

section \<open>Programs that make calls\<close>

datatype engine_call =
    SaveSnapshot "snapshot option"
  | EmitEvent engine_event
  | CallHost host_call
  | ReadStackOutputs string
  | ReadStackResourceOutputs string

datatype engine_reply =
    Saved "go_error option"
  | Emitted
  | HostReplied host_reply
  | OutputsRead "go_error + property_map"

datatype 'r engine_prog =
    Result 'r
  | Crash string
  | Call engine_call "engine_reply \<Rightarrow> 'r engine_prog"

text \<open>
  Running a program against the code that serves its calls (\<open>step\<close>): the calls with their replies, in
  order, with the final state and the result. A panic, of the engine itself or of a call, ends the run with
  the calls that were served before it and the state it leaves.
\<close>

type_synonym call_trace = "(engine_call \<times> engine_reply) list"

type_synonym ('st, 'r) engine_run = "('st \<times> call_trace \<times> string, 'st \<times> call_trace \<times> 'r) ending"

primrec run_prog :: "('st \<Rightarrow> engine_call \<Rightarrow> ('st, 'st \<times> engine_reply) unwinding) \<Rightarrow> 'r engine_prog \<Rightarrow> 'st \<Rightarrow>
    ('st, 'r) engine_run" where
  "run_prog step (Result r) st = Returns (st, [], r)"
| "run_prog step (Crash m) st = Panics (st, [], m)"
| "run_prog step (Call c k) st =
     (case step st c of
        Panics (st', m) \<Rightarrow> Panics (st', [], m)
      | Returns (st', reply) \<Rightarrow>
          (case run_prog step (k reply) st' of
             Panics (st'', tr, m) \<Rightarrow> Panics (st'', (c, reply) # tr, m)
           | Returns (st'', tr, r) \<Rightarrow> Returns (st'', (c, reply) # tr, r)))"

lemma run_prog_Call:
  assumes "run_prog step (Call c k) st = Returns (st2, tr, r)"
  obtains st1 reply tr' where "step st c = Returns (st1, reply)"
    "run_prog step (k reply) st1 = Returns (st2, tr', r)" "tr = (c, reply) # tr'"
  using assms by (auto split: ending.splits prod.splits)

text \<open>
  The calls of a trace, seen as a run of the code alone: the client's properties are proved over
  these runs, whatever program made the calls.
\<close>

fun serves :: "('st \<Rightarrow> engine_call \<Rightarrow> ('st, 'st \<times> engine_reply) unwinding) \<Rightarrow> 'st \<Rightarrow> call_trace \<Rightarrow> 'st \<Rightarrow> bool" where
  "serves step st [] st' \<longleftrightarrow> st' = st"
| "serves step st ((c, reply) # tr) st' \<longleftrightarrow>
     (\<exists>st1. step st c = Returns (st1, reply) \<and> serves step st1 tr st')"

lemma run_prog_serves: "run_prog step p st = Returns (st', tr, r) \<Longrightarrow> serves step st tr st'"
proof (induction p arbitrary: st tr)
  case (Call c k)
  from run_prog_Call [OF Call.prems] obtain st1 reply tr'
    where "step st c = Returns (st1, reply)" "run_prog step (k reply) st1 = Returns (st', tr', r)"
      "tr = (c, reply) # tr'" .
  moreover from this have "serves step st1 tr' st'" using Call.IH [OF rangeI] by blast
  ultimately show ?case by auto
qed simp_all

text \<open>
  The state and the trace a run leaves, whether it returned or panicked. A run served its calls; the
  next call may then have panicked.
\<close>

fun leaves :: "('st, 'r) engine_run \<Rightarrow> 'st \<Rightarrow> call_trace \<Rightarrow> bool" where
  "leaves (Returns (st, tr, r)) st' tr' \<longleftrightarrow> st' = st \<and> tr' = tr"
| "leaves (Panics (st, tr, m)) st' tr' \<longleftrightarrow> st' = st \<and> tr' = tr"

lemma leaves_Returns: "e = Returns (st, tr, r) \<Longrightarrow> leaves e st tr"
  and leaves_Panics: "e = Panics (st, tr, m) \<Longrightarrow> leaves e st tr"
  by simp_all

lemma leaves_cases:
  assumes "leaves e st tr"
  obtains (returned) r where "e = Returns (st, tr, r)" | (panicked) m where "e = Panics (st, tr, m)"
  using assms by (cases "(e, st, tr)" rule: leaves.cases) auto

definition ends_at :: "('st \<Rightarrow> engine_call \<Rightarrow> ('st, 'st \<times> engine_reply) unwinding) \<Rightarrow> 'st \<Rightarrow> call_trace \<Rightarrow> 'st \<Rightarrow> bool" where
  "ends_at step st tr st' \<longleftrightarrow>
     (\<exists>st1. serves step st tr st1 \<and> (st' = st1 \<or> (\<exists>c m. step st1 c = Panics (st', m))))"

lemma ends_Cons: "step st c = Returns (st1, reply) \<Longrightarrow> ends_at step st1 tr st' \<Longrightarrow> ends_at step st ((c, reply) # tr) st'"
  by (auto simp: ends_at_def)

lemma run_prog_ends: "run_prog step p st = Panics (st', tr, m) \<Longrightarrow> ends_at step st tr st'"
proof (induction p arbitrary: st tr)
  case (Call c k)
  show ?case
  proof (cases "step st c")
    case (Panics x)
    with Call.prems show ?thesis by (auto simp: ends_at_def split: prod.splits)
  next
    case (Returns x)
    with Call.prems obtain st1 reply tr' where "step st c = Returns (st1, reply)"
      "run_prog step (k reply) st1 = Panics (st', tr', m)" "tr = (c, reply) # tr'"
      by (auto split: ending.splits prod.splits)
    then show ?thesis using Call.IH [OF rangeI] ends_Cons by metis
  qed
qed (auto simp: ends_at_def)

lemma serves_ends: "serves step st tr st' \<Longrightarrow> ends_at step st tr st'"
  by (auto simp: ends_at_def)

lemma serves_append: "serves step st (tr @ tr') st2 \<longleftrightarrow> (\<exists>st1. serves step st tr st1 \<and> serves step st1 tr' st2)"
  by (induction step st tr st2 rule: serves.induct) auto

lemma ends_append: "serves step st tr st1 \<Longrightarrow> ends_at step st1 tr' st2 \<Longrightarrow> ends_at step st (tr @ tr') st2"
  by (auto simp: ends_at_def serves_append)

section \<open>The contract between an engine operation and the code that serves it\<close>

text \<open>
  A relation between the states before and after each call that is reflexive and transitive holds
  across a whole operation, one that panics included. The trace may be part of it: \<open>F\<close> accumulates what
  the calls did.
\<close>

locale engine_client =
  fixes step :: "'st \<Rightarrow> engine_call \<Rightarrow> ('st, 'st \<times> engine_reply) unwinding"
    and F :: "'a \<Rightarrow> engine_call \<times> engine_reply \<Rightarrow> 'a"
    and I :: "'a \<Rightarrow> 'st \<Rightarrow> bool"
  assumes step_keeps: "I a st \<Longrightarrow> step st c = Returns (st', reply) \<Longrightarrow> I (F a (c, reply)) st'"
    and panic_keeps: "I a st \<Longrightarrow> step st c = Panics (st', m) \<Longrightarrow> I a st'"
begin

lemma serves_keeps: "serves step st tr st' \<Longrightarrow> I a st \<Longrightarrow> I (foldl F a tr) st'"
proof (induction tr arbitrary: st a)
  case (Cons cr tr)
  obtain c reply where cr: "cr = (c, reply)" by (cases cr)
  with Cons.prems obtain st1 where "step st c = Returns (st1, reply)" "serves step st1 tr st'" by auto
  with cr Cons show ?case by (auto dest: step_keeps)
qed simp

lemma ends_keeps: "ends_at step st tr st' \<Longrightarrow> I a st \<Longrightarrow> I (foldl F a tr) st'"
  by (auto simp: ends_at_def dest: serves_keeps panic_keeps)

end

text \<open>What a trace says about the saves, the last attempt and the last success, and about the events.\<close>

fun saved_snapshot :: "snapshot option \<Rightarrow> engine_call \<times> engine_reply \<Rightarrow> snapshot option" where
  "saved_snapshot sn (SaveSnapshot sn', Saved None) = sn'"
| "saved_snapshot sn _ = sn"

definition last_saved :: "snapshot option \<Rightarrow> call_trace \<Rightarrow> snapshot option" where
  "last_saved sn tr = foldl saved_snapshot sn tr"

fun save_result :: "engine_call \<times> engine_reply \<Rightarrow> (snapshot option \<times> go_error option) option" where
  "save_result (SaveSnapshot sn, Saved e) = Some (sn, e)"
| "save_result _ = None"

definition save_attempts :: "call_trace \<Rightarrow> (snapshot option \<times> go_error option) list" where
  "save_attempts tr = List.map_filter save_result tr"

fun sent_event :: "engine_call \<times> engine_reply \<Rightarrow> engine_event option" where
  "sent_event (EmitEvent e, r) = Some e"
| "sent_event _ = None"

definition events_of :: "call_trace \<Rightarrow> engine_event list" where
  "events_of tr = List.map_filter sent_event tr"

lemma save_attempts_simps [simp]:
  "save_attempts [] = []"
  "save_attempts (cr # tr) = (case save_result cr of None \<Rightarrow> save_attempts tr | Some a \<Rightarrow> a # save_attempts tr)"
  "save_attempts (tr @ tr') = save_attempts tr @ save_attempts tr'"
  by (simp_all add: save_attempts_def map_filter_def split: option.split)

lemma events_of_simps [simp]:
  "events_of [] = []"
  "events_of (cr # tr) = (case sent_event cr of None \<Rightarrow> events_of tr | Some e \<Rightarrow> e # events_of tr)"
  "events_of (tr @ tr') = events_of tr @ events_of tr'"
  by (simp_all add: events_of_def map_filter_def split: option.split)

lemma last_saved_simps [simp]:
  "last_saved sn [] = sn"
  "last_saved sn (cr # tr) = last_saved (saved_snapshot sn cr) tr"
  "last_saved sn (tr @ tr') = last_saved (last_saved sn tr) tr'"
  by (simp_all add: last_saved_def)

lemma saved_snapshot_result:
  "saved_snapshot sn cr = (case save_result cr of Some (sn', None) \<Rightarrow> sn' | _ \<Rightarrow> sn)"
proof (cases cr)
  case (Pair c r)
  then show ?thesis by (cases c; cases r) (auto split: option.split)
qed

lemma last_saved_last:
  "save_attempts tr \<noteq> [] \<Longrightarrow> last (save_attempts tr) = (sn', None) \<Longrightarrow> last_saved sn tr = sn'"
proof (induction tr rule: rev_induct)
  case (snoc cr tr)
  then show ?case by (cases "save_result cr") (simp_all add: saved_snapshot_result)
qed simp

end
