(* ===== verification/HostWorld.thy ===== *)
theory HostWorld
  imports Host
begin

text \<open>
  What the plugin host does to the world beyond its own state: only what the methods of plugins, the
  loaders and the sinks do. A part of the world that none of them touches is untouched by every call on
  the host.
\<close>

text \<open>
  \<open>plugins_keep R po\<close>: no method of a plugin and no sink changes the world but along \<open>R\<close>;
  \<open>loaders_keep R h\<close>: nor does a loader of the host.
\<close>

definition plugins_keep :: "('w \<Rightarrow> 'w \<Rightarrow> bool) \<Rightarrow> 'w plugin_ops \<Rightarrow> bool" where
  "plugins_keep R po \<longleftrightarrow>
     (\<forall>w p. R w (fst (po_ProviderInfo po w p)) \<and> R w (fst (po_ProviderClose po w p)) \<and>
        R w (fst (po_ProviderCancel po w p)) \<and> R w (fst (po_RuntimeInfo po w p))) \<and>
     (\<forall>w sev urn msg i. R w (po_Sink po w sev urn msg i) \<and> R w (po_StatusSink po w sev urn msg i))"

definition loaders_keep :: "('w \<Rightarrow> 'w \<Rightarrow> bool) \<Rightarrow> 'w host \<Rightarrow> bool" where
  "loaders_keep R h \<longleftrightarrow>
     (\<forall>w pkg v. R w (fst (h_providerLoader h w pkg v))) \<and>
     (\<forall>w n. R w (fst (h_languageRuntimeLoader h w n)))"

lemma loaders_keep_extends: "host_extends h h' \<Longrightarrow> loaders_keep R h' = loaders_keep R h"
  by (simp add: host_extends_def loaders_keep_def)

lemma plugins_keepD:
  assumes "plugins_keep R po"
  shows "po_ProviderInfo po w p = (w', i) \<Longrightarrow> R w w'" and "po_ProviderClose po w p = (w', e) \<Longrightarrow> R w w'"
    and "po_ProviderCancel po w p = (w', e) \<Longrightarrow> R w w'" and "po_RuntimeInfo po w p = (w', i) \<Longrightarrow> R w w'"
    and "R w (po_Sink po w sev urn msg n)" and "R w (po_StatusSink po w sev urn msg n)"
  using assms unfolding plugins_keep_def by (metis fst_conv, metis fst_conv, metis fst_conv, metis fst_conv, blast+)

lemma provider_loader_keeps: "loaders_keep R h \<Longrightarrow> h_providerLoader h w pkg v = (w', r) \<Longrightarrow> R w w'"
  unfolding loaders_keep_def by (metis fst_conv)

lemma runtime_loader_keeps: "loaders_keep R h \<Longrightarrow> h_languageRuntimeLoader h w n = (w', r) \<Longrightarrow> R w w'"
  unfolding loaders_keep_def by (metis fst_conv)

lemma Provider_world:
  assumes "reflp R" "transp R" "plugins_keep R po" "loaders_keep R h"
    and "Provider po (w, h) pkg v = ((w', h'), r)"
  shows "R w w'"
proof -
  obtain w1 plug err where load: "h_providerLoader h w pkg v = (w1, plug, err)"
    by (cases "h_providerLoader h w pkg v") auto
  from provider_loader_keeps [OF assms(4) this] have R1: "R w w1" .
  show ?thesis
  proof (cases "plug = None \<or> err \<noteq> None")
    case True
    with assms(5) load R1 show ?thesis by (auto simp: Provider_def split: option.splits)
  next
    case False
    then obtain p where "plug = Some p" "err = None" by auto
    moreover obtain w2 i where info: "po_ProviderInfo po w1 p = (w2, i)" by (cases "po_ProviderInfo po w1 p")
    ultimately have "w' = w2" using assms(5) load by (auto simp: Provider_def split: sum.splits)
    with info R1 show ?thesis using assms(2,3) by (auto dest: plugins_keepD transpD)
  qed
qed

lemma LanguageRuntime_world:
  assumes "reflp R" "transp R" "plugins_keep R po" "loaders_keep R h"
    and "LanguageRuntime po (w, h) n = ((w', h'), r)"
  shows "R w w'"
proof (cases "h_languagePlugins h n")
  case (Some plug)
  with assms(1,5) show ?thesis by (auto simp: LanguageRuntime_def reflpD)
next
  case None
  obtain w1 plug err where load: "h_languageRuntimeLoader h w n = (w1, plug, err)"
    by (cases "h_languageRuntimeLoader h w n") auto
  from runtime_loader_keeps [OF assms(4) this] have R1: "R w w1" .
  show ?thesis
  proof (cases "plug = None \<or> err \<noteq> None")
    case True
    with assms(5) load R1 None show ?thesis by (auto simp: LanguageRuntime_def split: option.splits)
  next
    case False
    then obtain p where "plug = Some p" "err = None" by auto
    moreover obtain w2 i where info: "po_RuntimeInfo po w1 p = (w2, i)" by (cases "po_RuntimeInfo po w1 p")
    ultimately have "w' = w2" using assms(5) load None by (auto simp: LanguageRuntime_def split: sum.splits)
    with info R1 show ?thesis using assms(2,3) by (auto dest: plugins_keepD transpD)
  qed
qed

lemma ensure_plugin_world:
  assumes "reflp R" "transp R" "plugins_keep R po" "loaders_keep R h"
    and "ensure_plugin po kinds (w, h) p = Returns ((w', h'), errs)"
  shows "R w w'"
  using assms(5) assms(1)
  by (auto simp: ensure_plugin_def reflpD split: plugin_kind.splits if_splits prod.splits option.splits
      dest: Provider_world [OF assms(1-4)] LanguageRuntime_world [OF assms(1-4)])

lemma ensure_loop_world:
  assumes "reflp R" "transp R" "plugins_keep R po"
  shows "loaders_keep R h \<Longrightarrow> ensure_loop po kinds (w, h) result ps = Returns ((w', h'), errs) \<Longrightarrow> R w w'"
proof (induction ps arbitrary: w h result)
  case Nil
  then show ?case using assms(1) by (simp add: reflpD)
next
  case (Cons p ps)
  then obtain w1 h1 errs1 where 1: "ensure_plugin po kinds (w, h) p = Returns ((w1, h1), errs1)"
    and 2: "ensure_loop po kinds (w1, h1) (result @ errs1) ps = Returns ((w', h'), errs)"
    by (auto simp: and_then_Returns)
  have "loaders_keep R h1"
    using extends.P_ensure_plugin [OF 1] Cons.prems(1) by (simp add: loaders_keep_extends)
  with 2 have "R w1 w'" by (rule Cons.IH [rotated])
  moreover have "R w w1" by (rule ensure_plugin_world [OF assms Cons.prems(1) 1])
  ultimately show ?case using assms(2) by (auto dest: transpD)
qed

lemma ensure_panic_world:
  assumes "reflp R" "transp R" "plugins_keep R po"
  shows "loaders_keep R h \<Longrightarrow> ensure_loop po kinds (w, h) result ps = Panics ((w', h'), m) \<Longrightarrow> R w w'"
proof (induction ps arbitrary: w h result)
  case (Cons p ps)
  from Cons.prems(2) consider "ensure_plugin po kinds (w, h) p = Panics ((w', h'), m)"
    | w1 h1 errs1 where "ensure_plugin po kinds (w, h) p = Returns ((w1, h1), errs1)"
        "ensure_loop po kinds (w1, h1) (result @ errs1) ps = Panics ((w', h'), m)"
    by (auto simp: and_then_Panics)
  then show ?case
  proof cases
    case 1
    then show ?thesis
      using assms(1)
      by (auto simp: ensure_plugin_def reflpD split: plugin_kind.splits if_splits prod.splits option.splits)
  next
    case 2
    have "loaders_keep R h1"
      using extends.P_ensure_plugin [OF 2(1)] Cons.prems(1) by (simp add: loaders_keep_extends)
    with 2(2) have "R w1 w'" by (rule Cons.IH [rotated])
    moreover have "R w w1" by (rule ensure_plugin_world [OF assms Cons.prems(1) 2(1)])
    ultimately show ?thesis using assms(2) by (auto dest: transpD)
  qed
qed simp

lemma cancel_loop_world:
  assumes "reflp R" "transp R" "plugins_keep R po"
  shows "cancel_loop po h w result ps = (w', errs) \<Longrightarrow> R w w'"
proof (induction ps arbitrary: w result)
  case Nil
  then show ?case using assms(1) by (simp add: reflpD)
next
  case (Cons p ps)
  then show ?case
    using assms(2) plugins_keepD(3) [OF assms(3)]
    by (fastforce split: option.splits prod.splits dest: transpD)
qed

lemma server_Log_world:
  assumes "reflp R" "plugins_keep R po" "server_Log (host_Log po) (host_LogStatus po) w req = (w', e)"
  shows "R w w'"
  using assms(3) reflpD [OF assms(1)] plugins_keepD(5,6) [OF assms(2)]
  by (auto simp: server_Log_def host_Log_def host_LogStatus_def split: sum.splits if_splits)

lemma wrapped_host_step_world:
  assumes "reflp R" "transp R" "plugins_keep R po" "loaders_keep R h"
    and "wrapped_host_step po (w, h) c = Returns ((w', h'), r)"
  shows "R w w'"
  using assms(5) reflpD [OF assms(1)] plugins_keepD(5,6) [OF assms(3)]
  by (cases c)
    (auto simp: EnsurePlugins_def SignalCancellation_def CloseProvider_def host_Log_def host_LogStatus_def
      and_then_Returns split: prod.splits option.splits
      dest: Provider_world [OF assms(1-4)] LanguageRuntime_world [OF assms(1-4)]
        ensure_loop_world [OF assms(1-4)] cancel_loop_world [OF assms(1-3)]
        server_Log_world [OF assms(1,3)] plugins_keepD(2) [OF assms(3)])

lemma wrapped_host_panic_world:
  assumes "reflp R" "transp R" "plugins_keep R po" "loaders_keep R h"
    and "wrapped_host_step po (w, h) c = Panics ((w', h'), m)"
  shows "R w w'"
  using assms(5)
  by (cases c)
    (auto simp: EnsurePlugins_def and_then_Panics split: prod.splits dest: ensure_panic_world [OF assms(1-4)])

end
