(* ===== verification/Stack.thy ===== *)
theory Stack
  imports Snapshot Engine HostWorld
begin

text \<open>
  The backend and its stacks (pkg/backend/backend.go, pkg/backend/stack.go). A stack keeps the last
  snapshot and its handle in memory; an operation hands the engine a target made from them, serves the
  engine's calls, and keeps what the engine saves as the basis of the next operation.
\<close>

section \<open>The backend\<close>

text \<open>The interface \<^verbatim>\<open>secrets.Manager\<close>: its decrypter, or the failure to obtain one.\<close>

record secrets_manager =
  sm_Decrypter :: "go_error + nat"

record ('w, 'h) defaultBackend =
  db_snapshotter :: "('w, 'h) snapshotStorage"
  db_secretsManager :: secrets_manager
  db_project :: project

definition NewDefaultBackend :: "('w, 'h) snapshotStorage \<Rightarrow> secrets_manager \<Rightarrow> project \<Rightarrow>
    ('w, 'h) defaultBackend" where
  "NewDefaultBackend snapshotter secretsManager proj =
     \<lparr>db_snapshotter = snapshotter, db_secretsManager = secretsManager, db_project = proj\<rparr>"

section \<open>Stacks, targets and updates\<close>

text \<open>
  \<^verbatim>\<open>plugin.Context\<close> of the SDK, by the host it holds. The object of a stack is a pointer into the
  reconciler's memory, so it is an argument of the operations that read it.
\<close>

record 'w plugin_context =
  pc_Host :: "'w host"

record ('w, 'h) kubeStack =
  ks_b :: "('w, 'h) defaultBackend"
  ks_ctx :: "'w plugin_context"
  ks_project :: project
  ks_ref :: objectReference
  ks_snap :: "snapshot option"
  ks_snapHandle :: "'h option"

definition newStack :: "('w, 'h) defaultBackend \<Rightarrow> 'w plugin_context \<Rightarrow> project \<Rightarrow> objectReference \<Rightarrow>
    snapshot option \<Rightarrow> 'h option \<Rightarrow> ('w, 'h) kubeStack" where
  "newStack b pluginContext proj ref snap snapHandle =
     \<lparr>ks_b = b, ks_ctx = pluginContext, ks_project = proj, ks_ref = ref, ks_snap = snap,
      ks_snapHandle = snapHandle\<rparr>"

definition LoadStack :: "('w, 'h) defaultBackend \<Rightarrow> 'w \<Rightarrow> 'w plugin_context \<Rightarrow> project \<Rightarrow> object_meta \<Rightarrow>
    go_error + ('w, 'h) kubeStack" where
  "LoadStack b w pluginContext proj obj =
     (let ref = newStackReferenceForObject obj in
      case ss_GetSnapshot (db_snapshotter b) w obj of
        Inl e \<Rightarrow> Inl e
      | Inr (snap, handle) \<Rightarrow> Inr (newStack b pluginContext proj ref snap handle))"

text \<open>\<^verbatim>\<open>deploy.Target\<close> and the struct \<^verbatim>\<open>update\<close>, whose stack and channel are part of the operation's state.\<close>

record target =
  tg_Name :: string
  tg_Config :: config_map
  tg_Decrypter :: nat
  tg_Snapshot :: "snapshot option"

record stack_update =
  upd_Proj :: project
  upd_Target :: target

definition GetRoot :: "stack_update \<Rightarrow> string" where
  "GetRoot u = []"

definition GetProject :: "stack_update \<Rightarrow> project" where
  "GetProject u = upd_Proj u"

definition GetTarget :: "stack_update \<Rightarrow> target" where
  "GetTarget u = upd_Target u"

definition SecretsManager :: "('w, 'h) kubeStack \<Rightarrow> secrets_manager" where
  "SecretsManager s = db_secretsManager (ks_b s)"

definition getTarget :: "qname_ops \<Rightarrow> ('w, 'h) kubeStack \<Rightarrow> config_map option \<Rightarrow> go_error + target" where
  "getTarget Q s cfg =
     (case sm_Decrypter (db_secretsManager (ks_b s)) of
        Inl e \<Rightarrow> Inl (Wrapped ''unable to obtain a decryptor'' e)
      | Inr dec \<Rightarrow>
          Inr \<lparr>tg_Name = objectReference_Name Q (ks_ref s),
               tg_Config = (case cfg of None \<Rightarrow> Map.empty | Some c \<Rightarrow> c),
               tg_Decrypter = dec, tg_Snapshot = ks_snap s\<rparr>)"

text \<open>
  \<^verbatim>\<open>Save\<close>, the engine's way to persist a snapshot. The handle the stack holds is a pointer: what the
  storage writes through it is seen by the stack even when the save fails.
\<close>

definition Save :: "'w \<Rightarrow> ('w, 'h) kubeStack \<Rightarrow> object_meta \<Rightarrow> snapshot option \<Rightarrow>
    'w \<times> ('w, 'h) kubeStack \<times> go_error option" where
  "Save w s obj snap =
     (case ss_SetSnapshot (db_snapshotter (ks_b s)) w obj snap (ks_snapHandle s) of
        (w', prior, Inl err) \<Rightarrow> (w', s\<lparr>ks_snapHandle := prior\<rparr>, Some err)
      | (w', prior, Inr handle) \<Rightarrow> (w', s\<lparr>ks_snap := snap, ks_snapHandle := Some handle\<rparr>, None))"

section \<open>Serving an engine operation\<close>

text \<open>
  The state an operation acts on: the world, the stack (with its plugin host) and the event channel
  with its draining goroutine, whose handler keeps a state \<open>'s\<close>.
\<close>

record ('w, 'h, 's) op_state =
  os_world :: 'w
  os_stack :: "('w, 'h) kubeStack"
  os_events :: "'s drainer"

definition os_host :: "('w, 'h, 's) op_state \<Rightarrow> 'w host" where
  "os_host st = pc_Host (ks_ctx (os_stack st))"

definition set_host :: "('w, 'h) kubeStack \<Rightarrow> 'w host \<Rightarrow> ('w, 'h) kubeStack" where
  "set_host s h = s\<lparr>ks_ctx := (ks_ctx s)\<lparr>pc_Host := h\<rparr>\<rparr>"

text \<open>
  The calls of the engine: the persister is the update, the channel is the update's, the host is the
  stack's host behind the wrapper, the backend client is the backend's storage.
\<close>

fun serve_call :: "'w plugin_ops \<Rightarrow> ('s \<Rightarrow> engine_event \<Rightarrow> 's) option \<Rightarrow> object_meta \<Rightarrow>
    ('w, 'h, 's) op_state \<Rightarrow> engine_call \<Rightarrow> (('w, 'h, 's) op_state, ('w, 'h, 's) op_state \<times> engine_reply) unwinding" where
  "serve_call po h obj st (SaveSnapshot snap) =
     (case Save (os_world st) (os_stack st) obj snap of
        (w', s', err) \<Rightarrow> Returns (st\<lparr>os_world := w', os_stack := s'\<rparr>, Saved err))"
| "serve_call po h obj st (EmitEvent e) =
     Returns (st\<lparr>os_events := send (handler_or_nil h) (os_events st) e\<rparr>, Emitted)"
| "serve_call po h obj st (CallHost c) =
     (case wrapped_host_step po (os_world st, os_host st) c of
        Panics ((w', host'), m) \<Rightarrow> Panics (st\<lparr>os_world := w', os_stack := set_host (os_stack st) host'\<rparr>, m)
      | Returns ((w', host'), r) \<Rightarrow>
          Returns (st\<lparr>os_world := w', os_stack := set_host (os_stack st) host'\<rparr>, HostReplied r))"
| "serve_call po h obj st (ReadStackOutputs name) =
     Returns (st, OutputsRead (ss_GetStackOutputs (db_snapshotter (ks_b (os_stack st))) (os_world st) name))"
| "serve_call po h obj st (ReadStackResourceOutputs name) =
     (case ss_GetStackResourceOutputs (db_snapshotter (ks_b (os_stack st))) (os_world st) name of
        Panics m \<Rightarrow> Panics (st, m)
      | Returns r \<Rightarrow> Returns (st, OutputsRead r))"

text \<open>
  The engine as \<^verbatim>\<open>runEngineAction\<close> uses it. An operation gets the update, the snapshot its snapshot
  manager starts from and the dry-run flag; it gives the changes and the result with the closing of its
  snapshot manager, a program too, since closing may save once more. \<open>el_ContextClose\<close> is
  \<^verbatim>\<open>plugin.Context.Close\<close>, \<open>el_HasChanges\<close> is \<^verbatim>\<open>ResourceChanges.HasChanges\<close>. When the operation panics the
  snapshot manager is not closed, for its closing is not deferred.
\<close>

type_synonym engine_result = "resource_changes \<times> op_result option"

type_synonym engine_op = "stack_update \<Rightarrow> snapshot option \<Rightarrow> bool \<Rightarrow>
  (engine_result \<times> go_error option engine_prog) engine_prog"

record 'w engine_lib =
  el_Refresh :: engine_op
  el_Update :: engine_op
  el_Destroy :: engine_op
  el_HasChanges :: "resource_changes \<Rightarrow> bool"
  el_QName :: qname_ops
  el_ContextClose :: "'w \<times> 'w plugin_context \<Rightarrow> ('w \<times> 'w plugin_context) \<times> go_error option"

definition runEngineAction :: "'w plugin_ops \<Rightarrow> ('s \<Rightarrow> engine_event \<Rightarrow> 's) option \<Rightarrow> object_meta \<Rightarrow>
    ('w, 'h, 's) op_state \<Rightarrow> stack_update \<Rightarrow> engine_op \<Rightarrow> bool \<Rightarrow>
    (('w, 'h, 's) op_state, engine_result) engine_run" where
  "runEngineAction po h obj st upd eop dryRun =
     (case run_prog (serve_call po h obj) (eop upd (tg_Snapshot (GetTarget upd)) dryRun) st of
        Panics (st1, tr1, m) \<Rightarrow> Panics (st1, tr1, m)
      | Returns (st1, tr1, result, closing) \<Rightarrow>
          (case run_prog (serve_call po h obj) closing st1 of
             Panics (st2, tr2, m) \<Rightarrow> Panics (st2, tr1 @ tr2, m)
           | Returns (st2, tr2, _) \<Rightarrow> Returns (st2, tr1 @ tr2, result)))"

section \<open>The operations of a stack\<close>

text \<open>
  The options of the three operations. \<^verbatim>\<open>newUpdate\<close> makes the update and starts the draining of its event
  channel; it fails when the target cannot be made, before anything has started. \<open>s0\<close> is the state the
  handler points to.
\<close>

record 's stack_opts =
  so_DryRun :: bool
  so_Config :: "config_map option"
  so_EventHandler :: "('s \<Rightarrow> engine_event \<Rightarrow> 's) option"

definition newUpdate :: "qname_ops \<Rightarrow> ('w, 'h) kubeStack \<Rightarrow> config_map option \<Rightarrow> 's \<Rightarrow>
    go_error + stack_update \<times> 's drainer" where
  "newUpdate Q s cfg s0 =
     (case getTarget Q s cfg of
        Inl e \<Rightarrow> Inl e
      | Inr t \<Rightarrow> Inr (\<lparr>upd_Proj = ks_project s, upd_Target = t\<rparr>, new_drainer s0))"

definition kube_run :: "'w plugin_ops \<Rightarrow> ('s \<Rightarrow> engine_event \<Rightarrow> 's) option \<Rightarrow> object_meta \<Rightarrow>
    ('w, 'h, 's) op_state \<Rightarrow> stack_update \<Rightarrow> engine_op \<Rightarrow> bool \<Rightarrow>
    (('w, 'h, 's) op_state, engine_result) engine_run" where
  "kube_run po h obj st upd eop dryRun = runEngineAction po h obj st upd eop dryRun"

text \<open>
  The common body of the three operations, with the trace of the engine's calls. When no update could be
  made the changes are nil, and the handler's state is what it was.
\<close>

definition stack_operation :: "'w plugin_ops \<Rightarrow> 'w engine_lib \<Rightarrow> engine_op \<Rightarrow> 'w \<Rightarrow> ('w, 'h) kubeStack \<Rightarrow>
    object_meta \<Rightarrow> 's stack_opts \<Rightarrow> 's \<Rightarrow> (('w, 'h, 's) op_state, engine_result) engine_run" where
  "stack_operation po E eop w s obj opts s0 =
     (case newUpdate (el_QName E) s (so_Config opts) s0 of
        Inl err \<Rightarrow>
          Returns (\<lparr>os_world = w, os_stack = s, os_events = new_drainer s0\<rparr>, [], (Map.empty, Some (FromError err)))
      | Inr (upd, events) \<Rightarrow>
          kube_run po (so_EventHandler opts) obj \<lparr>os_world = w, os_stack = s, os_events = events\<rparr> upd eop
            (so_DryRun opts))"

definition Refresh :: "'w plugin_ops \<Rightarrow> 'w engine_lib \<Rightarrow> 'w \<Rightarrow> ('w, 'h) kubeStack \<Rightarrow> object_meta \<Rightarrow>
    's stack_opts \<Rightarrow> 's \<Rightarrow> (('w, 'h, 's) op_state, engine_result) engine_run" where
  "Refresh po E w s obj opts s0 = stack_operation po E (el_Refresh E) w s obj opts s0"

definition Update :: "'w plugin_ops \<Rightarrow> 'w engine_lib \<Rightarrow> 'w \<Rightarrow> ('w, 'h) kubeStack \<Rightarrow> object_meta \<Rightarrow>
    's stack_opts \<Rightarrow> 's \<Rightarrow> (('w, 'h, 's) op_state, engine_result) engine_run" where
  "Update po E w s obj opts s0 = stack_operation po E (el_Update E) w s obj opts s0"

definition Destroy :: "'w plugin_ops \<Rightarrow> 'w engine_lib \<Rightarrow> 'w \<Rightarrow> ('w, 'h) kubeStack \<Rightarrow> object_meta \<Rightarrow>
    's stack_opts \<Rightarrow> 's \<Rightarrow> (('w, 'h, 's) op_state, engine_result) engine_run" where
  "Destroy po E w s obj opts s0 = stack_operation po E (el_Destroy E) w s obj opts s0"

definition stack_Close :: "'w engine_lib \<Rightarrow> 'w \<Rightarrow> ('w, 'h) kubeStack \<Rightarrow> ('w \<times> ('w, 'h) kubeStack) \<times> go_error option" where
  "stack_Close E w s =
     (case el_ContextClose E (w, ks_ctx s) of ((w', ctx'), err) \<Rightarrow> ((w', s\<lparr>ks_ctx := ctx'\<rparr>), err))"

text \<open>What an operation logs on its tracing span at its end.\<close>

definition logUpdateResult :: "(resource_changes \<Rightarrow> bool) \<Rightarrow> engine_result \<Rightarrow> log_field list" where
  "logUpdateResult hc result =
     (case result of (changes, res) \<Rightarrow>
        [LogBool ''pulumi.has_changes'' (hc changes)] @
        (case res of
           None \<Rightarrow> []
         | Some r \<Rightarrow>
             (if res_IsBail r then [LogBool ''pulumi.is_bail'' (res_IsBail r)]
              else [LogError (res_Error r)])))"

section \<open>What every operation keeps\<close>

lemma Save_cases:
  assumes "Save w s obj snap = (w', s', err)"
  obtains (failed) prior e where "err = Some e" "s' = s\<lparr>ks_snapHandle := prior\<rparr>"
      "ss_SetSnapshot (db_snapshotter (ks_b s)) w obj snap (ks_snapHandle s) = (w', prior, Inl e)"
  | (saved) prior handle where "err = None" "s' = s\<lparr>ks_snap := snap, ks_snapHandle := Some handle\<rparr>"
      "ss_SetSnapshot (db_snapshotter (ks_b s)) w obj snap (ks_snapHandle s) = (w', prior, Inr handle)"
  using assms by (auto simp: Save_def split: prod.splits sum.splits)

lemma serve_call_cases:
  assumes "serve_call po h obj st c = Returns (st', reply)"
  obtains (save) snap w' s' err where "c = SaveSnapshot snap"
      "Save (os_world st) (os_stack st) obj snap = (w', s', err)"
      "st' = st\<lparr>os_world := w', os_stack := s'\<rparr>" "reply = Saved err"
  | (event) e where "c = EmitEvent e" "reply = Emitted"
      "st' = st\<lparr>os_events := send (handler_or_nil h) (os_events st) e\<rparr>"
  | (call) hc w' host' r where "c = CallHost hc" "reply = HostReplied r"
      "wrapped_host_step po (os_world st, os_host st) hc = Returns ((w', host'), r)"
      "st' = st\<lparr>os_world := w', os_stack := set_host (os_stack st) host'\<rparr>"
  | (read) "st' = st" "\<exists>n. c = ReadStackOutputs n \<or> c = ReadStackResourceOutputs n"
  using assms by (cases c) (auto split: ending.splits prod.splits)

lemma serve_call_panic:
  assumes "serve_call po h obj st c = Panics (st', m)"
  obtains (call) hc w' host' where "c = CallHost hc"
      "wrapped_host_step po (os_world st, os_host st) hc = Panics ((w', host'), m)"
      "st' = st\<lparr>os_world := w', os_stack := set_host (os_stack st) host'\<rparr>"
  | (read) n where "st' = st" "c = ReadStackResourceOutputs n"
      "ss_GetStackResourceOutputs (db_snapshotter (ks_b (os_stack st))) (os_world st) n = Panics m"
  using assms by (cases c) (auto split: ending.splits prod.splits)

text \<open>
  The contract of an operation's client, on the code that serves it. An operation that returns either
  could not make its update, or served the engine's calls from a state with a fresh channel.
\<close>

lemma stack_operation_cases:
  assumes "stack_operation po E eop w s obj opts s0 = Returns (st, tr, result)"
  obtains (no_update) e where "sm_Decrypter (db_secretsManager (ks_b s)) = Inl e"
      "st = \<lparr>os_world = w, os_stack = s, os_events = new_drainer s0\<rparr>" "tr = []"
      "result = (Map.empty, Some (FromError (Wrapped ''unable to obtain a decryptor'' e)))"
  | (served) dec where "sm_Decrypter (db_secretsManager (ks_b s)) = Inr dec"
      "serves (serve_call po (so_EventHandler opts) obj)
         \<lparr>os_world = w, os_stack = s, os_events = new_drainer s0\<rparr> tr st"
proof (cases "sm_Decrypter (db_secretsManager (ks_b s))")
  case (Inl e)
  with assms show ?thesis by (intro no_update [of e]) (auto simp: stack_operation_def newUpdate_def getTarget_def)
next
  case (Inr dec)
  with assms obtain upd where "runEngineAction po (so_EventHandler opts) obj
      \<lparr>os_world = w, os_stack = s, os_events = new_drainer s0\<rparr> upd eop (so_DryRun opts) = Returns (st, tr, result)"
    by (auto simp: stack_operation_def newUpdate_def getTarget_def kube_run_def)
  then have "serves (serve_call po (so_EventHandler opts) obj)
      \<lparr>os_world = w, os_stack = s, os_events = new_drainer s0\<rparr> tr st"
    by (auto simp: runEngineAction_def serves_append split: ending.splits prod.splits dest!: run_prog_serves)
  with Inr show ?thesis by (rule served)
qed

lemma stack_operation_ends:
  assumes "leaves (stack_operation po E eop w s obj opts s0) st tr"
  shows "ends_at (serve_call po (so_EventHandler opts) obj)
    \<lparr>os_world = w, os_stack = s, os_events = new_drainer s0\<rparr> tr st"
  using assms
proof (cases rule: leaves_cases)
  case (returned r)
  then show ?thesis by (cases rule: stack_operation_cases [consumes 1]) (auto simp: ends_at_def)
next
  case (panicked m)
  then obtain upd where "runEngineAction po (so_EventHandler opts) obj
      \<lparr>os_world = w, os_stack = s, os_events = new_drainer s0\<rparr> upd eop (so_DryRun opts) = Panics (st, tr, m)"
    by (auto simp: stack_operation_def newUpdate_def kube_run_def split: sum.splits)
  then show ?thesis
    by (auto simp: runEngineAction_def split: ending.splits prod.splits
        dest: run_prog_ends run_prog_serves intro: ends_append)
qed

locale stack_client = engine_client "serve_call po h obj" F I
  for po :: "'w plugin_ops" and h :: "('s \<Rightarrow> engine_event \<Rightarrow> 's) option" and obj :: object_meta
    and F :: "'a \<Rightarrow> engine_call \<times> engine_reply \<Rightarrow> 'a" and I :: "'a \<Rightarrow> ('w, 'h, 's) op_state \<Rightarrow> bool"
begin

lemma operation_keeps:
  assumes "leaves (stack_operation po E eop w s obj opts s0) st tr"
    and "so_EventHandler opts = h" and "I a \<lparr>os_world = w, os_stack = s, os_events = new_drainer s0\<rparr>"
  shows "I (foldl F a tr) st"
  using stack_operation_ends [OF assms(1)] assms(2,3) by (auto intro: ends_keeps)

end

text \<open>
  What is fixed (backend, project, reference), the in-memory snapshot, the event channel, and the host:
  four instances of the contract.
\<close>

lemma os_host_simps [simp]:
  "os_host (st\<lparr>os_events := d\<rparr>) = os_host st" "os_host (st\<lparr>os_world := w\<rparr>) = os_host st"
  "os_host \<lparr>os_world = w, os_stack = s, os_events = d\<rparr> = pc_Host (ks_ctx s)"
  by (simp_all add: os_host_def)

lemma set_host_simps [simp]:
  "pc_Host (ks_ctx (set_host s h)) = h" "ks_b (set_host s h) = ks_b s" "ks_project (set_host s h) = ks_project s"
  "ks_ref (set_host s h) = ks_ref s" "ks_snap (set_host s h) = ks_snap s"
  "ks_snapHandle (set_host s h) = ks_snapHandle s"
  by (simp_all add: set_host_def)

interpretation fixed_part: stack_client po h obj "\<lambda>a _. a"
  "\<lambda>a st. (ks_b (os_stack st), ks_project (os_stack st), ks_ref (os_stack st)) = a" for po h obj
  by unfold_locales (erule serve_call_cases, auto elim: Save_cases elim!: serve_call_panic)

interpretation snapshot_basis: stack_client po h obj saved_snapshot "\<lambda>sn st. ks_snap (os_stack st) = sn" for po h obj
  by unfold_locales (erule serve_call_cases, auto elim: Save_cases elim!: serve_call_panic)

interpretation event_channel: stack_client po h obj "\<lambda>es cr. es @ events_of [cr]"
  "\<lambda>es st. os_events st = foldl (send (handler_or_nil h)) (new_drainer init) es" for po h obj init
  by unfold_locales (erule serve_call_cases, auto elim!: serve_call_panic)

lemma wrapped_host_keeps:
  "wrapped_host_step po (w, host) c = Returns ((w', host'), r) \<Longrightarrow>
     host_extends host host' \<and> (host_ok host \<longrightarrow> host_ok host')"
  "wrapped_host_step po (w, host) c = Panics ((w', host'), m) \<Longrightarrow>
     host_extends host host' \<and> (host_ok host \<longrightarrow> host_ok host')"
  by (auto dest: extends.P_wrapped ok.P_wrapped, auto dest: extends.P_wrapped_panic ok.P_wrapped_panic)

interpretation open_host: stack_client po h obj "\<lambda>a _. a"
  "\<lambda>a st. host_extends a (os_host st) \<and> (host_ok a \<longrightarrow> host_ok (os_host st))" for po h obj
  by unfold_locales
    (erule serve_call_cases,
      auto simp: os_host_def elim!: Save_cases serve_call_panic
        dest!: wrapped_host_keeps intro: host_extends_trans)

section \<open>Properties of the operations\<close>

text \<open>
  C19. The basis of the next operation. When an operation of a stack returns, whatever the engine did,
  the stack's snapshot is the last one the engine saved successfully (or the one it started from), and
  the next operation's target is made from it, with the same backend, project and name.
\<close>

theorem operation_chains:
  assumes "stack_operation po E eop w s obj opts s0 = Returns (st, tr, result)"
    and "newUpdate (el_QName E) (os_stack st) cfg s1 = Inr (upd, ev)"
  shows "tg_Snapshot (GetTarget upd) = last_saved (ks_snap s) tr \<and>
    tg_Name (GetTarget upd) = objectReference_Name (el_QName E) (ks_ref s) \<and>
    tg_Config (GetTarget upd) = (case cfg of None \<Rightarrow> Map.empty | Some c \<Rightarrow> c) \<and>
    GetProject upd = ks_project s \<and> ks_b (os_stack st) = ks_b s"
proof -
  have "ks_snap (os_stack st) = last_saved (ks_snap s) tr"
    using snapshot_basis.operation_keeps [OF leaves_Returns [OF assms(1)] refl] by (simp add: last_saved_def)
  moreover have "ks_b (os_stack st) = ks_b s \<and> ks_project (os_stack st) = ks_project s \<and>
      ks_ref (os_stack st) = ks_ref s"
    using fixed_part.operation_keeps [OF leaves_Returns [OF assms(1)] refl, of "(ks_b s, ks_project s, ks_ref s)"]
    by (induction tr) auto
  ultimately show ?thesis
    using assms(2) by (auto simp: newUpdate_def getTarget_def GetTarget_def GetProject_def split: sum.splits)
qed

text \<open>
  C20. An operation never closes the stack's plugin host. Whatever calls the engine makes on the host of
  its options (closing it included), and whether the operation returns or panics, afterwards the host still has the plugin context, loaders and
  address it had, every language runtime it had cached and every plugin it had listed, and its
  bookkeeping is intact; so the next operation of the stack can use it.
\<close>

theorem operation_keeps_host_open:
  assumes "leaves (stack_operation po E eop w s obj opts s0) st tr"
  shows "host_extends (pc_Host (ks_ctx s)) (os_host st) \<and>
    (host_ok (pc_Host (ks_ctx s)) \<longrightarrow> host_ok (os_host st))"
proof -
  have "foldl (\<lambda>a (_ :: engine_call \<times> engine_reply). a) x tr = x" for x :: "'a host"
    by (induction tr) auto
  then show ?thesis
    using open_host.operation_keeps [OF assms refl, of "pc_Host (ks_ctx s)"]
    by (auto simp: host_extends_def)
qed

lemma foldl_events: "foldl (\<lambda>es cr. es @ events_of [cr]) es tr = es @ events_of tr"
  by (induction tr arbitrary: es) (auto split: option.splits)

lemma operation_channel:
  assumes "stack_operation po E eop w s obj opts s0 = Returns (st, tr, result)"
  shows "os_events st = foldl (send (handler_or_nil (so_EventHandler opts))) (new_drainer s0) (events_of tr)"
  using event_channel.operation_keeps [OF leaves_Returns [OF assms] refl, where a = "[]" and init = s0] foldl_events [of "[]" tr] by simp

text \<open>
  What an operation's event handler has seen when the operation returns: the events the engine sent
  during the operation, each once and in order, or all but the last; without a handler its state is
  untouched.
\<close>

theorem operation_events:
  assumes "stack_operation po E eop w s obj opts s0 = Returns (st, tr, result)"
  shows "read_handler (handler_or_nil (so_EventHandler opts)) drained (os_events st) =
    (case so_EventHandler opts of
       None \<Rightarrow> s0
     | Some h \<Rightarrow> foldl h s0 (if drained then events_of tr else butlast (events_of tr)))"
proof -
  have "foldl (handler_or_nil None) s0 es = s0" for es
    by (induction es) (simp_all add: handler_or_nil_def)
  moreover have "handler_or_nil (Some h) = h" for h :: "'c \<Rightarrow> engine_event \<Rightarrow> 'c"
    by (simp add: fun_eq_iff handler_or_nil_def)
  ultimately show ?thesis
    by (simp add: operation_channel [OF assms] read_handler_cases split: option.split)
qed

text \<open>
  Without a decrypter no operation runs: refresh, update and destroy alike return the wrapped
  error as an error result (not a bail) with no changes, having called neither the engine nor the
  storage nor the host, and having left the stack as it was.
\<close>

theorem operation_without_decrypter:
  assumes "sm_Decrypter (db_secretsManager (ks_b s)) = Inl e"
  shows "\<forall>run \<in> {Refresh po E, Update po E, Destroy po E}. run w s obj opts s0 =
    Returns (\<lparr>os_world = w, os_stack = s, os_events = new_drainer s0\<rparr>, [],
      (Map.empty, Some (FromError (Wrapped ''unable to obtain a decryptor'' e))))"
  using assms by (simp add: Refresh_def Update_def Destroy_def stack_operation_def newUpdate_def getTarget_def)

text \<open>
  The outcomes of loading a stack: an error of the storage (the generation mismatch included) is
  handed on unchanged, and a loaded stack has the object's reference, the given plugin context and
  project, the storage's snapshot and handle, both nil or both not, and a handle no newer than the object.
\<close>

theorem LoadStack_outcomes:
  "case LoadStack (NewDefaultBackend (NewSecretSnapshotter sn) sm p) w ctx proj obj of
     Inl e \<Rightarrow> GetSnapshot sn w obj = Inl e
   | Inr s \<Rightarrow>
       GetSnapshot sn w obj = Inr (ks_snap s, ks_snapHandle s) \<and>
       (ks_snap s = None) = (ks_snapHandle s = None) \<and>
       ks_ref s = newStackReferenceForObject obj \<and> ks_ctx s = ctx \<and> ks_project s = proj \<and>
       list_all (\<lambda>k. sint (sh_objectGeneration k) \<le> sint (om_Generation obj))
         (case ks_snapHandle s of None \<Rightarrow> [] | Some k \<Rightarrow> [k])"
  using secret_storage.get_handle_iff [of sn w obj] secret_storage.get_generation [of sn w obj]
  by (auto simp: LoadStack_def NewDefaultBackend_def newStack_def Let_def GetObjectGeneration_def
      split: sum.splits option.splits)

section \<open>A concrete stack\<close>

text \<open>
  A stack over the in-memory API with a host that has no plugins, and an engine that saves a snapshot,
  sends the summary, tries to close the host and succeeds.
\<close>

definition idle_plugins :: "mem plugin_ops" where
  "idle_plugins =
     \<lparr>po_ProviderInfo = (\<lambda>w p. (w, Inl not_found)), po_ProviderClose = (\<lambda>w p. (w, None)),
      po_ProviderCancel = (\<lambda>w p. (w, None)), po_RuntimeInfo = (\<lambda>w p. (w, Inl not_found)),
      po_RuntimeClose = (\<lambda>w p. (w, None)), po_ServerStop = (\<lambda>w. (w, None)),
      po_Sink = (\<lambda>w sev urn msg i. w), po_StatusSink = (\<lambda>w sev urn msg i. w)\<rparr>"

definition idle_host :: "mem host" where
  "idle_host =
     \<lparr>h_ctx = None, h_providerLoader = (\<lambda>w pkg v. (w, None, Some not_found)),
      h_languageRuntimeLoader = (\<lambda>w n. (w, None, None)), h_languagePlugins = Map.empty,
      h_resourcePlugins = Map.empty, h_reportedResourcePlugins = Map.empty, h_plugins = [],
      h_server = \<lparr>hs_addr = ''127.0.0.1:5000'', hs_rootUrn = []\<rparr>\<rparr>"

definition demo_project :: project where
  "demo_project = \<lparr>proj_Name = ''k.g'', proj_Runtime = ''embedded'', proj_RuntimeOptions = Map.empty\<rparr>"

definition demo_backend :: "(go_error + nat) \<Rightarrow> (mem, secretSnapshotHandle) defaultBackend" where
  "demo_backend dec = NewDefaultBackend (NewSecretSnapshotter demo_snapshotter) \<lparr>sm_Decrypter = dec\<rparr> demo_project"

definition demo_stack :: "snapshot option \<Rightarrow> secretSnapshotHandle option \<Rightarrow>
    (mem, secretSnapshotHandle) kubeStack" where
  "demo_stack snap handle =
     newStack (demo_backend (Inr 7)) \<lparr>pc_Host = idle_host\<rparr> demo_project
       \<lparr>or_UID = ''u1'', or_Namespace = ''ns''\<rparr> snap handle"

definition saving_op :: "string list \<Rightarrow> engine_op" where
  "saving_op us upd base dryRun =
     Call (SaveSnapshot (Some (plain_snapshot us))) (\<lambda>_.
     Call (EmitEvent (SummaryEvent [''create'' \<mapsto> 1])) (\<lambda>_.
     Call (CallHost (CallClose [] [])) (\<lambda>_.
     Result (([''create'' \<mapsto> 1], None), Result None))))"

definition demo_engine :: "mem engine_lib" where
  "demo_engine =
     \<lparr>el_Refresh = saving_op [''a''], el_Update = saving_op [''a''], el_Destroy = saving_op [''a''],
      el_HasChanges = (\<lambda>c. c ''create'' \<noteq> None), el_QName = slash_qnames,
      el_ContextClose = (\<lambda>(w, ctx). ((w, ctx), None))\<rparr>"

definition demo_opts :: "stack_changes stack_opts" where
  "demo_opts = \<lparr>so_DryRun = False, so_Config = None,
     so_EventHandler = Some (EngineEvent (\<lambda>c. c ''create'' \<noteq> None))\<rparr>"

definition demo_trace :: "go_error option \<Rightarrow> call_trace" where
  "demo_trace err =
     [(SaveSnapshot (Some (plain_snapshot [''a''])), Saved err),
      (EmitEvent (SummaryEvent [''create'' \<mapsto> 1]), Emitted),
      (CallHost (CallClose [] []), HostReplied (ReplyError None))]"

lemma demo_stack_simps [simp]:
  "ks_snap (demo_stack snap handle) = snap" "ks_snapHandle (demo_stack snap handle) = handle"
  "ks_ref (demo_stack snap handle) = \<lparr>or_UID = ''u1'', or_Namespace = ''ns''\<rparr>"
  "ks_ctx (demo_stack snap handle) = \<lparr>pc_Host = idle_host\<rparr>" "ks_project (demo_stack snap handle) = demo_project"
  "ks_b (demo_stack snap handle) = demo_backend (Inr 7)"
  "(demo_stack snap handle)\<lparr>ks_snap := snap', ks_snapHandle := handle'\<rparr> = demo_stack snap' handle'"
  "(demo_stack snap handle)\<lparr>ks_snapHandle := handle'\<rparr> = demo_stack snap handle'"
  "set_host (demo_stack snap handle) idle_host = demo_stack snap handle"
  by (simp_all add: demo_stack_def newStack_def set_host_def)

lemma demo_backend_simps [simp]:
  "db_snapshotter (demo_backend dec) = NewSecretSnapshotter demo_snapshotter"
  "sm_Decrypter (db_secretsManager (demo_backend dec)) = dec"
  by (simp_all add: demo_backend_def NewDefaultBackend_def)

lemma demo_opts_simps [simp]:
  "so_Config demo_opts = None" "so_DryRun demo_opts = False"
  "so_EventHandler demo_opts = Some (EngineEvent (\<lambda>c. c ''create'' \<noteq> None))"
  by (simp_all add: demo_opts_def)

definition demo_drainer :: "stack_changes drainer" where
  "demo_drainer = \<lparr>dr_state = NewStackChanges False, dr_inflight = Some (SummaryEvent [''create'' \<mapsto> 1])\<rparr>"

lemma demo_save:
  "SetSnapshot demo_snapshotter no_secrets (demo_object 3) (Some (plain_snapshot [''a''])) None =
     (no_secrets(demo_name := [demo_secret ''v'' (join_lines [''a'']) 3]), None,
      Inr (demo_handle ''v'' (join_lines [''a'']) 3))"
  by (rule demo_create) (simp add: newline_def)

text \<open>The engine's operation on a new stack: the snapshot is stored and the host stays open.\<close>

definition demo_result :: "(mem, secretSnapshotHandle, stack_changes) op_state" where
  "demo_result =
     \<lparr>os_world = no_secrets(demo_name := [demo_secret ''v'' (join_lines [''a'']) 3]),
      os_stack = demo_stack (Some (plain_snapshot [''a''])) (Some (demo_handle ''v'' (join_lines [''a'']) 3)),
      os_events = demo_drainer\<rparr>"

lemma demo_run:
  "stack_operation idle_plugins demo_engine (saving_op [''a'']) no_secrets (demo_stack None None) (demo_object 3)
     demo_opts (NewStackChanges False) = Returns (demo_result, demo_trace None, ([''create'' \<mapsto> 1], None))"
  by (simp add: stack_operation_def newUpdate_def getTarget_def kube_run_def runEngineAction_def saving_op_def
      demo_result_def demo_trace_def demo_drainer_def demo_save Save_def send_def new_drainer_def os_host_def)

theorem operation_chains_witness:
  "\<exists>upd ev. newUpdate slash_qnames (os_stack demo_result) None (NewStackChanges True) = Inr (upd, ev) \<and>
     tg_Snapshot (GetTarget upd) = Some (plain_snapshot [''a'']) \<and> tg_Name (GetTarget upd) = ''ns/u1''"
proof -
  obtain upd ev where upd: "newUpdate (el_QName demo_engine) (os_stack demo_result) None (NewStackChanges True) = Inr (upd, ev)"
    by (simp add: newUpdate_def getTarget_def demo_result_def)
  from operation_chains [OF demo_run this] upd show ?thesis
    by (simp add: demo_trace_def objectReference_Name_def demo_engine_def)
qed

theorem operation_keeps_host_open_witness:
  "host_extends idle_host (os_host demo_result)"
  using operation_keeps_host_open [OF leaves_Returns [OF demo_run]] by simp

theorem operation_events_witness:
  "chg_HasResourceChanges (read_handler (EngineEvent (\<lambda>c. c ''create'' \<noteq> None)) True (os_events demo_result)) \<and>
   \<not> chg_HasResourceChanges (read_handler (EngineEvent (\<lambda>c. c ''create'' \<noteq> None)) False (os_events demo_result))"
proof -
  have "handler_or_nil (Some h) = h" for h :: "stack_changes \<Rightarrow> engine_event \<Rightarrow> stack_changes"
    by (simp add: fun_eq_iff handler_or_nil_def)
  with operation_events [OF demo_run, of True] operation_events [OF demo_run, of False] show ?thesis
    by (simp add: demo_trace_def NewStackChanges_def)
qed

theorem operation_without_decrypter_witness:
  "Destroy idle_plugins demo_engine no_secrets ((demo_stack None None)\<lparr>ks_b := demo_backend (Inl conflict)\<rparr>)
     (demo_object 3) demo_opts (NewStackChanges False) =
   Returns (\<lparr>os_world = no_secrets, os_stack = (demo_stack None None)\<lparr>ks_b := demo_backend (Inl conflict)\<rparr>,
       os_events = new_drainer (NewStackChanges False)\<rparr>, [],
     (Map.empty, Some (FromError (Wrapped ''unable to obtain a decryptor'' conflict))))"
  using operation_without_decrypter [where s = "(demo_stack None None)\<lparr>ks_b := demo_backend (Inl conflict)\<rparr>"
      and e = conflict and po = idle_plugins and E = demo_engine and w = no_secrets and obj = "demo_object 3"
      and opts = demo_opts and ?s0.0 = "NewStackChanges False"]
  by simp

end
