(* ===== verification/StackStore.thy ===== *)
theory StackStore
  imports Stack
begin

text \<open>
  A stack over the secret snapshotter: how the snapshot in memory, the handle and the stored secret
  agree, under every engine and through every failure.
\<close>

section \<open>What agrees with what\<close>

text \<open>A secret whose checkpoint decodes to a snapshot.\<close>

definition decodes :: "'c checkpoint_codec \<Rightarrow> secret \<Rightarrow> snapshot option \<Rightarrow> bool" where
  "decodes C sec snap \<longleftrightarrow>
     (case cc_Unmarshal C (bytes_at (sec_Data sec) ''checkpoint'') of
        Inl e \<Rightarrow> False | Inr chk \<Rightarrow> cc_Deserialize C chk = Inr snap)"

abbreviation secret_name :: "object_meta \<Rightarrow> namespaced_name" where
  "secret_name obj \<equiv> makeSecretName (newStackReferenceForObject obj)"

abbreviation held_secret :: "('w, secretSnapshotHandle) kubeStack \<Rightarrow> secret option" where
  "held_secret s \<equiv> Option.bind (ks_snapHandle s) sh_secret"

text \<open>
  A stack in step with its handle: without a handle it has no snapshot; with one, the handle holds a
  secret of the object, and the snapshot in memory is what that secret decodes to.
\<close>

definition in_step :: "'c checkpoint_codec \<Rightarrow> object_meta \<Rightarrow> ('w, secretSnapshotHandle) kubeStack \<Rightarrow> bool" where
  "in_step C obj s \<longleftrightarrow>
     (case ks_snapHandle s of
        None \<Rightarrow> ks_snap s = None
      | Some k \<Rightarrow> (case sh_secret k of
           None \<Rightarrow> False
         | Some sec \<Rightarrow> secret_key sec = secret_name obj \<and> decodes C sec (ks_snap s)))"

text \<open>
  The version in hand is the stored one (or none is in hand and none is stored). A stack is stale when its
  handle's secret is not; \<open>replaced\<close> says that the object's secret was replaced by \<open>sec\<close>, a new version.
\<close>

definition current :: "('w \<Rightarrow> namespaced_name \<rightharpoonup> secret) \<Rightarrow> 'w \<Rightarrow> object_meta \<Rightarrow> secret option \<Rightarrow> bool" where
  "current cur w obj held \<longleftrightarrow>
     map_option sec_ResourceVersion (cur w (secret_name obj)) = map_option sec_ResourceVersion held"

definition replaced :: "('w \<Rightarrow> namespaced_name \<rightharpoonup> secret) \<Rightarrow> ('w \<Rightarrow> namespaced_name \<Rightarrow> secret set) \<Rightarrow>
    'w \<Rightarrow> object_meta \<Rightarrow> secret \<Rightarrow> 'w \<Rightarrow> bool" where
  "replaced cur past w obj sec w' \<longleftrightarrow>
     secret_key sec = secret_name obj \<and>
     ParseInt (bytes_at (sec_Data sec) ''generation'') = Some (om_Generation obj) \<and>
     (\<forall>v\<in>past w (secret_name obj). sec_ResourceVersion v \<noteq> sec_ResourceVersion sec) \<and>
     cur w' = (cur w)(secret_name obj \<mapsto> sec) \<and>
     past w' = (past w)(secret_name obj := insert sec (past w (secret_name obj)))"

text \<open>What is stored for the object is a snapshot at the object's generation, and the stack's handle has it.\<close>

definition stored_as :: "'c checkpoint_codec \<Rightarrow> ('w \<Rightarrow> namespaced_name \<rightharpoonup> secret) \<Rightarrow> 'w \<Rightarrow> object_meta \<Rightarrow>
    ('w, secretSnapshotHandle) kubeStack \<Rightarrow> snapshot option \<Rightarrow> bool" where
  "stored_as C cur w obj s snap \<longleftrightarrow>
     (case cur w (secret_name obj) of
        None \<Rightarrow> False
      | Some sec \<Rightarrow> decodes C sec snap \<and> held_secret s = Some sec \<and>
          ParseInt (bytes_at (sec_Data sec) ''generation'') = Some (om_Generation obj))"

section \<open>One save\<close>

lemma stores_replaced:
  assumes "stores cur past w t sec w'" and "secret_key t = secret_name obj"
    and "sec_Data t = secret_data d (om_Generation obj)"
  shows "replaced cur past w obj sec w'"
  using assms by (simp add: stores_def replaced_def)

lemma current_iff:
  "current cur w obj held \<longleftrightarrow>
     (case held of None \<Rightarrow> cur w (secret_name obj) = None
      | Some old \<Rightarrow> \<exists>c. cur w (secret_name obj) = Some c \<and> sec_ResourceVersion c = sec_ResourceVersion old)"
  by (cases "cur w (secret_name obj)") (auto simp: current_def split: option.splits)

definition handle_option_for :: "object_meta \<Rightarrow> secretSnapshotHandle option \<Rightarrow> bool" where
  "handle_option_for obj prior = (case prior of None \<Rightarrow> True | Some k \<Rightarrow> handle_for obj k)"

lemma prepared_handle:
  assumes "handle = (case prior of Some h \<Rightarrow> h | None \<Rightarrow> zero_handle)\<lparr>sh_objectGeneration := g\<rparr>"
    and "handle_option_for obj prior"
  shows "handle_for obj handle" and "sh_secret handle = Option.bind prior sh_secret"
    and "map_option sh_secret (map_option (\<lambda>_. handle) prior) = map_option sh_secret prior"
  using assms by (auto simp: zero_handle_def handle_for_def handle_option_for_def split: option.splits)

lemma setSnapshot_ok:
  assumes codec: "codec_contract (sn_Codec sn)" and api: "api_contract (sn_Client sn) cur past"
    and set: "SetSnapshot sn w obj snap prior = (w', p, Inr k)" and prior: "handle_option_for obj prior"
  obtains sec where "k = \<lparr>sh_objectGeneration = om_Generation obj, sh_secret = Some sec\<rparr>"
    "decodes (sn_Codec sn) sec snap" "replaced cur past w obj sec w'"
    "current cur w obj (Option.bind prior sh_secret)"
  using set [unfolded SetSnapshot_def]
proof (cases rule: setSnapshot_cases)
  case (ok handle chk d sec)
  note hf = prepared_handle [OF ok(1) prior]
  obtain chk' where chk': "cc_Unmarshal (sn_Codec sn) d = Inr chk'" "cc_Deserialize (sn_Codec sn) chk' = Inr snap"
    by (rule codec_roundtrip [OF codec ok(2,3)])
  obtain t where t: "secret_key t = secret_name obj" "sec_Data t = secret_data d (om_Generation obj)"
    "stores cur past w t sec w'" and "current cur w obj (sh_secret handle)"
    using write_secret_ok [OF api hf(1) ok(4)] unfolding current_iff by blast
  moreover from t have "decodes (sn_Codec sn) sec snap"
    using chk' by (simp add: decodes_def stores_data)
  ultimately show thesis
    using ok hf(2) stores_replaced [OF t(3,1,2)] by (intro that [of sec]) (auto split: option.splits)
qed simp_all

lemma setSnapshot_failed:
  assumes api: "api_contract (sn_Client sn) cur past"
    and set: "SetSnapshot sn w obj snap prior = (w', p, Inl e)" and prior: "handle_option_for obj prior"
  shows "map_option sh_secret p = map_option sh_secret prior \<and>
    (unchanged cur past w w' \<or>
     current cur w obj (Option.bind prior sh_secret) \<and> (\<exists>sec. replaced cur past w obj sec w'))"
  using set [unfolded SetSnapshot_def]
proof (cases rule: setSnapshot_cases)
  case (write_error handle d e')
  note hf = prepared_handle [OF write_error(1) prior]
  consider "unchanged cur past w w'" | t sec where "secret_key t = secret_name obj"
    "sec_Data t = secret_data d (om_Generation obj)" "stores cur past w t sec w'"
    "current cur w obj (sh_secret handle)"
    using write_secret_err [OF api hf(1) write_error(2)] unfolding current_iff by blast
  then have "unchanged cur past w w' \<or>
      current cur w obj (Option.bind prior sh_secret) \<and> (\<exists>sec. replaced cur past w obj sec w')"
  proof cases
    case 2
    from stores_replaced [OF this(3,1,2)] 2(4) hf(2) show ?thesis by auto
  qed blast
  with hf(3) write_error(3) show ?thesis by simp
qed (simp_all add: unchanged_def)

text \<open>The outcomes of \<^verbatim>\<open>Save\<close> on a stack over the secret snapshotter.\<close>

definition secret_stack :: "('w, 'c) secretSnapshotter \<Rightarrow> object_meta \<Rightarrow> ('w, secretSnapshotHandle) kubeStack \<Rightarrow> bool" where
  "secret_stack sn obj s \<longleftrightarrow>
     db_snapshotter (ks_b s) = NewSecretSnapshotter sn \<and> handle_option_for obj (ks_snapHandle s)"

lemma Save_outcomes:
  assumes "codec_contract (sn_Codec sn)" "api_contract (sn_Client sn) cur past" "secret_stack sn obj s"
    and "Save w s obj snap = (w', s', err)"
  obtains (saved) sec where "err = None" "held_secret s' = Some sec" "ks_snap s' = snap" "ks_b s' = ks_b s"
      "secret_stack sn obj s'" "decodes (sn_Codec sn) sec snap" "replaced cur past w obj sec w'"
      "current cur w obj (held_secret s)" "ks_ctx s' = ks_ctx s"
  | (failed) e where "err = Some e" "held_secret s' = held_secret s" "ks_snap s' = ks_snap s" "ks_b s' = ks_b s"
      "(ks_snapHandle s' = None) = (ks_snapHandle s = None)" "secret_stack sn obj s'" "ks_ctx s' = ks_ctx s"
      "unchanged cur past w w' \<or> current cur w obj (held_secret s) \<and> (\<exists>sec. replaced cur past w obj sec w')"
  using assms(4)
proof (cases rule: Save_cases)
  case (failed prior e)
  then have "SetSnapshot sn w obj snap (ks_snapHandle s) = (w', prior, Inl e)"
    using assms(3) by (simp add: secret_stack_def)
  from setSnapshot_failed [OF assms(2) this] assms(3)
  have P: "map_option sh_secret prior = map_option sh_secret (ks_snapHandle s)"
    "unchanged cur past w w' \<or> current cur w obj (held_secret s) \<and> (\<exists>sec. replaced cur past w obj sec w')"
    by (simp_all add: secret_stack_def)
  then have "Option.bind prior sh_secret = held_secret s" "(prior = None) = (ks_snapHandle s = None)"
    "handle_option_for obj prior = handle_option_for obj (ks_snapHandle s)"
    by (cases prior; cases "ks_snapHandle s"; simp add: handle_option_for_def handle_for_def)+
  with P failed assms(3) show thesis by (intro that(2) [of e]) (auto simp: secret_stack_def)
next
  case (saved prior handle)
  then have "SetSnapshot sn w obj snap (ks_snapHandle s) = (w', prior, Inr handle)"
    using assms(3) by (simp add: secret_stack_def)
  then obtain sec where "handle = \<lparr>sh_objectGeneration = om_Generation obj, sh_secret = Some sec\<rparr>"
    "decodes (sn_Codec sn) sec snap" "replaced cur past w obj sec w'"
    "current cur w obj (held_secret s)"
    using assms(3) unfolding secret_stack_def by (blast elim: setSnapshot_ok [OF assms(1,2)])
  with saved assms(3) show thesis
    by (intro that(1) [of sec]) (auto simp: secret_stack_def handle_option_for_def handle_for_def replaced_def)
qed

section \<open>Whole operations\<close>

text \<open>
  The services behind an operation: codec and API as documented, and plugins and loaders that leave the
  secrets of stacks alone.
\<close>

definition services_ok :: "('w, 'c) secretSnapshotter \<Rightarrow> ('w \<Rightarrow> namespaced_name \<rightharpoonup> secret) \<Rightarrow>
    ('w \<Rightarrow> namespaced_name \<Rightarrow> secret set) \<Rightarrow> 'w plugin_ops \<Rightarrow> 'w host \<Rightarrow> bool" where
  "services_ok sn cur past po host \<longleftrightarrow>
     codec_contract (sn_Codec sn) \<and> api_contract (sn_Client sn) cur past \<and>
     plugins_keep (unchanged cur past) po \<and> loaders_keep (unchanged cur past) host"

lemma unchanged_equiv [simp]: "reflp (unchanged cur past)" "transp (unchanged cur past)"
  by (auto simp: reflp_def transp_def unchanged_def)

lemma services_call:
  assumes "services_ok sn cur past po host" and "wrapped_host_step po (w, host) c = Returns ((w', host'), r)"
  shows "services_ok sn cur past po host'" and "unchanged cur past w w'"
proof -
  show "services_ok sn cur past po host'"
    using assms(1) loaders_keep_extends [OF extends.P_wrapped [OF assms(2)]] by (simp add: services_ok_def)
  show "unchanged cur past w w'"
    using assms(1) by (intro wrapped_host_step_world [OF unchanged_equiv _ _ assms(2)])
      (simp_all add: services_ok_def)
qed

lemma services_panic:
  assumes "services_ok sn cur past po host" and "wrapped_host_step po (w, host) c = Panics ((w', host'), m)"
  shows "services_ok sn cur past po host'" and "unchanged cur past w w'"
proof -
  show "services_ok sn cur past po host'"
    using assms(1) loaders_keep_extends [OF extends.P_wrapped_panic [OF assms(2)]] by (simp add: services_ok_def)
  show "unchanged cur past w w'"
    using assms(1) by (intro wrapped_host_panic_world [OF unchanged_equiv _ _ assms(2)])
      (simp_all add: services_ok_def)
qed

lemma secret_stack_simps [simp]:
  "secret_stack sn obj (set_host s host) = secret_stack sn obj s"
  "in_step C obj (set_host s host) = in_step C obj s"
  "stored_as C cur w obj (set_host s host) snap = stored_as C cur w obj s snap"
  by (auto simp: secret_stack_def in_step_def stored_as_def split: option.splits)

lemma host_of_saved [simp]: "ks_ctx s' = ks_ctx (os_stack st) \<Longrightarrow>
    os_host (st\<lparr>os_world := w, os_stack := s'\<rparr>) = os_host st"
  by (simp add: os_host_def)

lemma host_of_called [simp]:
  "os_host (st\<lparr>os_world := w, os_stack := set_host s host\<rparr>) = host"
  by (simp add: os_host_def)

text \<open>The stack is in step with its handle.\<close>

lemma in_step_saved:
  "held_secret s = Some sec \<Longrightarrow> secret_key sec = secret_name obj \<Longrightarrow> decodes C sec (ks_snap s) \<Longrightarrow> in_step C obj s"
  by (cases "ks_snapHandle s") (auto simp: in_step_def)

lemma in_step_failed:
  "held_secret s' = held_secret s \<Longrightarrow> ks_snap s' = ks_snap s \<Longrightarrow>
     (ks_snapHandle s' = None) = (ks_snapHandle s = None) \<Longrightarrow> in_step C obj s \<Longrightarrow> in_step C obj s'"
  by (cases "ks_snapHandle s"; cases "ks_snapHandle s'") (auto simp: in_step_def split: option.splits)

interpretation agreement: stack_client po h obj "\<lambda>a _. a"
  "\<lambda>_ st. codec_contract (sn_Codec sn) \<and> api_contract (sn_Client sn) cur past \<and>
     secret_stack sn obj (os_stack st) \<and> in_step (sn_Codec sn) obj (os_stack st)" for po h obj sn cur past
proof (unfold_locales, erule serve_call_cases, goal_cases)
  case (1 a st c st' reply snap w' s' err)
  then have api: "codec_contract (sn_Codec sn)" "api_contract (sn_Client sn) cur past"
    "secret_stack sn obj (os_stack st)" and step: "in_step (sn_Codec sn) obj (os_stack st)" by auto
  from api 1(3) show ?case
  proof (cases rule: Save_outcomes)
    case (saved sec)
    then have "in_step (sn_Codec sn) obj s'"
      by (intro in_step_saved [of _ sec]) (simp_all add: replaced_def)
    with api saved 1 show ?thesis by simp
  next
    case (failed e)
    from in_step_failed [OF failed(2,3,5) step] api failed 1 show ?thesis by simp
  qed
qed (auto elim!: serve_call_panic)

text \<open>The last attempt to save, when it succeeded, is what is stored.\<close>

definition last_attempt :: "(snapshot option \<times> go_error option) option \<Rightarrow> engine_call \<times> engine_reply \<Rightarrow>
    (snapshot option \<times> go_error option) option" where
  "last_attempt a cr = (case save_result cr of None \<Rightarrow> a | Some r \<Rightarrow> Some r)"

lemma foldl_last_attempt:
  "foldl last_attempt a tr = (if save_attempts tr = [] then a else Some (last (save_attempts tr)))"
  by (induction tr arbitrary: a) (auto simp: last_attempt_def split: option.split)

definition attempt_stored :: "(snapshot option \<Rightarrow> bool) \<Rightarrow> (snapshot option \<times> go_error option) option \<Rightarrow> bool" where
  "attempt_stored P a = (case a of Some (snap, None) \<Rightarrow> P snap | _ \<Rightarrow> True)"

lemma stored_as_unchanged:
  "unchanged cur past w w' \<Longrightarrow> stored_as C cur w' obj s snap = stored_as C cur w obj s snap"
  by (simp add: stored_as_def unchanged_def)

lemma save_result_simps [simp]:
  "last_attempt a (EmitEvent e, r) = a" "last_attempt a (CallHost hc, r) = a"
  "last_attempt a (ReadStackOutputs n, r) = a" "last_attempt a (ReadStackResourceOutputs n, r) = a"
  "last_attempt a (SaveSnapshot snap, Saved err) = Some (snap, err)"
  by (simp_all add: last_attempt_def)

interpretation persistence: stack_client po h obj last_attempt
  "\<lambda>a st. services_ok sn cur past po (os_host st) \<and> secret_stack sn obj (os_stack st) \<and>
     attempt_stored (stored_as (sn_Codec sn) cur (os_world st) obj (os_stack st)) a" for po h obj sn cur past
proof (unfold_locales, erule serve_call_cases, goal_cases)
  case (1 a st c st' reply snap w' s' err)
  then have api: "codec_contract (sn_Codec sn)" "api_contract (sn_Client sn) cur past"
    "secret_stack sn obj (os_stack st)" by (auto simp: services_ok_def)
  from api 1(3) show ?case
  proof (cases rule: Save_outcomes)
    case (saved sec)
    then have "stored_as (sn_Codec sn) cur w' obj s' snap" by (simp add: stored_as_def replaced_def)
    with saved 1 show ?thesis by (simp add: attempt_stored_def)
  next
    case (failed e)
    with 1 show ?thesis by (simp add: attempt_stored_def)
  qed
next
  case (3 a st c st' reply hc w' host' r)
  then have "services_ok sn cur past po host'" "unchanged cur past (os_world st) w'"
    by (auto intro: services_call)
  with 3 show ?case by (auto simp: stored_as_unchanged attempt_stored_def split: option.splits)
next
  case (5 a st c st' m)
  from 5(2) show ?case
  proof (cases rule: serve_call_panic)
    case (call hc w' host')
    with 5(1) have "services_ok sn cur past po host'" "unchanged cur past (os_world st) w'"
      by (auto intro: services_panic)
    with 5(1) call show ?thesis by (auto simp: stored_as_unchanged attempt_stored_def split: option.splits)
  qed (use 5 in simp)
qed auto

text \<open>A stale stack stays stale and changes nothing.\<close>

definition no_success :: "bool \<Rightarrow> engine_call \<times> engine_reply \<Rightarrow> bool" where
  "no_success a cr \<longleftrightarrow> a \<and> (case save_result cr of None \<Rightarrow> True | Some r \<Rightarrow> snd r \<noteq> None)"

lemma no_success_simps [simp]:
  "no_success a (EmitEvent e, r) = a" "no_success a (CallHost hc, r) = a"
  "no_success a (ReadStackOutputs n, r) = a" "no_success a (ReadStackResourceOutputs n, r) = a"
  "no_success a (SaveSnapshot snap, Saved err) \<longleftrightarrow> a \<and> err \<noteq> None"
  by (auto simp: no_success_def split: option.split)

lemma foldl_no_success:
  "foldl no_success a tr \<longleftrightarrow> a \<and> list_all (\<lambda>r. snd r \<noteq> None) (save_attempts tr)"
  by (induction tr arbitrary: a) (auto simp: no_success_def split: option.split)

interpretation staleness: stack_client po h obj no_success
  "\<lambda>a st. a \<and> services_ok sn cur past po (os_host st) \<and> secret_stack sn obj (os_stack st) \<and>
     cur (os_world st) = cur w0 \<and> ks_snap (os_stack st) = snap0 \<and>
     \<not> current cur w0 obj (held_secret (os_stack st))" for po h obj sn cur past w0 snap0
proof (unfold_locales, erule serve_call_cases, goal_cases)
  case (1 a st c st' reply snap w' s' err)
  then have api: "codec_contract (sn_Codec sn)" "api_contract (sn_Client sn) cur past"
    "secret_stack sn obj (os_stack st)"
    and stale: "\<not> current cur (os_world st) obj (held_secret (os_stack st))"
    by (auto simp: services_ok_def current_def)
  from api 1(3) show ?case
  proof (cases rule: Save_outcomes)
    case (saved sec)
    with stale show ?thesis by simp
  next
    case (failed e)
    with stale 1 show ?thesis by (simp add: unchanged_def)
  qed
next
  case (3 a st c st' reply hc w' host' r)
  then have "services_ok sn cur past po host'" "unchanged cur past (os_world st) w'"
    by (auto intro: services_call)
  with 3 show ?case by (simp add: unchanged_def)
next
  case (5 a st c st' m)
  from 5(2) show ?case
  proof (cases rule: serve_call_panic)
    case (call hc w' host')
    with 5(1) have "services_ok sn cur past po host'" "unchanged cur past (os_world st) w'"
      by (auto intro: services_panic)
    with 5(1) call show ?thesis by (simp add: unchanged_def)
  qed (use 5 in simp)
qed auto

section \<open>Loading\<close>

lemma LoadStack_cases:
  assumes "LoadStack (NewDefaultBackend (NewSecretSnapshotter sn) sm p) w ctx proj obj = Inr s"
  obtains (fresh) "db_snapshotter (ks_b s) = NewSecretSnapshotter sn" "ks_snap s = None" "ks_snapHandle s = None"
  | (found) sec snap g where "db_snapshotter (ks_b s) = NewSecretSnapshotter sn" "ks_snap s = Some snap"
      "ks_snapHandle s = Some \<lparr>sh_objectGeneration = g, sh_secret = Some sec\<rparr>"
      "sc_Get (sn_Client sn) w (secret_name obj) = Inr sec" "decodes (sn_Codec sn) sec (Some snap)"
      "ParseInt (bytes_at (sec_Data sec) ''generation'') = Some g" "sint g \<le> sint (om_Generation obj)"
proof (cases "getSnapshot sn w (newStackReferenceForObject obj)")
  case (Inl e)
  with assms show thesis by (simp add: LoadStack_def NewDefaultBackend_def GetSnapshot_def)
next
  case (Inr r)
  show thesis
  proof (cases "\<exists>snap k. r = Some (Some snap, k)")
    case True
    then obtain snap k where r: "r = Some (Some snap, k)" by blast
    with Inr obtain sec chk g where k: "k = \<lparr>sh_objectGeneration = g, sh_secret = Some sec\<rparr>"
      "sc_Get (sn_Client sn) w (secret_name obj) = Inr sec"
      "cc_Unmarshal (sn_Codec sn) (bytes_at (sec_Data sec) ''checkpoint'') = Inr chk"
      "cc_Deserialize (sn_Codec sn) chk = Inr (Some snap)"
      "ParseInt (bytes_at (sec_Data sec) ''generation'') = Some g"
      by (auto elim: getSnapshot_found)
    with assms r Inr show thesis
      by (intro found [of snap g sec])
        (auto simp: LoadStack_def NewDefaultBackend_def GetSnapshot_def newStack_def decodes_def
          GetObjectGeneration_def split: if_splits)
  next
    case False
    with assms Inr have "s = newStack (NewDefaultBackend (NewSecretSnapshotter sn) sm p) ctx proj
        (newStackReferenceForObject obj) None None"
      by (auto simp: LoadStack_def NewDefaultBackend_def GetSnapshot_def split: option.splits)
    then show thesis by (intro fresh) (simp_all add: newStack_def NewDefaultBackend_def)
  qed
qed

lemma loaded_in_step:
  assumes "api_contract (sn_Client sn) cur past"
    and "LoadStack (NewDefaultBackend (NewSecretSnapshotter sn) sm p) w ctx proj obj = Inr s"
  shows "secret_stack sn obj s \<and> in_step (sn_Codec sn) obj s"
  using assms(2)
proof (cases rule: LoadStack_cases)
  case (found sec snap g)
  then show ?thesis
    using api_get [OF assms(1) found(4)]
    by (simp add: secret_stack_def handle_option_for_def handle_for_def in_step_def)
qed (simp add: secret_stack_def handle_option_for_def in_step_def)

section \<open>Properties\<close>

text \<open>
  C14. Memory and storage agree. A stack loaded for an object is in step with its handle: it has no
  snapshot and no handle, or its snapshot is what the secret in its handle decodes to. Every operation
  keeps that, whatever the engine does (panicking included) and whichever saves fail: after a failed save the stack still has
  the snapshot of the version it holds, not the one it could not store.
\<close>

theorem stack_in_step:
  assumes "codec_contract (sn_Codec sn)" "api_contract (sn_Client sn) cur past"
    and "LoadStack (NewDefaultBackend (NewSecretSnapshotter sn) sm p) w ctx proj obj = Inr s0"
    and "secret_stack sn obj' s" and "in_step (sn_Codec sn) obj' s"
    and "leaves (stack_operation po E eop w' s obj' opts h0) st tr"
  shows "secret_stack sn obj s0 \<and> in_step (sn_Codec sn) obj s0 \<and>
    secret_stack sn obj' (os_stack st) \<and> in_step (sn_Codec sn) obj' (os_stack st)"
  using loaded_in_step [OF assms(2,3)] agreement.operation_keeps [OF assms(6) refl, of sn cur past] assms(1,2,4,5)
  by simp

lemma operation_stored:
  assumes "services_ok sn cur past po (pc_Host (ks_ctx s))" and "secret_stack sn obj s"
    and "leaves (stack_operation po E eop w s obj opts h0) st tr"
    and "save_attempts tr \<noteq> []" and "last (save_attempts tr) = (snap, None)"
  shows "stored_as (sn_Codec sn) cur (os_world st) obj (os_stack st) snap"
  using persistence.operation_keeps [OF assms(3) refl, of sn cur past None] assms(1,2,4,5)
  by (simp add: foldl_last_attempt attempt_stored_def)

lemma getSnapshot_decodes:
  assumes "sc_Get (sn_Client sn) w (makeSecretName ref) = Inr sec" and "decodes (sn_Codec sn) sec snap"
    and "ParseInt (bytes_at (sec_Data sec) ''generation'') = Some g"
  shows "getSnapshot sn w ref = Inr (Some (snap, \<lparr>sh_objectGeneration = g, sh_secret = Some sec\<rparr>))"
  using assms by (cases "cc_Unmarshal (sn_Codec sn) (bytes_at (sec_Data sec) ''checkpoint'')")
    (simp_all add: getSnapshot_def decodes_def)

text \<open>
  C11. What an operation saved is what is stored, whether it returned or panicked. When the last snapshot that the engine tried to save
  during an operation was saved without an error, then after the operation the object's secret decodes to
  exactly that snapshot, at the generation of the object reconciled, the stack holds that very secret, and
  it has the snapshot in memory.
\<close>

theorem operation_persists:
  assumes "services_ok sn cur past po (pc_Host (ks_ctx s))" and "secret_stack sn obj s"
    and "leaves (stack_operation po E eop w s obj opts h0) st tr"
    and "save_attempts tr \<noteq> []" and "last (save_attempts tr) = (snap, None)"
  shows "stored_as (sn_Codec sn) cur (os_world st) obj (os_stack st) snap \<and> last_saved (ks_snap s) tr = snap"
  using operation_stored [OF assms] last_saved_last [OF assms(4,5)] by simp

text \<open>
  C12. The next reconciliation resumes from there. After an operation (one that panicked included) whose last attempt to save succeeded,
  loading the stack again (for a later state of the same object, in any later world whose read finds the
  secret that the operation left) gives a stack with exactly the snapshot that was saved, holding the
  same version of the secret; only an object older than the one the snapshot was made for is refused,
  with the generation mismatch.
\<close>

theorem operation_resumed:
  assumes "services_ok sn cur past po (pc_Host (ks_ctx s))" and "secret_stack sn obj s"
    and "leaves (stack_operation po E eop w s obj opts h0) st tr"
    and "save_attempts tr \<noteq> []" and "last (save_attempts tr) = (Some snap, None)"
    and "newStackReferenceForObject obj' = newStackReferenceForObject obj"
    and "sc_Get (sn_Client sn) w2 (secret_name obj') = Inr (the (cur (os_world st) (secret_name obj)))"
  shows "case LoadStack (ks_b s) w2 ctx proj obj' of
      Inl e \<Rightarrow> sint (om_Generation obj') < sint (om_Generation obj) \<and> e = ErrSnapshotGenerationMismatch
    | Inr s2 \<Rightarrow> sint (om_Generation obj) \<le> sint (om_Generation obj') \<and> ks_snap s2 = Some snap \<and>
        held_secret s2 = held_secret (os_stack st)"
proof -
  obtain sec where sec: "cur (os_world st) (secret_name obj) = Some sec" "decodes (sn_Codec sn) sec (Some snap)"
    "held_secret (os_stack st) = Some sec"
    "ParseInt (bytes_at (sec_Data sec) ''generation'') = Some (om_Generation obj)"
    using operation_stored [OF assms(1-5)] by (auto simp: stored_as_def split: option.splits)
  then have "getSnapshot sn w2 (newStackReferenceForObject obj') =
      Inr (Some (Some snap, \<lparr>sh_objectGeneration = om_Generation obj, sh_secret = Some sec\<rparr>))"
    using assms(6,7) by (intro getSnapshot_decodes) simp_all
  then show ?thesis
    using assms(2) sec(3)
    by (auto simp: LoadStack_def secret_stack_def GetSnapshot_def GetObjectGeneration_def newStack_def)
qed

text \<open>
  C13. A stale stack writes nothing. When the secret held by a stack is not the stored version (another
  controller has written since, or the secret is there and the stack never saw it), a whole operation,
  whatever the engine does and however it ends, leaves every stored secret as it was, every save in it fails, and the stack
  keeps its snapshot.
\<close>

theorem stale_stack_writes_nothing:
  assumes "services_ok sn cur past po (pc_Host (ks_ctx s))" and "secret_stack sn obj s"
    and "\<not> current cur w obj (held_secret s)"
    and "leaves (stack_operation po E eop w s obj opts h0) st tr"
  shows "cur (os_world st) = cur w \<and> ks_snap (os_stack st) = ks_snap s \<and>
    list_all (\<lambda>r. snd r \<noteq> None) (save_attempts tr)"
  using staleness.operation_keeps [OF assms(4) refl, of True sn cur past w "ks_snap s"] assms(1-3)
  by (simp add: foldl_no_success)


section \<open>Concrete runs\<close>

lemma demo_services [simp]: "services_ok demo_snapshotter mem_cur mem_past idle_plugins idle_host"
  by (simp add: services_ok_def plugins_keep_def loaders_keep_def idle_plugins_def idle_host_def unchanged_def)

lemma demo_secret_stack [simp]:
  "secret_stack demo_snapshotter (demo_object g) (demo_stack snap None)"
  "secret_stack demo_snapshotter (demo_object g) (demo_stack snap (Some (demo_handle v d g')))"
  by (simp_all add: secret_stack_def handle_option_for_def)

lemma demo_load:
  "LoadStack (demo_backend (Inr 7)) no_secrets \<lparr>pc_Host = idle_host\<rparr> demo_project (demo_object 3) =
     Inr (demo_stack None None)"
  by (simp add: LoadStack_def GetSnapshot_def getSnapshot_def mem_Get_def no_secrets_def demo_stack_def)

lemma demo_attempts: "save_attempts (demo_trace err) = [(Some (plain_snapshot [''a'']), err)]"
  by (simp add: demo_trace_def)

theorem stack_in_step_witness:
  "in_step plain_codec (demo_object 3) (os_stack demo_result)"
  using stack_in_step [where cur = mem_cur and past = mem_past, OF _ _ demo_load [unfolded demo_backend_def] _ _ leaves_Returns [OF demo_run]]
  by (simp add: in_step_def)

theorem operation_persists_witness:
  "stored_as plain_codec mem_cur (os_world demo_result) (demo_object 3) (os_stack demo_result)
     (Some (plain_snapshot [''a'']))"
  using operation_persists [where cur = mem_cur and past = mem_past and sn = demo_snapshotter, OF _ _ leaves_Returns [OF demo_run]]
  by (simp add: demo_attempts)

theorem operation_resumed_witness:
  "\<exists>s2. LoadStack (demo_backend (Inr 7)) (os_world demo_result) \<lparr>pc_Host = idle_host\<rparr> demo_project (demo_object 4) = Inr s2 \<and>
     ks_snap s2 = Some (plain_snapshot [''a''])"
proof -
  have "mem_Get (os_world demo_result) demo_name = Inr (the (mem_cur (os_world demo_result) demo_name))"
    by (simp add: demo_result_def mem_Get_def mem_cur_def)
  then show ?thesis
    using operation_resumed [where cur = mem_cur and past = mem_past and sn = demo_snapshotter and
        obj' = "demo_object 4" and ?w2.0 = "os_world demo_result" and
        ctx = "\<lparr>pc_Host = idle_host\<rparr>" and proj = demo_project, OF _ _ leaves_Returns [OF demo_run]]
    by (simp add: demo_attempts split: sum.splits)
qed

text \<open>A stack that holds version \<^verbatim>\<open>v\<close> while \<^verbatim>\<open>vv\<close> is stored.\<close>

definition outdated_world :: mem where
  "outdated_world = no_secrets(demo_name := [demo_secret ''vv'' [] 3])"

definition outdated_stack :: "(mem, secretSnapshotHandle) kubeStack" where
  "outdated_stack = demo_stack (Some (plain_snapshot [])) (Some (demo_handle ''v'' [] 3))"

lemma outdated_secret_stack [simp]: "secret_stack demo_snapshotter (demo_object 5) outdated_stack"
  by (simp add: outdated_stack_def)

lemma outdated_simps [simp]:
  "\<not> current mem_cur outdated_world (demo_object 5) (held_secret outdated_stack)"
  "ks_ctx outdated_stack = \<lparr>pc_Host = idle_host\<rparr>" "ks_snap outdated_stack = Some (plain_snapshot [])"
  "sm_Decrypter (db_secretsManager (ks_b outdated_stack)) = Inr 7"
  by (simp_all add: outdated_stack_def current_def outdated_world_def mem_cur_def demo_handle_def)

lemma outdated_save:
  "Save outdated_world outdated_stack (demo_object 5) (Some (plain_snapshot [])) =
     (outdated_world, demo_stack (Some (plain_snapshot []))
        (Some \<lparr>sh_objectGeneration = 5, sh_secret = Some (demo_secret ''v'' [] 3)\<rparr>),
      Some (Wrapped ''update checkpoint'' conflict))"
  by (simp add: Save_def outdated_world_def outdated_stack_def demo_conflict)

lemma outdated_run:
  "\<exists>st tr result. stack_operation idle_plugins demo_engine (saving_op []) outdated_world outdated_stack
     (demo_object 5) demo_opts (NewStackChanges False) = Returns (st, tr, result) \<and>
     os_world st = outdated_world \<and>
     save_attempts tr = [(Some (plain_snapshot []), Some (Wrapped ''update checkpoint'' conflict))]"
  by (simp add: stack_operation_def newUpdate_def getTarget_def kube_run_def runEngineAction_def saving_op_def
      outdated_save os_host_def)

theorem stale_stack_writes_nothing_witness:
  "\<exists>st tr result. stack_operation idle_plugins demo_engine (saving_op []) outdated_world outdated_stack
     (demo_object 5) demo_opts (NewStackChanges False) = Returns (st, tr, result) \<and>
     mem_cur (os_world st) = mem_cur outdated_world \<and> ks_snap (os_stack st) = Some (plain_snapshot [])"
proof -
  obtain st tr result where run: "stack_operation idle_plugins demo_engine (saving_op []) outdated_world
      outdated_stack (demo_object 5) demo_opts (NewStackChanges False) = Returns (st, tr, result)"
    using outdated_run by blast
  from stale_stack_writes_nothing [where cur = mem_cur and past = mem_past and sn = demo_snapshotter, OF _ _ _ leaves_Returns [OF this]] run
  show ?thesis by simp
qed

text \<open>An engine that saves only when its snapshot manager is closed.\<close>

definition late_engine :: "mem engine_lib" where
  "late_engine = demo_engine\<lparr>el_Update := (\<lambda>upd base dryRun.
     Result (([''create'' \<mapsto> 1], None), Call (SaveSnapshot (Some (plain_snapshot [''a'']))) (\<lambda>_. Result None)))\<rparr>"


end
