(* ===== verification/Protocol.thy ===== *)
theory Protocol
  imports StackStore
begin

text \<open>
  Several controllers at once. Any number of workers (replicas of a manager, or workers of one) load
  stacks, save snapshots and drop their stacks, in any order, over one API server whose reads may be out
  of date. The step relation interleaves \<^verbatim>\<open>LoadStack\<close> and \<^verbatim>\<open>Save\<close>; whatever else the engine does in
  between is not visible to the store.
\<close>

section \<open>The step relation\<close>

text \<open>
  The world, and for each worker the object it reconciles as it has it in memory and its stack. The
  object in memory can be replaced by a later state of the same object (its status is written during a
  reconciliation, and the reply of the server fills it in).
\<close>

type_synonym 'w workers = "nat \<rightharpoonup> object_meta \<times> ('w, secretSnapshotHandle) kubeStack"

inductive protocol_step :: "('w, 'c) secretSnapshotter \<Rightarrow> 'w \<times> 'w workers \<Rightarrow> 'w \<times> 'w workers \<Rightarrow> bool"
  for sn where
  load: "LoadStack (NewDefaultBackend (NewSecretSnapshotter sn) sm p) w ctx proj obj = Inr s \<Longrightarrow>
     protocol_step sn (w, R) (w, R(i \<mapsto> (obj, s)))"
| save: "R i = Some (obj, s) \<Longrightarrow> Save w s obj snap = (w', s', err) \<Longrightarrow>
     protocol_step sn (w, R) (w', R(i \<mapsto> (obj, s')))"
| reread: "R i = Some (obj, s) \<Longrightarrow> newStackReferenceForObject obj' = newStackReferenceForObject obj \<Longrightarrow>
     sint (om_Generation obj) \<le> sint (om_Generation obj') \<Longrightarrow>
     protocol_step sn (w, R) (w, R(i \<mapsto> (obj', s)))"
| drop: "protocol_step sn (w, R) (w, R(i := None))"

inductive protocol_run :: "('w, 'c) secretSnapshotter \<Rightarrow> 'w \<times> 'w workers \<Rightarrow> 'w \<times> 'w workers \<Rightarrow> bool"
  for sn where
  start: "protocol_run sn c c"
| step: "protocol_run sn c c' \<Longrightarrow> protocol_step sn c' c'' \<Longrightarrow> protocol_run sn c c''"

inductive_simps protocol_step_simps: "protocol_step sn (w, R) (w', R')"

lemma protocol_step_cases:
  assumes "protocol_step sn (w, R) (w', R')"
  obtains (load) sm p ctx proj obj s i where "w' = w" "R' = R(i \<mapsto> (obj, s))"
      "LoadStack (NewDefaultBackend (NewSecretSnapshotter sn) sm p) w ctx proj obj = Inr s"
  | (save) i obj s snap s' err where "R' = R(i \<mapsto> (obj, s'))" "R i = Some (obj, s)"
      "Save w s obj snap = (w', s', err)"
  | (reread) i obj s obj' where "w' = w" "R' = R(i \<mapsto> (obj', s))" "R i = Some (obj, s)"
      "newStackReferenceForObject obj' = newStackReferenceForObject obj"
      "sint (om_Generation obj) \<le> sint (om_Generation obj')"
  | (drop) i where "w' = w" "R' = R(i := None)"
  using assms unfolding protocol_step_simps by blast

section \<open>The invariant\<close>

definition generation_of :: "secret \<Rightarrow> int64 option" where
  "generation_of sec = ParseInt (bytes_at (sec_Data sec) ''generation'')"

definition stored_generation :: "('w \<Rightarrow> namespaced_name \<rightharpoonup> secret) \<Rightarrow> 'w \<Rightarrow> namespaced_name \<Rightarrow> int64 option" where
  "stored_generation cur w n = Option.bind (cur w n) generation_of"

text \<open>The store is coherent: what is stored is among the past versions, which have distinct resource versions.\<close>

definition coherent :: "('w \<Rightarrow> namespaced_name \<rightharpoonup> secret) \<Rightarrow> ('w \<Rightarrow> namespaced_name \<Rightarrow> secret set) \<Rightarrow> 'w \<Rightarrow> bool" where
  "coherent cur past w \<longleftrightarrow>
     (\<forall>n c. cur w n = Some c \<longrightarrow> c \<in> past w n) \<and> (\<forall>n. inj_on sec_ResourceVersion (past w n))"

text \<open>A worker's stack is in step and what it holds was once stored, for no later generation than its object's.\<close>

definition worker_ok :: "('w, 'c) secretSnapshotter \<Rightarrow> ('w \<Rightarrow> namespaced_name \<Rightarrow> secret set) \<Rightarrow> 'w \<Rightarrow>
    object_meta \<Rightarrow> ('w, secretSnapshotHandle) kubeStack \<Rightarrow> bool" where
  "worker_ok sn past w obj s \<longleftrightarrow>
     secret_stack sn obj s \<and> in_step (sn_Codec sn) obj s \<and>
     (\<forall>sec. held_secret s = Some sec \<longrightarrow> sec \<in> past w (secret_name obj) \<and>
        (\<exists>g. generation_of sec = Some g \<and> sint g \<le> sint (om_Generation obj)))"

definition protocol_inv :: "('w, 'c) secretSnapshotter \<Rightarrow> ('w \<Rightarrow> namespaced_name \<rightharpoonup> secret) \<Rightarrow>
    ('w \<Rightarrow> namespaced_name \<Rightarrow> secret set) \<Rightarrow> 'w \<times> 'w workers \<Rightarrow> bool" where
  "protocol_inv sn cur past c \<longleftrightarrow>
     (case c of (w, R) \<Rightarrow> coherent cur past w \<and> (\<forall>i obj s. R i = Some (obj, s) \<longrightarrow> worker_ok sn past w obj s))"

lemma protocol_invD:
  assumes "protocol_inv sn cur past (w, R)"
  shows "coherent cur past w" and "R i = Some (obj, s) \<Longrightarrow> worker_ok sn past w obj s"
  using assms by (auto simp: protocol_inv_def)

text \<open>A loaded stack.\<close>

lemma loaded_worker_ok:
  assumes api: "api_contract (sn_Client sn) cur past"
    and load: "LoadStack (NewDefaultBackend (NewSecretSnapshotter sn) sm p) w ctx proj obj = Inr s"
  shows "worker_ok sn past w obj s"
  using load
proof (cases rule: LoadStack_cases)
  case fresh
  with loaded_in_step [OF api load] show ?thesis by (simp add: worker_ok_def)
next
  case (found sec snap g)
  with loaded_in_step [OF api load] api_get [OF api found(4)] show ?thesis
    by (simp add: worker_ok_def generation_of_def)
qed

text \<open>What a save does to the store and to a worker.\<close>

lemma worker_ok_mono:
  "worker_ok sn past w obj s \<Longrightarrow> (\<And>n. past w n \<subseteq> past w' n) \<Longrightarrow> worker_ok sn past w' obj s"
  unfolding worker_ok_def by blast

lemma coherent_replaced: "replaced cur past w obj sec w' \<Longrightarrow> coherent cur past w \<Longrightarrow> coherent cur past w'"
  by (auto simp: replaced_def coherent_def inj_on_def split: if_splits)

lemma past_replaced: "replaced cur past w obj sec w' \<Longrightarrow> past w n \<subseteq> past w' n"
  by (auto simp: replaced_def)

lemma Save_worker:
  assumes "codec_contract (sn_Codec sn)" "api_contract (sn_Client sn) cur past" "worker_ok sn past w obj s"
    and "coherent cur past w" and "Save w s obj snap = (w', s', err)"
  obtains "worker_ok sn past w' obj s'" "coherent cur past w'" "unchanged cur past w w'"
  | sec where "worker_ok sn past w' obj s'" "coherent cur past w'" "replaced cur past w obj sec w'"
      "cur w (secret_name obj) = held_secret s"
proof -
  have st: "secret_stack sn obj s" "in_step (sn_Codec sn) obj s" using assms(3) by (simp_all add: worker_ok_def)
  have same: "cur w (secret_name obj) = held_secret s" if "current cur w obj (held_secret s)"
  proof (cases "held_secret s")
    case (Some old)
    with that obtain c where c: "cur w (secret_name obj) = Some c" "sec_ResourceVersion c = sec_ResourceVersion old"
      by (auto simp: current_iff)
    with assms(3,4) Some have "c \<in> past w (secret_name obj)" "old \<in> past w (secret_name obj)"
      "inj_on sec_ResourceVersion (past w (secret_name obj))"
      by (auto simp: worker_ok_def coherent_def)
    with c(2) have "c = old" by (auto dest: inj_onD)
    with c Some show ?thesis by simp
  qed (use that in \<open>simp add: current_iff\<close>)
  show thesis
    using assms(1,2) st(1) assms(5)
  proof (cases rule: Save_outcomes)
    case (saved sec)
    then have "worker_ok sn past w' obj s'"
      by (auto simp: worker_ok_def generation_of_def replaced_def intro: in_step_saved [of _ sec])
    moreover have "coherent cur past w'" by (rule coherent_replaced [OF saved(7) assms(4)])
    ultimately show thesis using that(2) same saved by blast
  next
    case (failed e)
    have ok: "worker_ok sn past w' obj s'" if "\<And>n. past w n \<subseteq> past w' n"
      using worker_ok_mono [OF assms(3) that] failed in_step_failed [OF failed(2,3,5) st(2)]
      by (simp add: worker_ok_def)
    from failed(8) show thesis
    proof (elim disjE conjE exE)
      assume u: "unchanged cur past w w'"
      with assms(4) ok show thesis by (intro that(1)) (auto simp: unchanged_def coherent_def)
    next
      fix sec
      assume "current cur w obj (held_secret s)" and r: "replaced cur past w obj sec w'"
      then show thesis
        using same ok past_replaced [OF r] coherent_replaced [OF r assms(4)] by (intro that(2)) blast+
    qed
  qed
qed

section \<open>Every interleaving\<close>

lemma worker_ok_reread:
  assumes "worker_ok sn past w obj s" and "newStackReferenceForObject obj' = newStackReferenceForObject obj"
    and "sint (om_Generation obj) \<le> sint (om_Generation obj')"
  shows "worker_ok sn past w obj' s"
  using assms
  by (auto simp: worker_ok_def secret_stack_def handle_option_for_def handle_for_def in_step_def
      split: option.splits intro: order_trans)

text \<open>
  One step keeps the invariant and either leaves the store as it was or is a worker's replacement of the
  very version that the worker holds.
\<close>

lemma protocol_step_effect:
  assumes codec: "codec_contract (sn_Codec sn)" and api: "api_contract (sn_Client sn) cur past"
    and step: "protocol_step sn (w, R) (w', R')" and inv: "protocol_inv sn cur past (w, R)"
  shows "protocol_inv sn cur past (w', R') \<and>
    (unchanged cur past w w' \<or>
     (\<exists>i obj s sec. R i = Some (obj, s) \<and> replaced cur past w obj sec w' \<and>
        cur w (secret_name obj) = held_secret s))"
  using step
proof (cases rule: protocol_step_cases)
  case (load sm p ctx proj obj s i)
  then show ?thesis
    using inv loaded_worker_ok [OF api load(3)] by (auto simp: protocol_inv_def unchanged_def)
next
  case (save i obj s snap s' err)
  have ok: "worker_ok sn past w obj s" "coherent cur past w"
    using protocol_invD [OF inv] save(2) by blast+
  have others: "protocol_inv sn cur past (w', R')"
    if "worker_ok sn past w' obj s'" "coherent cur past w'" "\<And>n. past w n \<subseteq> past w' n"
  proof -
    have "worker_ok sn past w' ob t" if "R j = Some (ob, t)" for j ob t
      by (rule worker_ok_mono [OF protocol_invD(2) [OF inv that]]) (rule \<open>\<And>n. past w n \<subseteq> past w' n\<close>)
    then show ?thesis
      using that(1,2) by (simp add: protocol_inv_def save(1))
  qed
  from codec api ok save(3) show ?thesis
  proof (cases rule: Save_worker)
    case 1
    then show ?thesis by (auto simp: unchanged_def intro!: others)
  next
    case (2 sec)
    then show ?thesis using others past_replaced [OF 2(3)] save(2) by blast
  qed
next
  case (reread i obj s obj')
  then show ?thesis
    using inv worker_ok_reread [OF protocol_invD(2) [OF inv reread(3)] reread(4,5)]
    by (auto simp: protocol_inv_def unchanged_def)
next
  case (drop i)
  then show ?thesis using inv by (auto simp: protocol_inv_def unchanged_def)
qed

lemma protocol_run_inv:
  assumes "codec_contract (sn_Codec sn)" and "api_contract (sn_Client sn) cur past"
  shows "protocol_run sn c c' \<Longrightarrow> protocol_inv sn cur past c \<Longrightarrow> protocol_inv sn cur past c'"
proof (induction rule: protocol_run.induct)
  case (step c c' c'')
  then show ?case using protocol_step_effect [OF assms] by (cases c'; cases c'') blast
qed

lemma protocol_inv_start: "coherent cur past w \<Longrightarrow> protocol_inv sn cur past (w, Map.empty)"
  by (simp add: protocol_inv_def)

lemma step_generation:
  assumes "codec_contract (sn_Codec sn)" and "api_contract (sn_Client sn) cur past"
    and "protocol_step sn (w, R) (w', R')" and inv: "protocol_inv sn cur past (w, R)"
    and g: "stored_generation cur w n = Some g"
  shows "\<exists>g'. stored_generation cur w' n = Some g' \<and> sint g \<le> sint g'"
proof -
  consider "unchanged cur past w w'" | i obj s sec where "R i = Some (obj, s)" "replaced cur past w obj sec w'"
    "cur w (secret_name obj) = held_secret s"
    using protocol_step_effect [OF assms(1-4)] by blast
  then show ?thesis
  proof cases
    case 1
    with g show ?thesis by (simp add: unchanged_def stored_generation_def)
  next
    case 2
    show ?thesis
    proof (cases "n = secret_name obj")
      case True
      with 2 g obtain old where "held_secret s = Some old" "generation_of old = Some g"
        by (cases "held_secret s") (auto simp: stored_generation_def)
      with protocol_invD(2) [OF inv 2(1)] have "sint g \<le> sint (om_Generation obj)"
        by (auto simp: worker_ok_def)
      with 2(2) True show ?thesis
        by (simp add: replaced_def stored_generation_def generation_of_def)
    next
      case False
      with 2 g show ?thesis by (simp add: replaced_def stored_generation_def)
    qed
  qed
qed

section \<open>Properties\<close>

text \<open>
  C1. The stored generation never goes back. Whatever any number of controllers do, in any order, over a
  store whose reads may be out of date, the generation recorded with an object's snapshot never
  decreases: a controller that still has an older state of the object in its cache cannot replace the
  snapshot made for a newer one. This is what the generation check and the optimistic concurrency
  of the secret are for.
\<close>

theorem stored_generation_monotone:
  assumes "codec_contract (sn_Codec sn)" and "api_contract (sn_Client sn) cur past"
    and "coherent cur past w0" and "protocol_run sn (w0, Map.empty) (w, R)" and "protocol_run sn (w, R) (w', R')"
    and "stored_generation cur w n = Some g"
  shows "\<exists>g'. stored_generation cur w' n = Some g' \<and> sint g \<le> sint g'"
proof -
  have inv: "protocol_inv sn cur past (w, R)"
    by (rule protocol_run_inv [OF assms(1,2,4) protocol_inv_start [OF assms(3)]])
  have "protocol_inv sn cur past c' \<and> (\<exists>g'. stored_generation cur (fst c') n = Some g' \<and> sint g \<le> sint g')"
    if "protocol_run sn c c'" "c = (w, R)" for c c'
    using that
  proof (induction rule: protocol_run.induct)
    case (start c)
    with inv assms(6) show ?case by auto
  next
    case (step c c' c'')
    obtain w1 R1 w2 R2 where c: "c' = (w1, R1)" "c'' = (w2, R2)" by (cases c'; cases c'')
    with step obtain g1 where "protocol_inv sn cur past (w1, R1)"
      "stored_generation cur w1 n = Some g1" "sint g \<le> sint g1" by auto
    with step.hyps(2) c step_generation [OF assms(1,2), of w1 R1 w2 R2 n g1]
      protocol_step_effect [OF assms(1,2), of w1 R1 w2 R2]
    show ?case by fastforce
  qed
  from this [OF assms(5) refl] show ?thesis by simp
qed

text \<open>
  C2. No update is lost, whatever the interleaving: after any run of any number of controllers, a save
  that changes the store replaces exactly the snapshot that the saving stack has in memory (what was
  stored decodes to it, and nothing was stored if it has none). So a controller never overwrites a
  snapshot that it has not seen.
\<close>

theorem save_replaces_what_it_saw:
  assumes "codec_contract (sn_Codec sn)" and "api_contract (sn_Client sn) cur past"
    and "coherent cur past w0" and "protocol_run sn (w0, Map.empty) (w, R)"
    and "R i = Some (obj, s)" and "Save w s obj snap = (w', s', err)" and "cur w' \<noteq> cur w"
  shows "case cur w (secret_name obj) of None \<Rightarrow> ks_snap s = None
    | Some sec \<Rightarrow> decodes (sn_Codec sn) sec (ks_snap s)"
proof -
  have "protocol_inv sn cur past (w, R)"
    by (rule protocol_run_inv [OF assms(1,2,4) protocol_inv_start [OF assms(3)]])
  from protocol_invD [OF this] assms(5) have ok: "worker_ok sn past w obj s" "coherent cur past w" by blast+
  from assms(1,2) ok assms(6) have "cur w (secret_name obj) = held_secret s"
    by (cases rule: Save_worker) (use assms(7) in \<open>auto simp: unchanged_def\<close>)
  with ok(1) show ?thesis
    by (auto simp: worker_ok_def in_step_def split: option.splits)
qed

section \<open>A concrete run\<close>

text \<open>A worker loads the stack of a new object and saves a snapshot for it.\<close>

definition demo_run_start :: "mem \<times> mem workers" where
  "demo_run_start = (no_secrets, Map.empty)"

definition first_save :: "mem \<times> mem workers" where
  "first_save =
     (os_world demo_result,
      [1 \<mapsto> (demo_object 3, demo_stack (Some (plain_snapshot [''a''])) (Some (demo_handle ''v'' (join_lines [''a'']) 3)))])"

lemma demo_first_save: "protocol_run demo_snapshotter demo_run_start first_save"
proof -
  have "protocol_run demo_snapshotter demo_run_start (no_secrets, [1 \<mapsto> (demo_object 3, demo_stack None None)])"
    using protocol_run.step [OF protocol_run.start protocol_step.load [OF demo_load [unfolded demo_backend_def], of Map.empty 1]]
    by (simp add: demo_run_start_def)
  moreover have "Save no_secrets (demo_stack None None) (demo_object 3) (Some (plain_snapshot [''a''])) =
      (os_world demo_result,
       demo_stack (Some (plain_snapshot [''a''])) (Some (demo_handle ''v'' (join_lines [''a'']) 3)), None)"
    by (simp add: Save_def demo_save demo_result_def)
  from protocol_step.save [OF _ this, of "[1 \<mapsto> (demo_object 3, demo_stack None None)]" 1]
  have "protocol_step demo_snapshotter (no_secrets, [1 \<mapsto> (demo_object 3, demo_stack None None)]) first_save"
    by (simp add: first_save_def)
  ultimately show ?thesis by (rule protocol_run.step)
qed

lemma no_secrets_coherent [simp]: "coherent mem_cur mem_past no_secrets"
  by (simp add: coherent_def mem_cur_def mem_past_def no_secrets_def)

lemma demo_services_parts [simp]:
  "codec_contract (sn_Codec demo_snapshotter)" "api_contract (sn_Client demo_snapshotter) mem_cur mem_past"
  by simp_all

theorem stored_generation_monotone_witness:
  "\<exists>g'. stored_generation mem_cur (fst first_save) demo_name = Some g' \<and> 3 \<le> sint g'"
proof -
  have "stored_generation mem_cur (fst first_save) demo_name = Some 3"
    by (simp add: stored_generation_def first_save_def demo_result_def mem_cur_def generation_of_def)
  with stored_generation_monotone [OF demo_services_parts no_secrets_coherent, of "fst first_save" "snd first_save"
      "fst first_save" "snd first_save" demo_name 3] demo_first_save protocol_run.start
  show ?thesis by (simp add: demo_run_start_def)
qed

theorem save_replaces_what_it_saw_witness:
  "decodes plain_codec (demo_secret ''v'' (join_lines [''a'']) 3) (Some (plain_snapshot [''a'']))"
proof -
  let ?s = "demo_stack (Some (plain_snapshot [''a''])) (Some (demo_handle ''v'' (join_lines [''a'']) 3))"
  let ?w = "no_secrets(demo_name := [demo_secret ''vv'' [] 3, demo_secret ''v'' (join_lines [''a'']) 3])"
  have "Save (fst first_save) ?s (demo_object 3) (Some (plain_snapshot [])) =
      (?w, demo_stack (Some (plain_snapshot [])) (Some (demo_handle ''vv'' [] 3)), None)"
    using demo_update [of "[]" "join_lines [''a'']" 3 3]
    by (simp add: Save_def first_save_def demo_result_def join_lines_def)
  moreover have "mem_cur (fst first_save) demo_name = Some (demo_secret ''v'' (join_lines [''a'']) 3)"
    by (simp add: first_save_def demo_result_def mem_cur_def)
  moreover have "mem_cur ?w demo_name = Some (demo_secret ''vv'' [] 3)" by (simp add: mem_cur_def)
  moreover have "demo_secret ''v'' (join_lines [''a'']) 3 \<noteq> demo_secret ''vv'' [] 3"
    by (simp add: demo_secret_def)
  ultimately show ?thesis
    using save_replaces_what_it_saw [OF demo_services_parts no_secrets_coherent, of "fst first_save" "snd first_save"
        1 "demo_object 3" ?s "Some (plain_snapshot [])"] demo_first_save
    by (force simp: demo_run_start_def first_save_def)
qed

end
