(* ===== verification/Reconciler.thy ===== *)
theory Reconciler
  imports Stack
begin

text \<open>
  The reconciler (pkg/reconcile/reconciler.go): one call of \<^verbatim>\<open>ReconcileObject\<close> drives an object's stack
  towards the object. The model keeps every action of a reconciliation that is visible outside in a
  trace, in order, beside the result that controller-runtime gets.
\<close>

section \<open>State\<close>

text \<open>
  The outside services of a reconciler: \<^verbatim>\<open>controllerutil\<close>, the text of \<^verbatim>\<open>json.Marshal\<close>, the plugins and the
  engine. A write of the object fills the object in place with the server's reply.
\<close>

record ('w, 'o) reconcile_lib =
  rl_Finalizers :: "'o finalizer_ops"
  rl_Marshal :: "'o \<Rightarrow> go_error + string"
  rl_Plugins :: "'w plugin_ops"
  rl_Engine :: "'w engine_lib"

record ('w, 'h, 'o) PulumiReconciler =
  r_Update :: "'w \<Rightarrow> 'o \<Rightarrow> 'w \<times> 'o \<times> go_error option"
  r_FinalizerName :: string
  r_createPluginContext :: "'w \<Rightarrow> 'w \<times> (go_error + 'w plugin_context)"
  r_backend :: "('w, 'h) defaultBackend"
  r_hostContext :: "'w plugin_context option"
  r_proj :: project

record ('w, 'o) ReconcileOptions =
  opt_StackConfig :: "config_map option"
  opt_UpdateStatus :: "'w \<Rightarrow> 'o \<Rightarrow> stack_changes \<Rightarrow> 'w \<times> 'o \<times> go_error option"

record reconcile_result =
  Requeue :: bool

type_synonym reconcile_return = "reconcile_result \<times> go_error option"

text \<open>
  The actions: a write of the object, the start of a plugin context, the load of the stack, the
  serialisation of the object, an engine operation (its kind, the dry-run flag, the object as it was then,
  the engine's calls, the result), one that panics (with the message for the result), a call of the status
  callback, and the closing of the stack.
\<close>

datatype operation_kind = OpUpdate | OpDestroy

datatype action =
    ActWriteObject object_meta "go_error option"
  | ActContext "go_error option"
  | ActLoad "go_error option"
  | ActMarshal "go_error option"
  | ActOperation operation_kind bool object_meta call_trace engine_result
  | ActPanic operation_kind bool object_meta call_trace string
  | ActStatus stack_changes "go_error option"
  | ActClose

record ('w, 'h, 'o) rec_state =
  rc_world :: 'w
  rc_obj :: 'o
  rc_stack :: "('w, 'h) kubeStack option"
  rc_trace :: "action list"

text \<open>A panic unwinds the reconciliation in the state it has then.\<close>

type_synonym ('w, 'h, 'o, 'a) rec_run = "(('w, 'h, 'o) rec_state, ('w, 'h, 'o) rec_state \<times> 'a) unwinding"

definition logged :: "('w, 'h, 'o) rec_state \<Rightarrow> action \<Rightarrow> ('w, 'h, 'o) rec_state" where
  "logged st a = st\<lparr>rc_trace := rc_trace st @ [a]\<rparr>"

section \<open>Finalizers\<close>

definition write_object :: "('w, 'h, 'b object_meta_scheme) PulumiReconciler \<Rightarrow>
    ('w, 'h, 'b object_meta_scheme) rec_state \<Rightarrow> 'b object_meta_scheme \<Rightarrow>
    ('w, 'h, 'b object_meta_scheme) rec_state \<times> go_error option" where
  "write_object r st obj =
     (case r_Update r (rc_world st) obj of
        (w', obj', err) \<Rightarrow>
          (logged (st\<lparr>rc_world := w', rc_obj := obj'\<rparr>) (ActWriteObject (meta_of obj) err), err))"

definition add_finalizer :: "('w, 'b object_meta_scheme) reconcile_lib \<Rightarrow>
    ('w, 'h, 'b object_meta_scheme) PulumiReconciler \<Rightarrow> ('w, 'h, 'b object_meta_scheme) rec_state \<Rightarrow>
    ('w, 'h, 'b object_meta_scheme) rec_state \<times> go_error option" where
  "add_finalizer L r st =
     (if om_DeletionTimestamp (rc_obj st) = None then
        (if \<not> fin_Contains (rl_Finalizers L) (rc_obj st) (r_FinalizerName r)
         then write_object r st (fin_Add (rl_Finalizers L) (rc_obj st) (r_FinalizerName r))
         else (st, None))
      else (st, None))"

text \<open>The end of a reconciliation that got that far: the finalizer of a deleted object is removed.\<close>

definition finish :: "('w, 'b object_meta_scheme) reconcile_lib \<Rightarrow>
    ('w, 'h, 'b object_meta_scheme) PulumiReconciler \<Rightarrow> ('w, 'h, 'b object_meta_scheme) rec_state \<Rightarrow> bool \<Rightarrow>
    ('w, 'h, 'b object_meta_scheme) rec_state \<times> reconcile_return" where
  "finish L r st requeue =
     (if om_DeletionTimestamp (rc_obj st) \<noteq> None then
        (if fin_Contains (rl_Finalizers L) (rc_obj st) (r_FinalizerName r)
         then (case write_object r st (fin_Remove (rl_Finalizers L) (rc_obj st) (r_FinalizerName r)) of
                 (st', Some err) \<Rightarrow> (st', (\<lparr>Requeue = False\<rparr>, Some err))
               | (st', None) \<Rightarrow> (st', (\<lparr>Requeue = False\<rparr>, None)))
         else (st, (\<lparr>Requeue = requeue\<rparr>, None)))
      else (st, (\<lparr>Requeue = requeue\<rparr>, None)))"

section \<open>The stack of an object\<close>

text \<open>
  \<^verbatim>\<open>getOrCreateStack\<close> in its two parts, the write of the reconciler's field \<^verbatim>\<open>hostContext\<close> and the load that
  reads it back, since the reconciler is shared by all workers of a controller.
\<close>

definition store_context :: "('w, 'h, 'o) PulumiReconciler \<Rightarrow> 'w \<Rightarrow>
    ('w \<times> ('w, 'h, 'o) PulumiReconciler) \<times> go_error option" where
  "store_context r w =
     (case r_createPluginContext r w of
        (w', Inl err) \<Rightarrow> ((w', r), Some (Wrapped ''unable to crate a Pulumi plugin context'' err))
      | (w', Inr hostCtx) \<Rightarrow> ((w', r\<lparr>r_hostContext := Some hostCtx\<rparr>), None))"

definition load_with_context :: "('w, 'h, 'o) PulumiReconciler \<Rightarrow> 'w \<Rightarrow> object_meta \<Rightarrow>
    go_error + ('w, 'h) kubeStack option" where
  "load_with_context r w obj =
     (case r_hostContext r of
        None \<Rightarrow> Inr None
      | Some ctx \<Rightarrow>
          (case LoadStack (r_backend r) w ctx (r_proj r) obj of Inl err \<Rightarrow> Inl err | Inr stack \<Rightarrow> Inr (Some stack)))"

text \<open>
  The whole of it, without another worker in between: the field is set when it is read, and nothing else
  reads it. The trace records the context and the load.
\<close>

definition getOrCreateStack :: "('w, 'h, 'b object_meta_scheme) PulumiReconciler \<Rightarrow>
    ('w, 'h, 'b object_meta_scheme) rec_state \<Rightarrow>
    ('w, 'h, 'b object_meta_scheme) rec_state \<times> go_error option" where
  "getOrCreateStack r st =
     (case store_context r (rc_world st) of
        ((w', r'), Some err) \<Rightarrow> (logged (st\<lparr>rc_world := w'\<rparr>) (ActContext (Some err)), Some err)
      | ((w', r'), None) \<Rightarrow>
          (let st1 = logged (st\<lparr>rc_world := w'\<rparr>) (ActContext None) in
           case load_with_context r' w' (meta_of (rc_obj st)) of
             Inl err \<Rightarrow> (logged st1 (ActLoad (Some err)), Some err)
           | Inr stack \<Rightarrow> (logged (st1\<lparr>rc_stack := stack\<rparr>) (ActLoad None), None)))"

section \<open>Preview and deployment\<close>

text \<open>
  \<^verbatim>\<open>updateFunc\<close>: the operation is chosen by the object's deletion timestamp at the time of the call. Its
  handler accumulates into a fresh \<^verbatim>\<open>StackChanges\<close>.
\<close>

definition updateFunc :: "('w, 'b object_meta_scheme) reconcile_lib \<Rightarrow> config_map \<Rightarrow>
    ('w, 'h, 'b object_meta_scheme) rec_state \<Rightarrow> ('w, 'h) kubeStack \<Rightarrow> bool \<Rightarrow>
    ('w, 'h, 'b object_meta_scheme, stack_changes drainer \<times> engine_result) rec_run" where
  "updateFunc L cfg st stack dryRun =
     (let obj = meta_of (rc_obj st);
          kind = (if om_DeletionTimestamp obj = None then OpUpdate else OpDestroy);
          h = EngineEvent (el_HasChanges (rl_Engine L));
          so = \<lparr>so_DryRun = dryRun, so_Config = Some cfg, so_EventHandler = Some h\<rparr>
      in case (if om_DeletionTimestamp obj = None
               then Update (rl_Plugins L) (rl_Engine L) (rc_world st) stack obj so (NewStackChanges dryRun)
               else Destroy (rl_Plugins L) (rl_Engine L) (rc_world st) stack obj so (NewStackChanges dryRun)) of
           Panics (os, tr, m) \<Rightarrow>
             Panics (logged (st\<lparr>rc_world := os_world os, rc_stack := Some (os_stack os)\<rparr>)
                       (ActPanic kind dryRun obj tr m), m)
         | Returns (os, tr, result) \<Rightarrow>
             Returns (logged (st\<lparr>rc_world := os_world os, rc_stack := Some (os_stack os)\<rparr>)
                        (ActOperation kind dryRun obj tr result), os_events os, result))"

definition updateStatusFunc :: "('w, 'b object_meta_scheme) ReconcileOptions \<Rightarrow>
    ('w, 'h, 'b object_meta_scheme) rec_state \<Rightarrow> stack_changes \<Rightarrow>
    ('w, 'h, 'b object_meta_scheme) rec_state \<times> go_error option" where
  "updateStatusFunc opts st chg =
     (case opt_UpdateStatus opts (rc_world st) (rc_obj st) chg of
        (w', obj', err) \<Rightarrow> (logged (st\<lparr>rc_world := w', rc_obj := obj'\<rparr>) (ActStatus chg err), err))"

text \<open>What \<^verbatim>\<open>ReconcileObject\<close> returns for a result that is an error or a bail; otherwise it goes on.\<close>

definition failed_result :: "op_result option \<Rightarrow> reconcile_return option" where
  "failed_result res =
     (case res of
        None \<Rightarrow> None
      | Some r \<Rightarrow>
          (if res_Error r \<noteq> None then Some (\<lparr>Requeue = False\<rparr>, res_Error r)
           else if res_IsBail r then Some (\<lparr>Requeue = True\<rparr>, None)
           else None))"

text \<open>
  A preview or a deployment with its status update: it ends the reconciliation, or gives the summary of
  the changes. \<open>drained\<close> says whether the goroutine that drains the events has handled the last of them
  when the changes are read.
\<close>

definition operate :: "('w, 'b object_meta_scheme) reconcile_lib \<Rightarrow> ('w, 'b object_meta_scheme) ReconcileOptions \<Rightarrow>
    config_map \<Rightarrow> bool \<Rightarrow> bool \<Rightarrow> ('w, 'h, 'b object_meta_scheme) rec_state \<Rightarrow> ('w, 'h) kubeStack \<Rightarrow>
    ('w, 'h, 'b object_meta_scheme, reconcile_return + resource_changes) rec_run" where
  "operate L opts cfg dryRun drained st stack =
     (case updateFunc L cfg st stack dryRun of
        Panics p \<Rightarrow> Panics p
      | Returns (st1, events, (summary, res)) \<Rightarrow>
          (case failed_result res of
             Some ret \<Rightarrow> Returns (st1, Inl ret)
           | None \<Rightarrow>
               (let changes = read_handler (EngineEvent (el_HasChanges (rl_Engine L))) drained events in
                case updateStatusFunc opts st1 changes of
                  (st2, Some err) \<Rightarrow> Returns (st2, Inl (\<lparr>Requeue = True\<rparr>, None))
                | (st2, None) \<Rightarrow> Returns (st2, Inr summary))))"

text \<open>The part of \<^verbatim>\<open>ReconcileObject\<close> that runs with a stack, before the deferred \<^verbatim>\<open>stack.Close()\<close>.\<close>

definition stack_config :: "project \<Rightarrow> string \<Rightarrow> config_map" where
  "stack_config proj v = [ConfigKey (proj_Name proj) ''obj'' \<mapsto> ObjectValue v]"

definition reconcile_stack :: "('w, 'b object_meta_scheme) reconcile_lib \<Rightarrow>
    ('w, 'h, 'b object_meta_scheme) PulumiReconciler \<Rightarrow> ('w, 'b object_meta_scheme) ReconcileOptions \<Rightarrow> bool \<Rightarrow> bool \<Rightarrow>
    ('w, 'h, 'b object_meta_scheme) rec_state \<Rightarrow> ('w, 'h) kubeStack \<Rightarrow>
    ('w, 'h, 'b object_meta_scheme, reconcile_return) rec_run" where
  "reconcile_stack L r opts drained1 drained2 st stack =
     (case rl_Marshal L (rc_obj st) of
        Inl err \<Rightarrow> Returns (logged st (ActMarshal (Some err)), (\<lparr>Requeue = False\<rparr>, Some err))
      | Inr v \<Rightarrow>
          (let cfg = stack_config (r_proj r) v in
           case operate L opts cfg True drained1 (logged st (ActMarshal None)) stack of
             Panics p \<Rightarrow> Panics p
           | Returns (st1, Inl ret) \<Rightarrow> Returns (st1, ret)
           | Returns (st1, Inr previewSummary) \<Rightarrow>
               (if \<not> el_HasChanges (rl_Engine L) previewSummary then Returns (finish L r st1 False)
                else (case rc_stack st1 of
                    None \<Rightarrow> Panics (st1, ''no stack'')
                  | Some stack1 \<Rightarrow>
                      (case operate L opts cfg False drained2 st1 stack1 of
                         Panics p \<Rightarrow> Panics p
                       | Returns (st2, Inl ret) \<Rightarrow> Returns (st2, ret)
                       | Returns (st2, Inr updateSummary) \<Rightarrow> Returns (finish L r st2 True))))))"

text \<open>The deferred close, whose error is ignored; a panic runs it too, on its way to the caller.\<close>

definition close_stack :: "('w, 'b object_meta_scheme) reconcile_lib \<Rightarrow>
    ('w, 'h, 'b object_meta_scheme) rec_state \<Rightarrow> ('w, 'h, 'b object_meta_scheme) rec_state" where
  "close_stack L st =
     (case rc_stack st of
        None \<Rightarrow> st
      | Some stack \<Rightarrow>
          (case stack_Close (rl_Engine L) (rc_world st) stack of
             ((w', stack'), _) \<Rightarrow> logged (st\<lparr>rc_world := w', rc_stack := Some stack'\<rparr>) ActClose))"

definition ReconcileObject :: "('w, 'b object_meta_scheme) reconcile_lib \<Rightarrow>
    ('w, 'h, 'b object_meta_scheme) PulumiReconciler \<Rightarrow> ('w, 'b object_meta_scheme) ReconcileOptions \<Rightarrow> bool \<Rightarrow> bool \<Rightarrow>
    'w \<Rightarrow> 'b object_meta_scheme \<Rightarrow>
    ('w, 'h, 'b object_meta_scheme, reconcile_return) rec_run" where
  "ReconcileObject L r opts drained1 drained2 w obj =
     (case add_finalizer L r \<lparr>rc_world = w, rc_obj = obj, rc_stack = None, rc_trace = []\<rparr> of
        (st, Some err) \<Rightarrow> Returns (st, (\<lparr>Requeue = False\<rparr>, Some err))
      | (st, None) \<Rightarrow>
          (case getOrCreateStack r st of
             (st1, Some err) \<Rightarrow>
               Returns (st1,
                 if err = ErrSnapshotGenerationMismatch then (\<lparr>Requeue = True\<rparr>, None)
                 else (\<lparr>Requeue = False\<rparr>, Some err))
           | (st1, None) \<Rightarrow>
               (case rc_stack st1 of
                  None \<Rightarrow> Panics (st1, ''no stack'')
                | Some stack \<Rightarrow>
                    (case reconcile_stack L r opts drained1 drained2 st1 stack of
                       Panics (st2, m) \<Rightarrow> Panics (close_stack L st2, m)
                     | Returns (st2, ret) \<Rightarrow> Returns (close_stack L st2, ret)))))"

section \<open>The course of a reconciliation\<close>

lemma logged_simps [simp]:
  "rc_world (logged st a) = rc_world st" "rc_obj (logged st a) = rc_obj st"
  "rc_stack (logged st a) = rc_stack st" "rc_trace (logged st a) = rc_trace st @ [a]"
  by (simp_all add: logged_def)

text \<open>One preview or deployment, with what it adds to the trace.\<close>

lemma updateFunc_cases:
  assumes "updateFunc L cfg st stack dryRun = Returns (st', events, result)"
  obtains kind tr stack' where "kind = (if om_DeletionTimestamp (rc_obj st) = None then OpUpdate else OpDestroy)"
    "rc_trace st' = rc_trace st @ [ActOperation kind dryRun (meta_of (rc_obj st)) tr result]"
    "rc_obj st' = rc_obj st" "rc_stack st' = Some stack'"
    "\<And>b. read_handler (EngineEvent (el_HasChanges (rl_Engine L))) b events =
      foldl (EngineEvent (el_HasChanges (rl_Engine L))) (NewStackChanges dryRun)
        (if b then events_of tr else butlast (events_of tr))"
proof -
  let ?h = "EngineEvent (el_HasChanges (rl_Engine L))"
  let ?so = "\<lparr>so_DryRun = dryRun, so_Config = Some cfg, so_EventHandler = Some ?h\<rparr>"
  have handler: "handler_or_nil (so_EventHandler ?so) = ?h"
    by (simp add: fun_eq_iff handler_or_nil_def)
  from assms obtain eop os tr where op: "stack_operation (rl_Plugins L) (rl_Engine L) eop (rc_world st) stack
      (meta_of (rc_obj st)) ?so (NewStackChanges dryRun) = Returns (os, tr, result)"
    and st': "st' = logged (st\<lparr>rc_world := os_world os, rc_stack := Some (os_stack os)\<rparr>)
      (ActOperation (if om_DeletionTimestamp (rc_obj st) = None then OpUpdate else OpDestroy) dryRun
        (meta_of (rc_obj st)) tr result)" and "events = os_events os"
    unfolding updateFunc_def Let_def Update_def Destroy_def
    by (auto split: ending.splits if_splits prod.splits)
  moreover have "os_events os = foldl (send ?h) (new_drainer (NewStackChanges dryRun)) (events_of tr)"
    using operation_channel [OF op] handler by simp
  ultimately show thesis
    by (intro that [of _ tr "os_stack os"]) (simp_all add: read_handler_cases)
qed

text \<open>The status callback of a preview or deployment gets the changes accumulated from its events.\<close>

definition changes_of :: "(resource_changes \<Rightarrow> bool) \<Rightarrow> bool \<Rightarrow> bool \<Rightarrow> call_trace \<Rightarrow> stack_changes" where
  "changes_of hc dryRun drained tr =
     foldl (EngineEvent hc) (NewStackChanges dryRun) (if drained then events_of tr else butlast (events_of tr))"

definition operation_of :: "object_meta \<Rightarrow> operation_kind" where
  "operation_of obj = (if om_DeletionTimestamp obj = None then OpUpdate else OpDestroy)"

lemma operate_cases:
  assumes "operate L opts cfg dryRun drained st stack = Returns (st', out)"
  obtains (failed) tr ch res ret where "failed_result res = Some ret" "out = Inl ret" "rc_stack st' \<noteq> None"
      "rc_trace st' = rc_trace st @ [ActOperation (operation_of (meta_of (rc_obj st))) dryRun (meta_of (rc_obj st)) tr (ch, res)]"
      "rc_obj st' = rc_obj st"
  | (reported) tr ch res w w' err where "failed_result res = None"
      "out = (case err of None \<Rightarrow> Inr ch | Some e \<Rightarrow> Inl (\<lparr>Requeue = True\<rparr>, None))" "rc_stack st' \<noteq> None"
      "rc_trace st' = rc_trace st @ [ActOperation (operation_of (meta_of (rc_obj st))) dryRun (meta_of (rc_obj st)) tr (ch, res),
         ActStatus (changes_of (el_HasChanges (rl_Engine L)) dryRun drained tr) err]"
      "opt_UpdateStatus opts w (rc_obj st) (changes_of (el_HasChanges (rl_Engine L)) dryRun drained tr) = (w', rc_obj st', err)"
proof -
  from assms obtain st1 events ch res where up: "updateFunc L cfg st stack dryRun = Returns (st1, events, (ch, res))"
    by (auto simp: operate_def split: ending.splits prod.splits)
  from up obtain kind tr stack' where tr: "kind = operation_of (meta_of (rc_obj st))"
    "rc_trace st1 = rc_trace st @ [ActOperation kind dryRun (meta_of (rc_obj st)) tr (ch, res)]"
    "rc_obj st1 = rc_obj st" "rc_stack st1 = Some stack'"
    "\<And>b. read_handler (EngineEvent (el_HasChanges (rl_Engine L))) b events =
      changes_of (el_HasChanges (rl_Engine L)) dryRun b tr"
    by (auto simp: changes_of_def operation_of_def elim!: updateFunc_cases)
  show thesis
  proof (cases "failed_result res")
    case (Some ret)
    with assms up tr show thesis by (intro failed [of res ret tr ch]) (auto simp: operate_def)
  next
    case None
    obtain w' obj' err where status: "opt_UpdateStatus opts (rc_world st1) (rc_obj st)
        (changes_of (el_HasChanges (rl_Engine L)) dryRun drained tr) = (w', obj', err)"
      by (metis prod_cases3)
    with None assms up tr show thesis
      by (intro reported [of res ch err tr "rc_world st1" w'])
        (auto simp: operate_def Let_def updateStatusFunc_def split: option.splits)
  qed
qed

text \<open>A preview or deployment that panics leaves its action, and a stack to be closed.\<close>

lemma operate_panic:
  assumes "operate L opts cfg dryRun drained st stack = Panics (st', m)"
  obtains eop so os tr where "eop = el_Update (rl_Engine L) \<or> eop = el_Destroy (rl_Engine L)"
    "stack_operation (rl_Plugins L) (rl_Engine L) eop (rc_world st) stack (meta_of (rc_obj st)) so
      (NewStackChanges dryRun) = Panics (os, tr, m)"
    "st' = logged (st\<lparr>rc_world := os_world os, rc_stack := Some (os_stack os)\<rparr>)
      (ActPanic (operation_of (meta_of (rc_obj st))) dryRun (meta_of (rc_obj st)) tr m)"
proof -
  from assms have up: "updateFunc L cfg st stack dryRun = Panics (st', m)"
    by (auto simp: operate_def Let_def split: ending.splits prod.splits option.splits)
  show thesis
  proof (cases "om_DeletionTimestamp (rc_obj st)")
    case None
    with up show thesis
      by (auto simp: updateFunc_def Let_def operation_of_def Update_def split: ending.splits prod.splits
          intro: that [of "el_Update (rl_Engine L)"])
  next
    case (Some t)
    with up show thesis
      by (auto simp: updateFunc_def Let_def operation_of_def Destroy_def split: ending.splits prod.splits
          intro: that [of "el_Destroy (rl_Engine L)"])
  qed
qed

lemma write_object_simps:
  assumes "write_object r st obj = (st', err)"
  shows "rc_trace st' = rc_trace st @ [ActWriteObject (meta_of obj) err]" and "rc_stack st' = rc_stack st"
    and "\<exists>w w'. r_Update r w obj = (w', rc_obj st', err)"
proof -
  from assms obtain w' where "r_Update r (rc_world st) obj = (w', rc_obj st', err)"
    by (auto simp: write_object_def split: prod.splits)
  then show "\<exists>w w'. r_Update r w obj = (w', rc_obj st', err)" by blast
qed (use assms in \<open>auto simp: write_object_def split: prod.splits\<close>)

lemma finish_cases:
  assumes "finish L r st requeue = (st', ret)"
  obtains (kept) "st' = st" "ret = (\<lparr>Requeue = requeue\<rparr>, None)"
      "om_DeletionTimestamp (rc_obj st) = None \<or> \<not> fin_Contains (rl_Finalizers L) (rc_obj st) (r_FinalizerName r)"
  | (removed) err where "ret = (\<lparr>Requeue = False\<rparr>, err)" "om_DeletionTimestamp (rc_obj st) \<noteq> None"
      "rc_trace st' = rc_trace st @
         [ActWriteObject (meta_of (fin_Remove (rl_Finalizers L) (rc_obj st) (r_FinalizerName r))) err]"
      "rc_stack st' = rc_stack st"
proof (cases "om_DeletionTimestamp (rc_obj st) \<noteq> None \<and> fin_Contains (rl_Finalizers L) (rc_obj st) (r_FinalizerName r)")
  case True
  obtain st1 err where w: "write_object r st (fin_Remove (rl_Finalizers L) (rc_obj st) (r_FinalizerName r)) = (st1, err)"
    by (cases "write_object r st (fin_Remove (rl_Finalizers L) (rc_obj st) (r_FinalizerName r))")
  with True assms have "st' = st1" "ret = (\<lparr>Requeue = False\<rparr>, err)"
    by (auto simp: finish_def split: option.splits)
  with True write_object_simps [OF w] show thesis by (intro removed) simp_all
next
  case False
  with assms show thesis by (intro kept) (auto simp: finish_def split: if_splits)
qed

lemma reconcile_stack_cases:
  assumes "reconcile_stack L r opts d1 d2 st stack = Returns (st', ret)"
  obtains (marshal) e where "st' = logged st (ActMarshal (Some e))" "ret = (\<lparr>Requeue = False\<rparr>, Some e)"
  | (preview_ended) cfg where "operate L opts cfg True d1 (logged st (ActMarshal None)) stack = Returns (st', Inl ret)"
  | (no_changes) cfg st1 ch where "operate L opts cfg True d1 (logged st (ActMarshal None)) stack = Returns (st1, Inr ch)"
      "\<not> el_HasChanges (rl_Engine L) ch" "finish L r st1 False = (st', ret)"
  | (deploy_ended) cfg st1 ch stack1 where "operate L opts cfg True d1 (logged st (ActMarshal None)) stack = Returns (st1, Inr ch)"
      "el_HasChanges (rl_Engine L) ch" "operate L opts cfg False d2 st1 stack1 = Returns (st', Inl ret)"
      "rc_stack st1 = Some stack1"
  | (deployed) cfg st1 ch stack1 st2 ch2 where "operate L opts cfg True d1 (logged st (ActMarshal None)) stack = Returns (st1, Inr ch)"
      "el_HasChanges (rl_Engine L) ch" "operate L opts cfg False d2 st1 stack1 = Returns (st2, Inr ch2)"
      "finish L r st2 True = (st', ret)" "rc_stack st1 = Some stack1"
  using assms
  by (simp add: reconcile_stack_def Let_def split: sum.splits ending.splits prod.splits if_splits option.splits)
    blast+

lemma reconcile_stack_panic:
  assumes "reconcile_stack L r opts d1 d2 st stack = Panics (st', m)"
  obtains (preview) cfg where "operate L opts cfg True d1 (logged st (ActMarshal None)) stack = Panics (st', m)"
  | (deployment) cfg st1 ch stack1 where "operate L opts cfg True d1 (logged st (ActMarshal None)) stack = Returns (st1, Inr ch)"
      "el_HasChanges (rl_Engine L) ch" "operate L opts cfg False d2 st1 stack1 = Panics (st', m)"
      "rc_stack st1 = Some stack1"
proof -
  have kept: False
    if "operate L opts cfg True d1 (logged st (ActMarshal None)) stack = Returns (st1, out)" "rc_stack st1 = None"
    for cfg st1 out
    using that(1) by (cases rule: operate_cases) (use that(2) in simp_all)
  from assms preview deployment show thesis
    by (auto simp: reconcile_stack_def Let_def split: sum.splits ending.splits prod.splits if_splits option.splits
        dest: kept)
qed

lemma getOrCreateStack_cases:
  assumes "getOrCreateStack r st = (st', err)"
  obtains (context_failed) e where "err = Some (Wrapped ''unable to crate a Pulumi plugin context'' e)"
      "rc_trace st' = rc_trace st @ [ActContext err]" "rc_stack st' = rc_stack st"
  | (load_failed) e w ctx where "err = Some e" "rc_trace st' = rc_trace st @ [ActContext None, ActLoad err]"
      "rc_stack st' = rc_stack st" "LoadStack (r_backend r) w ctx (r_proj r) (meta_of (rc_obj st)) = Inl e"
      "rc_obj st' = rc_obj st"
  | (loaded) stack where "err = None" "rc_trace st' = rc_trace st @ [ActContext None, ActLoad None]"
      "rc_stack st' = Some stack" "rc_obj st' = rc_obj st"
  using assms
  by (auto simp: getOrCreateStack_def store_context_def load_with_context_def Let_def
      split: sum.splits prod.splits option.splits)

lemma ReconcileObject_cases:
  assumes "ReconcileObject L r opts d1 d2 w obj = Returns (st', ret)"
  obtains (write_failed) e where "om_DeletionTimestamp obj = None"
      "rc_trace st' = [ActWriteObject (meta_of (fin_Add (rl_Finalizers L) obj (r_FinalizerName r))) (Some e)]"
      "ret = (\<lparr>Requeue = False\<rparr>, Some e)" "rc_stack st' = None"
  | (no_stack) st e where "add_finalizer L r \<lparr>rc_world = w, rc_obj = obj, rc_stack = None, rc_trace = []\<rparr> = (st, None)"
      "getOrCreateStack r st = (st', Some e)"
      "ret = (if e = ErrSnapshotGenerationMismatch then (\<lparr>Requeue = True\<rparr>, None) else (\<lparr>Requeue = False\<rparr>, Some e))"
  | (stack) st st1 stack st2 where
      "add_finalizer L r \<lparr>rc_world = w, rc_obj = obj, rc_stack = None, rc_trace = []\<rparr> = (st, None)"
      "getOrCreateStack r st = (st1, None)" "rc_stack st1 = Some stack"
      "reconcile_stack L r opts d1 d2 st1 stack = Returns (st2, ret)" "st' = close_stack L st2"
proof (cases "add_finalizer L r \<lparr>rc_world = w, rc_obj = obj, rc_stack = None, rc_trace = []\<rparr>")
  case (Pair st err)
  show thesis
  proof (cases err)
    case (Some e)
    with assms Pair have st': "st' = st" "ret = (\<lparr>Requeue = False\<rparr>, Some e)" by (simp_all add: ReconcileObject_def)
    from Pair Some have "om_DeletionTimestamp obj = None" and
      wr: "write_object r \<lparr>rc_world = w, rc_obj = obj, rc_stack = None, rc_trace = []\<rparr>
        (fin_Add (rl_Finalizers L) obj (r_FinalizerName r)) = (st, Some e)"
      by (simp_all add: add_finalizer_def split: if_splits)
    with st' write_object_simps [OF wr] show thesis by (intro write_failed) simp_all
  next
    case None
    obtain st1 err1 where g: "getOrCreateStack r st = (st1, err1)" by (cases "getOrCreateStack r st")
    show thesis
    proof (cases err1)
      case (Some e)
      with assms Pair None g show thesis by (intro no_stack) (auto simp: ReconcileObject_def)
    next
      case loaded: None
      with assms Pair None g obtain stk st2 where "rc_stack st1 = Some stk"
        "reconcile_stack L r opts d1 d2 st1 stk = Returns (st2, ret)" "st' = close_stack L st2"
        by (auto simp: ReconcileObject_def split: option.splits ending.splits prod.splits)
      with Pair None g loaded show thesis by (intro stack [of st st1 stk st2]) simp_all
    qed
  qed
qed

lemma ReconcileObject_panic:
  assumes "ReconcileObject L r opts d1 d2 w obj = Panics (st', m)"
  obtains st st1 stack st2 where
      "add_finalizer L r \<lparr>rc_world = w, rc_obj = obj, rc_stack = None, rc_trace = []\<rparr> = (st, None)"
      "getOrCreateStack r st = (st1, None)" "rc_stack st1 = Some stack"
      "reconcile_stack L r opts d1 d2 st1 stack = Panics (st2, m)" "st' = close_stack L st2"
proof -
  have kept: False if "getOrCreateStack r st = (st1, None)" "rc_stack st1 = None" for st st1
    using that(1) by (cases rule: getOrCreateStack_cases) (use that(2) in simp_all)
  from assms show thesis
    by (auto simp: ReconcileObject_def split: prod.splits option.splits ending.splits intro: that dest: kept)
qed

lemma add_finalizer_cases:
  assumes "add_finalizer L r \<lparr>rc_world = w, rc_obj = obj, rc_stack = None, rc_trace = []\<rparr> = (st, None)"
  obtains (kept) "rc_trace st = []" "rc_stack st = None" "rc_obj st = obj"
      "om_DeletionTimestamp obj \<noteq> None \<or> fin_Contains (rl_Finalizers L) obj (r_FinalizerName r)"
  | (added) w1 w' where "om_DeletionTimestamp obj = None" "rc_stack st = None"
      "r_Update r w1 (fin_Add (rl_Finalizers L) obj (r_FinalizerName r)) = (w', rc_obj st, None)"
      "rc_trace st = [ActWriteObject (meta_of (fin_Add (rl_Finalizers L) obj (r_FinalizerName r))) None]"
proof (cases "om_DeletionTimestamp obj = None \<and> \<not> fin_Contains (rl_Finalizers L) obj (r_FinalizerName r)")
  case True
  with assms have "write_object r \<lparr>rc_world = w, rc_obj = obj, rc_stack = None, rc_trace = []\<rparr>
      (fin_Add (rl_Finalizers L) obj (r_FinalizerName r)) = (st, None)"
    by (simp add: add_finalizer_def)
  from write_object_simps [OF this] True show thesis by (auto intro: added)
next
  case False
  with assms show thesis by (intro kept) (auto simp: add_finalizer_def split: if_splits)
qed

lemma close_stack_trace: "rc_stack st \<noteq> None \<Longrightarrow> rc_trace (close_stack L st) = rc_trace st @ [ActClose]"
  by (auto simp: close_stack_def split: option.splits prod.splits)

section \<open>The result is decided by the trace\<close>

text \<open>
  What each action says about the result: an error of a write, of the start of the plugin context, of the
  load or of the serialisation is returned (the generation mismatch as a requeue), a failed operation
  gives its error or, for a bail, a requeue, a failed status update a requeue; a deployment that succeeds
  asks for a requeue, a write of the object that succeeds for none.
\<close>

fun verdict :: "reconcile_return \<Rightarrow> action \<Rightarrow> reconcile_return" where
  "verdict ret (ActWriteObject obj err) = (\<lparr>Requeue = False\<rparr>, err)"
| "verdict ret (ActContext err) = (\<lparr>Requeue = False\<rparr>, err)"
| "verdict ret (ActLoad err) =
     (if err = Some ErrSnapshotGenerationMismatch then (\<lparr>Requeue = True\<rparr>, None) else (\<lparr>Requeue = False\<rparr>, err))"
| "verdict ret (ActMarshal err) = (\<lparr>Requeue = False\<rparr>, err)"
| "verdict ret (ActOperation kind dryRun obj tr result) =
     (case failed_result (snd result) of Some ret' \<Rightarrow> ret' | None \<Rightarrow> (\<lparr>Requeue = \<not> dryRun\<rparr>, None))"
| "verdict ret (ActPanic kind dryRun obj tr m) = ret"
| "verdict ret (ActStatus chg err) = (case err of None \<Rightarrow> ret | Some e \<Rightarrow> (\<lparr>Requeue = True\<rparr>, None))"
| "verdict ret ActClose = ret"

lemma operate_verdict:
  assumes "operate L opts cfg dryRun drained st stack = Returns (st', out)"
  shows "foldl verdict ret0 (rc_trace st') = (case out of Inl ret \<Rightarrow> ret | Inr ch \<Rightarrow> (\<lparr>Requeue = \<not> dryRun\<rparr>, None))"
  using assms by (cases rule: operate_cases) (auto split: option.splits)

lemma finish_verdict:
  assumes "finish L r st requeue = (st', ret)" and "foldl verdict ret0 (rc_trace st) = (\<lparr>Requeue = requeue\<rparr>, None)"
  shows "foldl verdict ret0 (rc_trace st') = ret"
  using assms(1) by (cases rule: finish_cases) (use assms(2) in auto)

lemma reconcile_stack_verdict:
  assumes "reconcile_stack L r opts d1 d2 st stack = Returns (st', ret)"
  shows "foldl verdict ret0 (rc_trace st') = ret"
  using assms
proof (cases rule: reconcile_stack_cases)
  case (no_changes cfg st1 ch)
  show ?thesis using operate_verdict [OF no_changes(1)] by (intro finish_verdict [OF no_changes(3)]) simp
next
  case (deployed cfg st1 ch stack1 st2 ch2)
  show ?thesis using operate_verdict [OF deployed(3)] by (intro finish_verdict [OF deployed(4)]) simp
qed (auto dest: operate_verdict)

lemma reconcile_stack_keeps_stack:
  assumes "reconcile_stack L r opts d1 d2 st stack = Returns (st', ret)" and "rc_stack st \<noteq> None"
  shows "rc_stack st' \<noteq> None"
  using assms(1)
proof (cases rule: reconcile_stack_cases)
  case (no_changes cfg st1 ch)
  then show ?thesis by (auto elim!: operate_cases finish_cases)
next
  case (deployed cfg st1 ch stack1 st2 ch2)
  from deployed(3) have "rc_stack st2 \<noteq> None" by (cases rule: operate_cases) auto
  with deployed(4) show ?thesis by (auto elim!: finish_cases)
qed (use assms(2) in \<open>auto elim: operate_cases\<close>)


section \<open>The protocol of a reconciliation\<close>

text \<open>
  The abstract reconciliation, a state machine over the actions: the object may be written first; then a
  plugin context, a stack and its configuration are made; a preview, its status, and, only if the preview
  announced changes, a deployment and its status; a status tells what the events of its operation say, all
  of them or all but the last; then the object may be written once more; and a stack
  that was loaded is closed, as the last action, whatever failed before.
\<close>

datatype phase = Begin | Owned | HasContext | HasStack | Ready | Previewed bool call_trace | Reported | Deployed call_trace
  | Settled | Closing | Ended

definition reports :: "(resource_changes \<Rightarrow> bool) \<Rightarrow> bool \<Rightarrow> call_trace \<Rightarrow> stack_changes \<Rightarrow> bool" where
  "reports hc dryRun tr chg \<longleftrightarrow> chg = changes_of hc dryRun True tr \<or> chg = changes_of hc dryRun False tr"

fun phase_step :: "(resource_changes \<Rightarrow> bool) \<Rightarrow> phase \<Rightarrow> action \<Rightarrow> phase option" where
  "phase_step hc Begin a =
     (case a of
        ActWriteObject obj err \<Rightarrow> Some (if err = None then Owned else Ended)
      | ActContext err \<Rightarrow> Some (if err = None then HasContext else Ended)
      | _ \<Rightarrow> None)"
| "phase_step hc Owned a =
     (case a of ActContext err \<Rightarrow> Some (if err = None then HasContext else Ended) | _ \<Rightarrow> None)"
| "phase_step hc HasContext a =
     (case a of ActLoad err \<Rightarrow> Some (if err = None then HasStack else Ended) | _ \<Rightarrow> None)"
| "phase_step hc HasStack a =
     (case a of ActMarshal err \<Rightarrow> Some (if err = None then Ready else Closing) | _ \<Rightarrow> None)"
| "phase_step hc Ready a =
     (case a of
        ActOperation kind dryRun obj tr result \<Rightarrow>
          (if \<not> dryRun then None
           else Some (if failed_result (snd result) = None then Previewed (hc (fst result)) tr else Closing))
      | ActPanic kind dryRun obj tr m \<Rightarrow> if dryRun then Some Closing else None
      | _ \<Rightarrow> None)"
| "phase_step hc (Previewed changes tr) a =
     (case a of
        ActStatus chg err \<Rightarrow>
          (if \<not> reports hc True tr chg then None
           else Some (if err \<noteq> None then Closing else if changes then Reported else Settled))
      | _ \<Rightarrow> None)"
| "phase_step hc Reported a =
     (case a of
        ActOperation kind dryRun obj tr result \<Rightarrow>
          (if dryRun then None else Some (if failed_result (snd result) = None then Deployed tr else Closing))
      | ActPanic kind dryRun obj tr m \<Rightarrow> if dryRun then None else Some Closing
      | _ \<Rightarrow> None)"
| "phase_step hc (Deployed tr) a =
     (case a of
        ActStatus chg err \<Rightarrow>
          (if \<not> reports hc False tr chg then None else Some (if err = None then Settled else Closing))
      | _ \<Rightarrow> None)"
| "phase_step hc Settled a =
     (case a of ActWriteObject obj err \<Rightarrow> Some Closing | ActClose \<Rightarrow> Some Ended | _ \<Rightarrow> None)"
| "phase_step hc Closing a = (case a of ActClose \<Rightarrow> Some Ended | _ \<Rightarrow> None)"
| "phase_step hc Ended a = None"

fun phases :: "(resource_changes \<Rightarrow> bool) \<Rightarrow> phase \<Rightarrow> action list \<Rightarrow> phase option" where
  "phases hc p [] = Some p"
| "phases hc p (a # as) = Option.bind (phase_step hc p a) (\<lambda>p'. phases hc p' as)"

lemma phases_append: "phases hc p (as @ bs) = Option.bind (phases hc p as) (\<lambda>p'. phases hc p' bs)"
  by (induction as arbitrary: p) (auto simp: bind_eq_Some_conv split: bind_splits)

lemma reports_changes [simp]: "reports hc dryRun tr (changes_of hc dryRun drained tr)"
  by (cases drained) (simp_all add: reports_def)

lemma changes_of_Planning [simp]: "chg_Planning (changes_of hc dryRun drained tr) = dryRun"
  by (simp add: changes_of_def stack_changes.tag_fold NewStackChanges_def)

lemma preview_phases:
  assumes "operate L opts cfg True drained st stack = Returns (st', out)" and "hc = el_HasChanges (rl_Engine L)"
    and "phases hc Begin (rc_trace st) = Some Ready"
  shows "phases hc Begin (rc_trace st') =
    Some (case out of Inl ret \<Rightarrow> Closing | Inr ch \<Rightarrow> if hc ch then Reported else Settled)"
  using assms(1) by (cases rule: operate_cases) (use assms(2,3) in \<open>auto simp: phases_append split: option.split\<close>)

lemma deploy_phases:
  assumes "operate L opts cfg False drained st stack = Returns (st', out)" and "hc = el_HasChanges (rl_Engine L)"
    and "phases hc Begin (rc_trace st) = Some Reported"
  shows "phases hc Begin (rc_trace st') = Some (case out of Inl ret \<Rightarrow> Closing | Inr ch \<Rightarrow> Settled)"
  using assms(1) by (cases rule: operate_cases) (use assms(2,3) in \<open>auto simp: phases_append split: option.split\<close>)

lemma finish_phases:
  assumes "finish L r st requeue = (st', ret)" and "phases hc Begin (rc_trace st) = Some Settled"
  shows "phases hc Begin (rc_trace st' @ [ActClose]) = Some Ended"
  using assms(1) by (cases rule: finish_cases) (use assms(2) in \<open>auto simp: phases_append\<close>)

lemma reconcile_stack_phases:
  assumes "reconcile_stack L r opts d1 d2 st stack = Returns (st', ret)" and "hc = el_HasChanges (rl_Engine L)"
    and "phases hc Begin (rc_trace st) = Some HasStack"
  shows "phases hc Begin (rc_trace st' @ [ActClose]) = Some Ended"
proof -
  have ready: "phases hc Begin (rc_trace (logged st (ActMarshal None))) = Some Ready"
    using assms(3) by (simp add: phases_append)
  from assms(1) show ?thesis
  proof (cases rule: reconcile_stack_cases)
    case (marshal e)
    then show ?thesis using assms(3) by (simp add: phases_append)
  next
    case (preview_ended cfg)
    from preview_phases [OF this assms(2) ready] show ?thesis by (simp add: phases_append)
  next
    case (no_changes cfg st1 ch)
    from preview_phases [OF this(1) assms(2) ready] no_changes assms(2) show ?thesis
      by (intro finish_phases) simp_all
  next
    case (deploy_ended cfg st1 ch stack1)
    from preview_phases [OF this(1) assms(2) ready] deploy_ended assms(2)
    have "phases hc Begin (rc_trace st1) = Some Reported" by simp
    from deploy_phases [OF deploy_ended(3) assms(2) this] show ?thesis by (simp add: phases_append)
  next
    case (deployed cfg st1 ch stack1 st2 ch2)
    from preview_phases [OF this(1) assms(2) ready] deployed assms(2)
    have "phases hc Begin (rc_trace st1) = Some Reported" by simp
    from deploy_phases [OF deployed(3) assms(2) this] deployed(4) show ?thesis
      by (intro finish_phases) simp_all
  qed
qed

lemma add_finalizer_phases:
  assumes "add_finalizer L r \<lparr>rc_world = w, rc_obj = obj, rc_stack = None, rc_trace = []\<rparr> = (st, None)"
  shows "phases hc Begin (rc_trace st @ ActContext err # as) = phases hc Begin (ActContext err # as)"
  using assms by (cases rule: add_finalizer_cases) simp_all

lemma panic_phases:
  assumes "operate L opts cfg dryRun drained st stack = Panics (st', m)"
    and "phases hc Begin (rc_trace st) = Some (if dryRun then Ready else Reported)"
  shows "phases hc Begin (rc_trace st' @ [ActClose]) = Some Ended"
  using assms(1) by (rule operate_panic) (use assms(2) in \<open>auto simp: phases_append split: if_splits\<close>)

lemma reconcile_stack_panic_phases:
  assumes "reconcile_stack L r opts d1 d2 st stack = Panics (st', m)" and "hc = el_HasChanges (rl_Engine L)"
    and "phases hc Begin (rc_trace st) = Some HasStack"
  shows "phases hc Begin (rc_trace st' @ [ActClose]) = Some Ended"
proof -
  have ready: "phases hc Begin (rc_trace (logged st (ActMarshal None))) = Some Ready"
    using assms(3) by (simp add: phases_append)
  from assms(1) show ?thesis
  proof (cases rule: reconcile_stack_panic)
    case (preview cfg)
    from panic_phases [OF this] ready show ?thesis by simp
  next
    case (deployment cfg st1 ch stack1)
    from preview_phases [OF this(1) assms(2) ready] deployment(2) assms(2)
    have "phases hc Begin (rc_trace st1) = Some Reported" by simp
    with panic_phases [OF deployment(3)] show ?thesis by simp
  qed
qed

lemma reconcile_stack_panic_keeps_stack:
  "reconcile_stack L r opts d1 d2 st stack = Panics (st', m) \<Longrightarrow> rc_stack st' \<noteq> None"
  by (erule reconcile_stack_panic) (auto elim: operate_panic)

lemma started_phases:
  assumes "add_finalizer L r \<lparr>rc_world = w, rc_obj = obj, rc_stack = None, rc_trace = []\<rparr> = (st0, None)"
    and "getOrCreateStack r st0 = (st1, None)"
  shows "phases hc Begin (rc_trace st1) = Some HasStack"
  using assms(2) by (cases rule: getOrCreateStack_cases) (simp_all add: add_finalizer_phases [OF assms(1)])

lemma reconcile_phases_returned:
  assumes "ReconcileObject L r opts d1 d2 w obj = Returns (st, ret)"
  shows "phases (el_HasChanges (rl_Engine L)) Begin (rc_trace st) = Some Ended"
  using assms
proof (cases rule: ReconcileObject_cases)
  case (no_stack st0 e)
  from no_stack(2) show ?thesis
    by (cases rule: getOrCreateStack_cases) (simp_all add: add_finalizer_phases [OF no_stack(1)])
next
  case (stack st0 st1 stack st2)
  from reconcile_stack_phases [OF stack(4) refl started_phases [OF stack(1,2)]] show ?thesis
    using reconcile_stack_keeps_stack [OF stack(4)] stack(3,5) by (simp add: close_stack_trace)
qed simp

lemma reconcile_phases:
  "phases (el_HasChanges (rl_Engine L)) Begin (rc_trace (final_state (ReconcileObject L r opts d1 d2 w obj))) = Some Ended"
proof (cases "ReconcileObject L r opts d1 d2 w obj" rule: final_state_cases)
  case (returned ret)
  then show ?thesis by (rule reconcile_phases_returned)
next
  case (panicked m)
  then obtain st0 st1 stack st2 where p:
    "add_finalizer L r \<lparr>rc_world = w, rc_obj = obj, rc_stack = None, rc_trace = []\<rparr> = (st0, None)"
    "getOrCreateStack r st0 = (st1, None)" "reconcile_stack L r opts d1 d2 st1 stack = Panics (st2, m)"
    "final_state (ReconcileObject L r opts d1 d2 w obj) = close_stack L st2"
    by (rule ReconcileObject_panic)
  from reconcile_stack_panic_phases [OF p(3) refl started_phases [OF p(1,2)]] show ?thesis
    using reconcile_stack_panic_keeps_stack [OF p(3)] p(4) by (simp add: close_stack_trace)
qed

text \<open>
  C3. A reconciliation follows its protocol, in every branch, and also when the engine panics. Nothing is done
  with the engine before the object's write (if there was one), the plugin context and the stack succeeded;
  the first operation is a preview; the status that is reported after an operation is the planned or final
  one its events add up to (with or without the last event); a deployment happens at most once, after a
  preview without a failure that announced changes and whose status update succeeded; a failure or a panic
  goes straight to the end; and the stack is closed exactly once, at the very end, exactly when it was loaded.
\<close>

theorem reconcile_follows_protocol:
  "phases (el_HasChanges (rl_Engine L)) Begin (rc_trace (final_state (ReconcileObject L r opts d1 d2 w obj))) = Some Ended"
  by (rule reconcile_phases)

section \<open>Finalizers\<close>

text \<open>
  What the API server does to an object that is written: a successful write, whose resource version was
  the stored one, gives it back with the finalizers and the deletion timestamp it had, and a status update
  touches neither, whether it succeeds or not.
\<close>

definition same_ownership :: "'b object_meta_scheme \<Rightarrow> 'b object_meta_scheme \<Rightarrow> bool" where
  "same_ownership obj obj' \<longleftrightarrow>
     om_Finalizers obj' = om_Finalizers obj \<and> om_DeletionTimestamp obj' = om_DeletionTimestamp obj"

definition object_api_contract :: "('w, 'h, 'b object_meta_scheme) PulumiReconciler \<Rightarrow>
    ('w, 'b object_meta_scheme) ReconcileOptions \<Rightarrow> bool" where
  "object_api_contract r opts \<longleftrightarrow>
     (\<forall>w obj w' obj'. r_Update r w obj = (w', obj', None) \<longrightarrow> same_ownership obj obj') \<and>
     (\<forall>w obj chg w' obj' err. opt_UpdateStatus opts w obj chg = (w', obj', err) \<longrightarrow> same_ownership obj obj')"

text \<open>An object that may be operated on: unchanged in its deletion, and owned unless it is being deleted.\<close>

definition owned :: "string \<Rightarrow> int option \<Rightarrow> 'b object_meta_scheme \<Rightarrow> bool" where
  "owned name deletion obj \<longleftrightarrow>
     om_DeletionTimestamp obj = deletion \<and> (deletion = None \<longrightarrow> name \<in> set (om_Finalizers obj))"

lemma owned_meta [simp]: "owned name deletion (meta_of obj) = owned name deletion obj"
  by (simp add: owned_def)

lemma owned_same: "same_ownership obj obj' \<Longrightarrow> owned name deletion obj' = owned name deletion obj"
  by (simp add: same_ownership_def owned_def)

text \<open>What an action asks of the engine, whether the operation returns or panics.\<close>

fun operation_run :: "action \<Rightarrow> (operation_kind \<times> bool \<times> object_meta \<times> call_trace) option" where
  "operation_run (ActOperation kind dryRun obj tr result) = Some (kind, dryRun, obj, tr)"
| "operation_run (ActPanic kind dryRun obj tr m) = Some (kind, dryRun, obj, tr)"
| "operation_run _ = None"

text \<open>What every action must satisfy.\<close>

fun action_ok :: "string \<Rightarrow> int option \<Rightarrow> action \<Rightarrow> bool" where
  "action_ok name deletion (ActOperation kind dryRun obj tr result) \<longleftrightarrow>
     owned name deletion obj \<and> kind = (if deletion = None then OpUpdate else OpDestroy)"
| "action_ok name deletion (ActPanic kind dryRun obj tr m) \<longleftrightarrow>
     owned name deletion obj \<and> kind = (if deletion = None then OpUpdate else OpDestroy)"
| "action_ok name deletion (ActWriteObject obj err) \<longleftrightarrow>
     om_DeletionTimestamp obj = deletion \<and> (name \<in> set (om_Finalizers obj)) = (deletion = None)"
| "action_ok name deletion _ \<longleftrightarrow> True"

lemma operate_ok:
  assumes "operate L opts cfg dryRun drained st stack = Returns (st', out)"
    and "object_api_contract r opts" and "owned name deletion (rc_obj st)"
    and "list_all (action_ok name deletion) (rc_trace st)"
  shows "owned name deletion (rc_obj st') \<and> list_all (action_ok name deletion) (rc_trace st')"
  using assms(1)
proof (cases rule: operate_cases)
  case (failed tr ch res ret)
  with assms(3,4) show ?thesis by (auto simp: operation_of_def owned_def)
next
  case (reported tr ch res w w' err)
  with assms(2) have "same_ownership (rc_obj st) (rc_obj st')"
    unfolding object_api_contract_def by blast
  from owned_same [OF this] assms(3,4) reported(4) show ?thesis by (auto simp: operation_of_def owned_def)
qed

lemma operate_panic_ok:
  assumes "operate L opts cfg dryRun drained st stack = Panics (st', m)"
    and "owned name deletion (rc_obj st)" and "list_all (action_ok name deletion) (rc_trace st)"
  shows "list_all (action_ok name deletion) (rc_trace st')"
  using assms(1) by (rule operate_panic) (use assms(2,3) in \<open>auto simp: operation_of_def owned_def\<close>)

lemma finish_ok:
  assumes "finish L r st requeue = (st', ret)" and "finalizer_contract (rl_Finalizers L)"
    and "owned (r_FinalizerName r) deletion (rc_obj st)"
    and "list_all (action_ok (r_FinalizerName r) deletion) (rc_trace st)"
  shows "list_all (action_ok (r_FinalizerName r) deletion) (rc_trace st')"
  using assms(1)
proof (cases rule: finish_cases)
  case (removed err)
  with assms(2-4) show ?thesis
    by (simp add: owned_def finalizer_contractD [OF assms(2)])
qed (use assms(4) in simp)

lemma reconcile_stack_ok:
  assumes "reconcile_stack L r opts d1 d2 st stack = Returns (st', ret)"
    and F: "finalizer_contract (rl_Finalizers L)" and api: "object_api_contract r opts"
    and own: "owned (r_FinalizerName r) deletion (rc_obj st)"
    and ok: "list_all (action_ok (r_FinalizerName r) deletion) (rc_trace st)"
  shows "list_all (action_ok (r_FinalizerName r) deletion) (rc_trace st')"
  using assms(1)
proof (cases rule: reconcile_stack_cases)
  case (preview_ended cfg)
  from operate_ok [OF this api] own ok show ?thesis by simp
next
  case (no_changes cfg st1 ch)
  from operate_ok [OF no_changes(1) api] own ok finish_ok [OF no_changes(3) F] show ?thesis by simp
next
  case (deploy_ended cfg st1 ch stack1)
  from operate_ok [OF deploy_ended(1) api] operate_ok [OF deploy_ended(3) api] own ok show ?thesis by simp
next
  case (deployed cfg st1 ch stack1 st2 ch2)
  from operate_ok [OF deployed(1) api] operate_ok [OF deployed(3) api] own ok finish_ok [OF deployed(4) F]
  show ?thesis by simp
qed (use ok in simp)

lemma reconcile_stack_panic_ok:
  assumes "reconcile_stack L r opts d1 d2 st stack = Panics (st', m)" and api: "object_api_contract r opts"
    and own: "owned (r_FinalizerName r) deletion (rc_obj st)"
    and ok: "list_all (action_ok (r_FinalizerName r) deletion) (rc_trace st)"
  shows "list_all (action_ok (r_FinalizerName r) deletion) (rc_trace st')"
  using assms(1)
proof (cases rule: reconcile_stack_panic)
  case (preview cfg)
  from operate_panic_ok [OF this] own ok show ?thesis by simp
next
  case (deployment cfg st1 ch stack1)
  from operate_ok [OF deployment(1) api] operate_panic_ok [OF deployment(3)] own ok show ?thesis by simp
qed

lemma add_finalizer_ok:
  assumes "add_finalizer L r \<lparr>rc_world = w, rc_obj = obj, rc_stack = None, rc_trace = []\<rparr> = (st, None)"
    and F: "finalizer_contract (rl_Finalizers L)" and api: "object_api_contract r opts"
  shows "owned (r_FinalizerName r) (om_DeletionTimestamp obj) (rc_obj st) \<and>
    list_all (action_ok (r_FinalizerName r) (om_DeletionTimestamp obj)) (rc_trace st)"
  using assms(1)
proof (cases rule: add_finalizer_cases)
  case kept
  then show ?thesis by (auto simp: owned_def finalizer_contractD [OF F])
next
  case (added w1 w')
  with api have "same_ownership (fin_Add (rl_Finalizers L) obj (r_FinalizerName r)) (rc_obj st)"
    unfolding object_api_contract_def by blast
  with added show ?thesis by (simp add: owned_def same_ownership_def finalizer_contractD [OF F])
qed

lemma started_ok:
  assumes "add_finalizer L r \<lparr>rc_world = w, rc_obj = obj, rc_stack = None, rc_trace = []\<rparr> = (st0, None)"
    and "getOrCreateStack r st0 = (st1, None)"
    and F: "finalizer_contract (rl_Finalizers L)" and api: "object_api_contract r opts"
  shows "owned (r_FinalizerName r) (om_DeletionTimestamp obj) (rc_obj st1)"
    "list_all (action_ok (r_FinalizerName r) (om_DeletionTimestamp obj)) (rc_trace st1)"
  using assms(2) add_finalizer_ok [OF assms(1) F api] by (cases rule: getOrCreateStack_cases; simp)+

lemma returned_actions_ok:
  assumes "ReconcileObject L r opts d1 d2 w obj = Returns (st, ret)"
    and F: "finalizer_contract (rl_Finalizers L)" and api: "object_api_contract r opts"
  shows "list_all (action_ok (r_FinalizerName r) (om_DeletionTimestamp obj)) (rc_trace st)"
  using assms(1)
proof (cases rule: ReconcileObject_cases)
  case (write_failed e)
  then show ?thesis by (simp add: finalizer_contractD [OF F])
next
  case (no_stack st0 e)
  from no_stack(2) add_finalizer_ok [OF no_stack(1) F api] show ?thesis
    by (cases rule: getOrCreateStack_cases) simp_all
next
  case (stack st0 st1 stack st2)
  from reconcile_stack_ok [OF stack(4) F api started_ok [OF stack(1,2) F api]] show ?thesis
    using reconcile_stack_keeps_stack [OF stack(4)] stack(3,5) by (simp add: close_stack_trace)
qed

lemma reconcile_actions_ok:
  assumes F: "finalizer_contract (rl_Finalizers L)" and api: "object_api_contract r opts"
  shows "list_all (action_ok (r_FinalizerName r) (om_DeletionTimestamp obj))
    (rc_trace (final_state (ReconcileObject L r opts d1 d2 w obj)))"
proof (cases "ReconcileObject L r opts d1 d2 w obj" rule: final_state_cases)
  case (returned ret)
  then show ?thesis by (rule returned_actions_ok [OF _ F api])
next
  case (panicked m)
  then obtain st0 st1 stack st2 where p:
    "add_finalizer L r \<lparr>rc_world = w, rc_obj = obj, rc_stack = None, rc_trace = []\<rparr> = (st0, None)"
    "getOrCreateStack r st0 = (st1, None)" "reconcile_stack L r opts d1 d2 st1 stack = Panics (st2, m)"
    "final_state (ReconcileObject L r opts d1 d2 w obj) = close_stack L st2"
    by (rule ReconcileObject_panic)
  from reconcile_stack_panic_ok [OF p(3) api started_ok [OF p(1,2) F api]] show ?thesis
    using reconcile_stack_panic_keeps_stack [OF p(3)] p(4) by (simp add: close_stack_trace)
qed

text \<open>
  C5. No operation without ownership, and always the right one. In every reconciliation, one that panics
  included, the engine is asked to update (preview or deployment) only an object that is not being deleted and carries the
  reconciler's finalizer at that moment, so the object cannot disappear before its resources; an object
  that is being deleted is only ever destroyed; and preview and deployment are of the same kind.
\<close>

theorem operations_only_on_owned_objects:
  assumes "finalizer_contract (rl_Finalizers L)" and "object_api_contract r opts"
    and "a \<in> set (rc_trace (final_state (ReconcileObject L r opts d1 d2 w obj)))"
    and "operation_run a = Some (kind, dryRun, o1, tr)"
  shows "om_DeletionTimestamp o1 = om_DeletionTimestamp obj \<and>
    (kind = OpUpdate \<and> om_DeletionTimestamp o1 = None \<and> r_FinalizerName r \<in> set (om_Finalizers o1) \<or>
     kind = OpDestroy \<and> om_DeletionTimestamp o1 \<noteq> None)"
proof -
  have "action_ok (r_FinalizerName r) (om_DeletionTimestamp obj) a"
    using reconcile_actions_ok [OF assms(1,2)] assms(3) unfolding list_all_iff by blast
  with assms(4) show ?thesis by (cases "om_DeletionTimestamp obj"; cases a) (simp_all add: owned_def)
qed

text \<open>The last operation of a trace, and what the phases know of it.\<close>

definition note_operation :: "(operation_kind \<times> bool \<times> engine_result) option \<Rightarrow> action \<Rightarrow>
    (operation_kind \<times> bool \<times> engine_result) option" where
  "note_operation acc a =
     (case a of ActOperation kind dryRun obj tr result \<Rightarrow> Some (kind, dryRun, result) | _ \<Rightarrow> acc)"

definition last_operation :: "action list \<Rightarrow> (operation_kind \<times> bool \<times> engine_result) option" where
  "last_operation as = foldl note_operation None as"

lemma last_operation_snoc: "last_operation (as @ [a]) = note_operation (last_operation as) a"
  by (simp add: last_operation_def)

lemma last_operation_in:
  "last_operation as = Some (kind, dryRun, result) \<Longrightarrow> \<exists>obj tr. ActOperation kind dryRun obj tr result \<in> set as"
proof (induction as rule: rev_induct)
  case (snoc a as)
  then show ?case by (cases a) (auto simp: last_operation_snoc note_operation_def)
qed (simp add: last_operation_def)

text \<open>An operation that settles the reconciliation: it did not fail, and if it was the preview it had no changes.\<close>

fun settles :: "(resource_changes \<Rightarrow> bool) \<Rightarrow> (operation_kind \<times> bool \<times> engine_result) option \<Rightarrow> bool" where
  "settles hc None = False"
| "settles hc (Some (kind, dryRun, result)) \<longleftrightarrow>
     failed_result (snd result) = None \<and> (dryRun \<longrightarrow> \<not> hc (fst result))"

fun phase_knows :: "(resource_changes \<Rightarrow> bool) \<Rightarrow> phase \<Rightarrow> action list \<Rightarrow> bool" where
  "phase_knows hc Begin as \<longleftrightarrow> as = []"
| "phase_knows hc (Previewed changes tr) as \<longleftrightarrow> changes \<or> settles hc (last_operation as)"
| "phase_knows hc (Deployed tr) as \<longleftrightarrow> settles hc (last_operation as)"
| "phase_knows hc Settled as \<longleftrightarrow> settles hc (last_operation as)"
| "phase_knows hc _ as \<longleftrightarrow> True"

lemma phase_step_knows:
  "phase_step hc p a = Some p' \<Longrightarrow> phase_knows hc p as \<Longrightarrow> phase_knows hc p' (as @ [a])"
  by (cases p) (auto simp: last_operation_snoc note_operation_def split: action.splits if_splits)

lemma phases_know: "phases hc Begin as = Some p \<Longrightarrow> phase_knows hc p as"
proof (induction as arbitrary: p rule: rev_induct)
  case (snoc a as)
  then obtain p1 where "phases hc Begin as = Some p1" "phase_step hc p1 a = Some p"
    by (auto simp: phases_append bind_eq_Some_conv)
  with snoc.IH show ?case by (auto intro: phase_step_knows)
qed simp

lemma operate_extends:
  "operate L opts cfg dryRun drained st stack = Returns (st', out) \<Longrightarrow> \<exists>new. rc_trace st' = rc_trace st @ new"
  by (erule operate_cases) auto

lemma finish_extends: "finish L r st requeue = (st', ret) \<Longrightarrow> \<exists>new. rc_trace st' = rc_trace st @ new"
  by (erule finish_cases) auto

lemma reconcile_stack_extends:
  assumes "reconcile_stack L r opts d1 d2 st stack = Returns (st', ret)"
  shows "\<exists>new. rc_trace st' = rc_trace st @ new"
  using assms
proof (cases rule: reconcile_stack_cases)
  case (preview_ended cfg)
  from operate_extends [OF this] show ?thesis by auto
next
  case (no_changes cfg st1 ch)
  from operate_extends [OF no_changes(1)] finish_extends [OF no_changes(3)] show ?thesis by auto
next
  case (deploy_ended cfg st1 ch stack1)
  from operate_extends [OF deploy_ended(1)] operate_extends [OF deploy_ended(3)] show ?thesis by auto
next
  case (deployed cfg st1 ch stack1 st2 ch2)
  from operate_extends [OF deployed(1)] operate_extends [OF deployed(3)] finish_extends [OF deployed(4)]
  show ?thesis by auto
qed auto

lemma reconcile_stack_panic_extends:
  "reconcile_stack L r opts d1 d2 st stack = Panics (st', m) \<Longrightarrow> \<exists>new. rc_trace st' = rc_trace st @ new"
  by (erule reconcile_stack_panic) (auto elim!: operate_panic dest!: operate_extends)

lemma started_with_context:
  assumes "add_finalizer L r \<lparr>rc_world = w, rc_obj = obj, rc_stack = None, rc_trace = []\<rparr> = (st0, None)"
    and "getOrCreateStack r st0 = (st1, e)" and "om_DeletionTimestamp obj \<noteq> None"
  shows "\<exists>err as. rc_trace st1 = ActContext err # as"
proof -
  from assms(1,3) have "rc_trace st0 = []" by (auto elim: add_finalizer_cases)
  with assms(2) show ?thesis by (cases rule: getOrCreateStack_cases) simp_all
qed

lemma returned_starts_with_context:
  assumes "ReconcileObject L r opts d1 d2 w obj = Returns (st, ret)" and "om_DeletionTimestamp obj \<noteq> None"
  shows "\<exists>err as. rc_trace st = ActContext err # as"
  using assms(1)
proof (cases rule: ReconcileObject_cases)
  case (no_stack st0 e)
  from started_with_context [OF this(1,2) assms(2)] show ?thesis .
next
  case (stack st0 st1 stack st2)
  from started_with_context [OF this(1,2) assms(2)] reconcile_stack_extends [OF stack(4)] have "\<exists>err as. rc_trace st2 = ActContext err # as" by auto
  then show ?thesis
    using reconcile_stack_keeps_stack [OF stack(4)] stack(3,5) by (auto simp: close_stack_trace)
qed (use assms(2) in simp)

lemma deleted_starts_with_context:
  assumes "om_DeletionTimestamp obj \<noteq> None"
  shows "\<exists>err as. rc_trace (final_state (ReconcileObject L r opts d1 d2 w obj)) = ActContext err # as"
proof (cases "ReconcileObject L r opts d1 d2 w obj" rule: final_state_cases)
  case (returned ret)
  then show ?thesis by (rule returned_starts_with_context [OF _ assms])
next
  case (panicked m)
  then obtain st0 st1 stack st2 where p:
    "add_finalizer L r \<lparr>rc_world = w, rc_obj = obj, rc_stack = None, rc_trace = []\<rparr> = (st0, None)"
    "getOrCreateStack r st0 = (st1, None)" "reconcile_stack L r opts d1 d2 st1 stack = Panics (st2, m)"
    "final_state (ReconcileObject L r opts d1 d2 w obj) = close_stack L st2"
    by (rule ReconcileObject_panic)
  from started_with_context [OF p(1,2) assms] reconcile_stack_panic_extends [OF p(3)]
  have "\<exists>err as. rc_trace st2 = ActContext err # as" by auto
  then show ?thesis
    using reconcile_stack_panic_keeps_stack [OF p(3)] p(4) by (auto simp: close_stack_trace)
qed

text \<open>
  C4. The finalizer goes last. Whenever a reconciliation writes an object without the reconciler's
  finalizer, the object is being deleted, and the last engine operation before that was a destroy that
  ended without an error or a bail, either the deployment or a preview that found nothing left to change.
  So the object's resources are gone, as far as the engine knows, before the object may go.
\<close>

theorem finalizer_removed_after_destroy:
  assumes "finalizer_contract (rl_Finalizers L)" and "object_api_contract r opts"
    and "rc_trace (final_state (ReconcileObject L r opts d1 d2 w obj)) = before @ ActWriteObject o1 err # after" and "r_FinalizerName r \<notin> set (om_Finalizers o1)"
  shows "om_DeletionTimestamp o1 \<noteq> None \<and>
    (case last_operation before of
       None \<Rightarrow> False
     | Some (kind, dryRun, (changes, res)) \<Rightarrow>
         kind = OpDestroy \<and> failed_result res = None \<and> (dryRun \<longrightarrow> \<not> el_HasChanges (rl_Engine L) changes))"
proof -
  let ?hc = "el_HasChanges (rl_Engine L)"
  note ok = reconcile_actions_ok [OF assms(1,2), of obj d1 d2 w, unfolded assms(3)]
  with assms(4) have del: "om_DeletionTimestamp obj \<noteq> None" "om_DeletionTimestamp o1 = om_DeletionTimestamp obj" by auto
  from reconcile_phases [of L r opts d1 d2 w obj, unfolded assms(3)]
  obtain p p' where p: "phases ?hc Begin before = Some p" "phase_step ?hc p (ActWriteObject o1 err) = Some p'"
    by (auto simp: phases_append bind_eq_Some_conv)
  have "before \<noteq> []"
    using deleted_starts_with_context [OF del(1), of L r opts d1 d2 w] assms(3) by auto
  with phases_know [OF p(1)] p(2) have "settles ?hc (last_operation before)"
    by (cases p) auto
  then obtain kind dryRun result where last: "last_operation before = Some (kind, dryRun, result)"
    and "failed_result (snd result) = None" "dryRun \<longrightarrow> \<not> ?hc (fst result)"
    by (cases "last_operation before") auto
  moreover have "kind = OpDestroy"
  proof -
    obtain o2 tr where "ActOperation kind dryRun o2 tr result \<in> set before"
      using last_operation_in [OF last] by blast
    moreover have "\<forall>a\<in>set before. action_ok (r_FinalizerName r) (om_DeletionTimestamp obj) a"
      using ok by (simp add: list_all_iff del: action_ok.simps)
    ultimately have "action_ok (r_FinalizerName r) (om_DeletionTimestamp obj) (ActOperation kind dryRun o2 tr result)"
      by blast
    with del(1) show ?thesis by simp
  qed
  ultimately show ?thesis using del by (cases result) simp
qed

section \<open>Failure to load, shared context, missed summary\<close>

text \<open>
  C25. When the stack cannot be loaded the reconciliation ends there: a stale object (the snapshot was made
  for a later generation) is requeued without an error, every other failure is returned. The engine was not
  called and no status was written; and the plugin context that was started for the reconciliation is
  never closed, so its host, its server and its plugins leak.
\<close>

theorem load_failure_ends_and_leaks_context:
  assumes "om_DeletionTimestamp obj \<noteq> None \<or> fin_Contains (rl_Finalizers L) obj (r_FinalizerName r)"
    and "r_createPluginContext r w = (w', Inr ctx)"
    and "r_backend r = NewDefaultBackend (NewSecretSnapshotter sn) sm p" and "GetSnapshot sn w' (meta_of obj) = Inl err"
  shows "ReconcileObject L r opts d1 d2 w obj =
    Returns (\<lparr>rc_world = w', rc_obj = obj, rc_stack = None, rc_trace = [ActContext None, ActLoad (Some err)]\<rparr>,
      if err = ErrSnapshotGenerationMismatch then (\<lparr>Requeue = True\<rparr>, None) else (\<lparr>Requeue = False\<rparr>, Some err))"
  using assms
  by (auto simp: ReconcileObject_def add_finalizer_def getOrCreateStack_def store_context_def load_with_context_def
      LoadStack_def NewDefaultBackend_def logged_def)


text \<open>
  The summary can be missed. When the last event of an operation is the summary (and there was none
  before), the status that the reconciler reports says that there are resource changes only if the
  draining goroutine has handled that last event when the changes are read; otherwise it says that there
  are none, although the operation's own summary, by which the reconciler decides to deploy, has some.
\<close>

lemma summary_can_be_missed:
  assumes "events_of tr = es @ [SummaryEvent ch]" and "hc ch" and "last_some summary_of es = None"
  shows "chg_HasResourceChanges (changes_of hc dryRun drained tr) = drained"
proof -
  have "chg_HasResourceChanges (foldl (EngineEvent hc) (NewStackChanges dryRun) es) = False"
    using assms(3)
  proof (induction es rule: rev_induct)
    case (snoc e es)
    then show ?case by (cases e) (auto simp: last_some_snoc summary_of_def split: option.splits)
  qed (simp add: NewStackChanges_def)
  with assms(1,2) show ?thesis by (simp add: changes_of_def)
qed

section \<open>Concrete reconciliations\<close>

text \<open>
  A reconciler over the in-memory API, whose engine sends a summary of one creation and succeeds, for an
  object that is new and for one that is being deleted.
\<close>

definition quiet_op :: engine_op where
  "quiet_op upd base dryRun =
     Call (EmitEvent (SummaryEvent [''create'' \<mapsto> 1])) (\<lambda>_. Result (([''create'' \<mapsto> 1], None), Result None))"

definition demo_lib :: "(mem, object_meta) reconcile_lib" where
  "demo_lib =
     \<lparr>rl_Finalizers = list_finalizers, rl_Marshal = (\<lambda>obj. Inr (om_Name obj)), rl_Plugins = idle_plugins,
      rl_Engine = demo_engine\<lparr>el_Update := quiet_op, el_Destroy := quiet_op\<rparr>\<rparr>"

definition demo_reconciler :: "(mem, secretSnapshotHandle, object_meta) PulumiReconciler" where
  "demo_reconciler =
     \<lparr>r_Update = (\<lambda>w obj. (w, obj, None)), r_FinalizerName = ''f'',
      r_createPluginContext = (\<lambda>w. (w, Inr \<lparr>pc_Host = idle_host\<rparr>)), r_backend = demo_backend (Inr 7),
      r_hostContext = None, r_proj = demo_project\<rparr>"

definition demo_ropts :: "(mem, object_meta) ReconcileOptions" where
  "demo_ropts = \<lparr>opt_StackConfig = None, opt_UpdateStatus = (\<lambda>w obj chg. (w, obj, None))\<rparr>"

lemma demo_reconcile_simps [simp]:
  "rl_Finalizers demo_lib = list_finalizers" "rl_Marshal demo_lib obj = Inr (om_Name obj)"
  "rl_Plugins demo_lib = idle_plugins" "el_HasChanges (rl_Engine demo_lib) c \<longleftrightarrow> c ''create'' \<noteq> None"
  "el_Update (rl_Engine demo_lib) = quiet_op" "el_Destroy (rl_Engine demo_lib) = quiet_op"
  "el_ContextClose (rl_Engine demo_lib) = (\<lambda>(w, ctx). ((w, ctx), None))"
  "r_Update demo_reconciler w obj = (w, obj, None)" "r_FinalizerName demo_reconciler = ''f''"
  "r_createPluginContext demo_reconciler w = (w, Inr \<lparr>pc_Host = idle_host\<rparr>)"
  "r_backend demo_reconciler = demo_backend (Inr 7)" "r_proj demo_reconciler = demo_project"
  "opt_UpdateStatus demo_ropts w obj chg = (w, obj, None)"
  by (simp_all add: demo_lib_def demo_reconciler_def demo_ropts_def demo_engine_def)

lemma demo_object_api [simp]: "object_api_contract demo_reconciler demo_ropts"
  by (simp add: object_api_contract_def same_ownership_def)

definition quiet_trace :: call_trace where
  "quiet_trace = [(EmitEvent (SummaryEvent [''create'' \<mapsto> 1]), Emitted)]"

lemma quiet_operation:
  "stack_operation idle_plugins E quiet_op w (demo_stack snap handle) obj
     \<lparr>so_DryRun = dryRun, so_Config = Some cfg, so_EventHandler = Some h\<rparr> s0 =
   Returns (\<lparr>os_world = w, os_stack = demo_stack snap handle,
       os_events = send (handler_or_nil (Some h)) (new_drainer s0) (SummaryEvent [''create'' \<mapsto> 1])\<rparr>, quiet_trace,
     ([''create'' \<mapsto> 1], None))"
  by (simp add: stack_operation_def newUpdate_def getTarget_def kube_run_def runEngineAction_def quiet_op_def
      quiet_trace_def)

definition demo_course :: "operation_kind \<Rightarrow> object_meta \<Rightarrow> action list" where
  "demo_course kind obj =
     [ActContext None, ActLoad None, ActMarshal None,
      ActOperation kind True obj quiet_trace ([''create'' \<mapsto> 1], None),
      ActStatus (changes_of (\<lambda>c. c ''create'' \<noteq> None) True True quiet_trace) None,
      ActOperation kind False obj quiet_trace ([''create'' \<mapsto> 1], None),
      ActStatus (changes_of (\<lambda>c. c ''create'' \<noteq> None) False True quiet_trace) None]"

lemma demo_load_any:
  "newStackReferenceForObject obj = \<lparr>or_UID = ''u1'', or_Namespace = ''ns''\<rparr> \<Longrightarrow>
   LoadStack (demo_backend (Inr 7)) no_secrets \<lparr>pc_Host = idle_host\<rparr> demo_project obj = Inr (demo_stack None None)"
  by (simp add: LoadStack_def GetSnapshot_def getSnapshot_def mem_Get_def no_secrets_def demo_stack_def)

definition deleted_object :: object_meta where
  "deleted_object = (demo_object 3)\<lparr>om_DeletionTimestamp := Some 5, om_Finalizers := [''f'']\<rparr>"

definition owned_object :: object_meta where
  "owned_object = (demo_object 3)\<lparr>om_Finalizers := [''f'']\<rparr>"

lemma demo_objects [simp]:
  "om_DeletionTimestamp deleted_object = Some 5" "om_Finalizers deleted_object = [''f'']"
  "om_DeletionTimestamp owned_object = None" "om_Finalizers owned_object = [''f'']"
  "om_Finalizers (demo_object g) = []"
  "meta_of deleted_object = deleted_object" "meta_of owned_object = owned_object"
  "newStackReferenceForObject deleted_object = \<lparr>or_UID = ''u1'', or_Namespace = ''ns''\<rparr>"
  "newStackReferenceForObject owned_object = \<lparr>or_UID = ''u1'', or_Namespace = ''ns''\<rparr>"
  by (simp_all add: deleted_object_def owned_object_def demo_object_def object_meta.truncate_def
      newStackReferenceForObject_def)

lemma demo_finalizer_ops [simp]:
  "fin_Contains list_finalizers obj f = (f \<in> set (om_Finalizers obj))"
  "fin_Add list_finalizers (demo_object 3) ''f'' = owned_object"
  "om_Finalizers (fin_Remove list_finalizers obj f) = filter (\<lambda>g. g \<noteq> f) (om_Finalizers obj)"
  "om_DeletionTimestamp (fin_Remove list_finalizers obj f) = om_DeletionTimestamp obj"
  by (simp_all add: list_finalizers_def owned_object_def)

text \<open>Both engine operations of the concrete reconciler, with the status update after them.\<close>

lemma demo_operate:
  assumes "rc_world st = no_secrets" and "meta_of (rc_obj st) = rc_obj st"
  shows "operate demo_lib demo_ropts cfg dryRun True st (demo_stack None None) =
    Returns (logged (logged (st\<lparr>rc_stack := Some (demo_stack None None)\<rparr>)
        (ActOperation (operation_of (rc_obj st)) dryRun (rc_obj st) quiet_trace ([''create'' \<mapsto> 1], None)))
        (ActStatus (changes_of (\<lambda>c. c ''create'' \<noteq> None) dryRun True quiet_trace) None),
      Inr [''create'' \<mapsto> 1])"
proof -
  have h: "handler_or_nil (Some h) = h" for h :: "stack_changes \<Rightarrow> engine_event \<Rightarrow> stack_changes"
    by (simp add: fun_eq_iff handler_or_nil_def)
  have "st\<lparr>rc_world := no_secrets\<rparr> = st" "st\<lparr>rc_obj := rc_obj st\<rparr> = st" using assms(1) by simp_all
  then show ?thesis
    using assms
    by (simp add: operate_def updateFunc_def updateStatusFunc_def Update_def Destroy_def Let_def quiet_operation
        failed_result_def changes_of_def quiet_trace_def h read_handler_def handle_inflight_def send_def
        new_drainer_def operation_of_def logged_def)
qed

lemma demo_reconcile_new:
  "\<exists>st. ReconcileObject demo_lib demo_reconciler demo_ropts True True no_secrets (demo_object 3) =
     Returns (st, (\<lparr>Requeue = True\<rparr>, None)) \<and>
     rc_trace st = ActWriteObject owned_object None # demo_course OpUpdate owned_object @ [ActClose]"
  by (simp add: ReconcileObject_def add_finalizer_def write_object_def getOrCreateStack_def store_context_def
      load_with_context_def demo_load_any reconcile_stack_def demo_operate Let_def finish_def close_stack_def stack_Close_def
      demo_course_def operation_of_def logged_def)

lemma demo_reconcile_deleted:
  "\<exists>st. ReconcileObject demo_lib demo_reconciler demo_ropts True True no_secrets deleted_object =
     Returns (st, (\<lparr>Requeue = False\<rparr>, None)) \<and>
     rc_trace st = demo_course OpDestroy deleted_object @
       [ActWriteObject (meta_of (fin_Remove list_finalizers deleted_object ''f'')) None, ActClose]"
  by (simp add: ReconcileObject_def add_finalizer_def write_object_def getOrCreateStack_def store_context_def
      load_with_context_def demo_load_any reconcile_stack_def demo_operate Let_def finish_def close_stack_def stack_Close_def
      demo_course_def operation_of_def logged_def)


theorem reconcile_follows_protocol_witness:
  "phases (el_HasChanges (rl_Engine demo_lib)) Begin
     (ActWriteObject owned_object None # demo_course OpUpdate owned_object @ [ActClose]) = Some Ended"
  using demo_reconcile_new reconcile_follows_protocol [of demo_lib demo_reconciler demo_ropts True True no_secrets "demo_object 3"]
  by auto

theorem operations_only_on_owned_objects_witness:
  "''f'' \<in> set (om_Finalizers owned_object)"
proof -
  obtain st where run: "ReconcileObject demo_lib demo_reconciler demo_ropts True True no_secrets (demo_object 3) =
      Returns (st, (\<lparr>Requeue = True\<rparr>, None))"
    and "rc_trace st = ActWriteObject owned_object None # demo_course OpUpdate owned_object @ [ActClose]"
    using demo_reconcile_new by blast
  then have "ActOperation OpUpdate True owned_object quiet_trace ([''create'' \<mapsto> 1], None) \<in>
      set (rc_trace (final_state (ReconcileObject demo_lib demo_reconciler demo_ropts True True no_secrets (demo_object 3))))"
    by (simp add: demo_course_def)
  from operations_only_on_owned_objects [OF _ _ this] show ?thesis by simp
qed

theorem finalizer_removed_after_destroy_witness:
  "last_operation (demo_course OpDestroy deleted_object) = Some (OpDestroy, False, ([''create'' \<mapsto> 1], None)) \<and>
   om_DeletionTimestamp (meta_of (fin_Remove list_finalizers deleted_object ''f'')) \<noteq> None"
proof -
  obtain st where run: "ReconcileObject demo_lib demo_reconciler demo_ropts True True no_secrets deleted_object =
      Returns (st, (\<lparr>Requeue = False\<rparr>, None))"
    and "rc_trace st = demo_course OpDestroy deleted_object @
       ActWriteObject (meta_of (fin_Remove list_finalizers deleted_object ''f'')) None # [ActClose]"
    using demo_reconcile_deleted by auto
  then have "rc_trace (final_state (ReconcileObject demo_lib demo_reconciler demo_ropts True True no_secrets deleted_object)) =
      demo_course OpDestroy deleted_object @
       ActWriteObject (meta_of (fin_Remove list_finalizers deleted_object ''f'')) None # [ActClose]"
    by simp
  from finalizer_removed_after_destroy [OF _ _ this] show ?thesis
    by (simp add: last_operation_def demo_course_def note_operation_def)
qed

theorem load_failure_ends_and_leaks_context_witness:
  "\<exists>st. ReconcileObject demo_lib demo_reconciler demo_ropts True True
      (no_secrets(demo_name := [demo_secret ''v'' (join_lines [''a'']) 4])) owned_object =
     Returns (st, (\<lparr>Requeue = True\<rparr>, None)) \<and>
     rc_trace st = [ActContext None, ActLoad (Some ErrSnapshotGenerationMismatch)]"
proof -
  have "GetSnapshot demo_snapshotter (no_secrets(demo_name := [demo_secret ''v'' (join_lines [''a'']) 4])) owned_object =
      Inl ErrSnapshotGenerationMismatch"
    by (simp add: GetSnapshot_def getSnapshot_def mem_Get_def GetObjectGeneration_def newline_def owned_object_def
        newStackReferenceForObject_def demo_object_def demo_name_def makeSecretName_def)
  with load_failure_ends_and_leaks_context [where L = demo_lib and r = demo_reconciler and obj = owned_object and
      sn = demo_snapshotter and sm = "\<lparr>sm_Decrypter = Inr 7\<rparr>" and p = demo_project and opts = demo_ropts]
  show ?thesis by (simp add: demo_backend_def)
qed


end
