(* ===== verification/LanguageHost.thy ===== *)
theory LanguageHost
  imports Host
begin

text \<open>
  The loaders and the embedded language runtime (pkg/plugin/languageruntime.go, pkg/plugin/provider.go).
  The embedded runtime runs the Go function that declares an object's resources, in a goroutine that
  turns its error or panic into the message the engine gets.
\<close>

section \<open>Loaders\<close>

text \<open>\<^verbatim>\<open>SimpleLanguageRuntimeLoader\<close> is a map; a missing name reads as a nil runtime, without an error.\<close>

type_synonym simple_loader = "string \<rightharpoonup> runtime"

definition LoadLanguageRuntime :: "simple_loader \<Rightarrow> 'w runtime_loader" where
  "LoadLanguageRuntime s w name = (w, s name, None)"

text \<open>
  \<^verbatim>\<open>pulumiProviderLoader\<close>: the runtime options and \<^verbatim>\<open>plugin.NewProvider\<close> of the SDK (\<open>newProvider\<close>), which
  starts the installed plugin.
\<close>

record pulumiProviderLoader =
  pl_runtimeOptions :: runtime_options

definition NewPulumiProviderLoader :: "runtime_options \<Rightarrow> pulumiProviderLoader" where
  "NewPulumiProviderLoader opts = \<lparr>pl_runtimeOptions = opts\<rparr>"

definition LoadProvider :: "(runtime_options \<Rightarrow> 'w provider_loader) \<Rightarrow> pulumiProviderLoader \<Rightarrow> 'w provider_loader" where
  "LoadProvider newProvider p w pkg version =
     (case newProvider (pl_runtimeOptions p) w pkg version of (w', pp, err) \<Rightarrow> (w', pp, err))"

text \<open>
  The contract of a loader of runtimes that are already in memory: it has no effect and no error, and
  it answers with the runtime that is available under the name, if any.
\<close>

locale runtime_loading =
  fixes load :: "'w runtime_loader" and available :: "string \<rightharpoonup> runtime"
  assumes load_eq: "load w name = (w, available name, None)"
begin

lemma unavailable:
  assumes "h_languageRuntimeLoader h = load" and "h_languagePlugins h name = None" and "available name = None"
  shows "LanguageRuntime po (w, h) name = ((w, h), None, None)"
  using assms by (simp add: LanguageRuntime_def load_eq)

lemma loaded:
  assumes "h_languageRuntimeLoader h = load" and "h_languagePlugins h name = None"
    and "available name = Some r" and "po_RuntimeInfo po w r = (w', Inr info)"
  shows "LanguageRuntime po (w, h) name = ((w', record_runtime h name r info), Some r, None)"
  using assms by (simp add: LanguageRuntime_def load_eq)

lemma ensure_unavailable:
  assumes "h_languageRuntimeLoader h = load" and "h_languagePlugins h (pi_Name p) = None"
    and "available (pi_Name p) = None" and "pi_Kind p = LanguagePlugin"
  shows "EnsurePlugins po (w, h) [p] kinds = Returns ((w, h), [])"
  using unavailable [OF assms(1-3), of po w] assms(4)
  by (simp add: EnsurePlugins_def ensure_plugin_def)

end

interpretation simple_loader: runtime_loading "LoadLanguageRuntime s" s for s
  by unfold_locales (simp add: LoadLanguageRuntime_def)

text \<open>
  A host with the simple loader asked for a language runtime that is not in the map answers with
  a nil runtime and no error; so \<^verbatim>\<open>EnsurePlugins\<close>, asked for a language plugin that is not available,
  reports success and leaves the host without it.
\<close>

theorem missing_runtime_not_reported:
  assumes "h_languageRuntimeLoader h = LoadLanguageRuntime s" and "s name = None"
    and "h_languagePlugins h name = None"
  shows "LanguageRuntime po (w, h) name = ((w, h), None, None) \<and>
    EnsurePlugins po (w, h) [\<lparr>pi_Name = name, pi_Kind = LanguagePlugin, pi_Version = v\<rparr>] kinds =
      Returns ((w, h), [])"
  using assms by (auto intro: simple_loader.unavailable simple_loader.ensure_unavailable)

theorem missing_runtime_not_reported_witness:
  "EnsurePlugins demo_plugins ([], demo_host\<lparr>h_languageRuntimeLoader := LoadLanguageRuntime [''embedded'' \<mapsto> 1]\<rparr>)
     [\<lparr>pi_Name = ''nodejs'', pi_Kind = LanguagePlugin, pi_Version = None\<rparr>]
     \<lparr>fl_AnalyzerPlugins = True, fl_LanguagePlugins = True, fl_ResourcePlugins = True\<rparr> =
   Returns (([], demo_host\<lparr>h_languageRuntimeLoader := LoadLanguageRuntime [''embedded'' \<mapsto> 1]\<rparr>), [])"
  by (rule conjunct2 [OF missing_runtime_not_reported [of _ "[''embedded'' \<mapsto> 1]" "''nodejs''"]])
    (simp_all add: demo_host_def)

section \<open>The embedded language runtime\<close>

text \<open>
  What a call of Go code ends with: a return with an error or nil, or a panic with a value (an error, a
  string, another value, or nothing that \<^verbatim>\<open>recover\<close> can see: \<^verbatim>\<open>panic(nil)\<close> and \<^verbatim>\<open>runtime.Goexit\<close>).
\<close>

datatype go_panic = PanicError go_error | PanicString string | PanicOther nat | PanicNil

datatype run_end = Finished "go_error option" | Panicked go_panic

text \<open>\<^verbatim>\<open>plugin.RunInfo\<close> and \<^verbatim>\<open>pulumi.RunInfo\<close>.\<close>

record run_info =
  ri_Project :: string
  ri_Stack :: string
  ri_Config :: "config_key \<rightharpoonup> string"
  ri_ConfigSecretKeys :: "config_key list"
  ri_Parallel :: int
  ri_DryRun :: bool
  ri_MonitorAddress :: string

record sdk_run_info =
  sri_Project :: string
  sri_Stack :: string
  sri_Config :: "string \<rightharpoonup> string"
  sri_ConfigSecretKeys :: "string list"
  sri_Parallel :: int
  sri_DryRun :: bool
  sri_MonitorAddr :: string

text \<open>
  The Pulumi Go SDK: the text of a configuration key, the construction and closing of its context, the
  run of a program \<open>'p\<close> in it, and the text of an error.
\<close>

record ('w, 'p) go_sdk =
  sdk_KeyString :: "config_key \<Rightarrow> string"
  sdk_NewContext :: "'w \<Rightarrow> sdk_run_info \<Rightarrow> 'w \<times> run_end"
  sdk_RunWithContext :: "'w \<Rightarrow> 'p \<Rightarrow> 'w \<times> run_end"
  sdk_CloseContext :: "'w \<Rightarrow> 'w"
  sdk_ErrorText :: "go_error \<Rightarrow> string"

record 'p embeddedLanguageRuntime =
  er_requiredPlugins :: "plugin_info list"
  er_program :: 'p

definition NewEmbeddedLanguageRuntime :: "'p \<Rightarrow> 'p embeddedLanguageRuntime" where
  "NewEmbeddedLanguageRuntime program = \<lparr>er_requiredPlugins = [], er_program = program\<rparr>"

definition embedded_Close :: "'p embeddedLanguageRuntime \<Rightarrow> go_error option" where
  "embedded_Close p = None"

definition embedded_GetPluginInfo :: "'p embeddedLanguageRuntime \<Rightarrow> go_error + plugin_info" where
  "embedded_GetPluginInfo p =
     Inr \<lparr>pi_Name = ''embeddedLanguageRuntime'', pi_Kind = UnknownPlugin [], pi_Version = None\<rparr>"

definition embedded_GetRequiredPlugins :: "'p embeddedLanguageRuntime \<Rightarrow> go_error + plugin_info list" where
  "embedded_GetRequiredPlugins p = Inr []"

text \<open>
  The conversion of the configuration: the loop over the map \<^verbatim>\<open>info.Config\<close>, in the order in which it is
  iterated, and the loop over the secret keys.
\<close>

fun config_loop :: "(config_key \<Rightarrow> string) \<Rightarrow> (config_key \<rightharpoonup> string) \<Rightarrow> (string \<rightharpoonup> string) \<Rightarrow>
    config_key list \<Rightarrow> (string \<rightharpoonup> string)" where
  "config_loop str m cfg [] = cfg"
| "config_loop str m cfg (k # ks) =
     config_loop str m (case m k of None \<Rightarrow> cfg | Some v \<Rightarrow> cfg(str k \<mapsto> v)) ks"

definition convert_info :: "(config_key \<Rightarrow> string) \<Rightarrow> config_key list \<Rightarrow> run_info \<Rightarrow> sdk_run_info" where
  "convert_info str order info =
     \<lparr>sri_Project = ri_Project info, sri_Stack = ri_Stack info,
      sri_Config = config_loop str (ri_Config info) Map.empty order,
      sri_ConfigSecretKeys = map str (ri_ConfigSecretKeys info),
      sri_Parallel = ri_Parallel info, sri_DryRun = ri_DryRun info,
      sri_MonitorAddr = ri_MonitorAddress info\<rparr>"

text \<open>
  What the goroutine does: it sends one value on \<^verbatim>\<open>done\<close>, or crashes the process by panicking again, or
  ends without sending.
\<close>

datatype goroutine_end = Sends "go_error option" | Crashes | Silent

fun recovered :: "go_panic \<Rightarrow> goroutine_end" where
  "recovered (PanicError e) = Sends (Some e)"
| "recovered (PanicString s) = Sends (Some (ErrorString s))"
| "recovered (PanicOther v) = Crashes"
| "recovered PanicNil = Silent"

definition run_program :: "('w, 'p) go_sdk \<Rightarrow> 'p embeddedLanguageRuntime \<Rightarrow> 'w \<Rightarrow> sdk_run_info \<Rightarrow>
    'w \<times> goroutine_end" where
  "run_program sdk p w info =
     (case sdk_NewContext sdk w info of
        (w1, Panicked v) \<Rightarrow> (w1, recovered v)
      | (w1, Finished (Some err)) \<Rightarrow> (w1, Sends (Some (Wrapped ''creating Pulumi SDK context'' err)))
      | (w1, Finished None) \<Rightarrow>
          (case sdk_RunWithContext sdk w1 (er_program p) of
             (w2, Finished err) \<Rightarrow> (sdk_CloseContext sdk w2, Sends err)
           | (w2, Panicked v) \<Rightarrow> (sdk_CloseContext sdk w2, recovered v)))"

text \<open>\<^verbatim>\<open>Run\<close> returns a message, the bail flag and an error; it may also crash, or wait for ever on \<^verbatim>\<open>done\<close>.\<close>

datatype run_result = RunReturns string bool "go_error option" | RunCrashes | RunBlocks

definition Run :: "('w, 'p) go_sdk \<Rightarrow> config_key list \<Rightarrow> 'p embeddedLanguageRuntime \<Rightarrow> 'w \<Rightarrow> run_info \<Rightarrow>
    'w \<times> run_result" where
  "Run sdk order p w info =
     (case run_program sdk p w (convert_info (sdk_KeyString sdk) order info) of
        (w', Sends (Some progerr)) \<Rightarrow> (w', RunReturns (sdk_ErrorText sdk progerr) False None)
      | (w', Sends None) \<Rightarrow> (w', RunReturns [] False None)
      | (w', Crashes) \<Rightarrow> (w', RunCrashes)
      | (w', Silent) \<Rightarrow> (w', RunBlocks))"

section \<open>Correctness of the embedded runtime\<close>

lemma config_loop_other:
  "(\<forall>k\<in>set ks. str k \<noteq> t \<or> m k = None) \<Longrightarrow> config_loop str m cfg ks t = cfg t"
  by (induction ks arbitrary: cfg) (auto split: option.split)

lemma config_loop_in:
  assumes "inj_on str (dom m)" and "k \<in> set ks" and "m k = Some v"
  shows "config_loop str m cfg ks (str k) = Some v"
  using assms(2)
proof (induction ks arbitrary: cfg)
  case (Cons j ks)
  show ?case
  proof (cases "k \<in> set ks")
    case True
    with Cons.IH show ?thesis by simp
  next
    case False
    with Cons.prems have "j = k" by simp
    moreover have "\<forall>i\<in>set ks. str i \<noteq> str k \<or> m i = None"
      using False assms(1,3) by (auto dest: inj_onD)
    ultimately show ?thesis using assms(3) by (simp add: config_loop_other)
  qed
qed simp

text \<open>
  The configuration the program sees: whatever order the engine's configuration map is iterated in,
  when no two of its keys have the same text, the program's configuration has exactly the texts of those
  keys, each with the value of its key; the list of secret keys is converted key by key, and the other
  fields are handed on.
\<close>

theorem convert_info_faithful:
  assumes "set order = dom (ri_Config info)" and "inj_on str (dom (ri_Config info))"
  shows "(\<forall>k. k \<in> dom (ri_Config info) \<longrightarrow>
      sri_Config (convert_info str order info) (str k) = ri_Config info k) \<and>
    dom (sri_Config (convert_info str order info)) = str ` dom (ri_Config info) \<and>
    sri_ConfigSecretKeys (convert_info str order info) = map str (ri_ConfigSecretKeys info) \<and>
    sri_DryRun (convert_info str order info) = ri_DryRun info"
proof -
  let ?cfg = "config_loop str (ri_Config info) Map.empty order"
  have found: "?cfg (str k) = ri_Config info k" if "k \<in> dom (ri_Config info)" for k
    using that assms by (cases "ri_Config info k") (auto simp: config_loop_in [OF assms(2)])
  have absent: "?cfg t = None" if "t \<notin> str ` dom (ri_Config info)" for t
  proof -
    have "\<forall>k\<in>set order. str k \<noteq> t \<or> ri_Config info k = None" using that by auto
    then show ?thesis by (simp add: config_loop_other)
  qed
  have "t \<in> dom ?cfg \<longleftrightarrow> t \<in> str ` dom (ri_Config info)" for t
  proof (cases "t \<in> str ` dom (ri_Config info)")
    case True
    then obtain k where "k \<in> dom (ri_Config info)" "t = str k" by blast
    with found [of k] show ?thesis by auto
  next
    case False
    with absent [of t] show ?thesis by auto
  qed
  then have "dom ?cfg = str ` dom (ri_Config info)" by blast
  with found show ?thesis by (simp add: convert_info_def)
qed


text \<open>
  The engine learns of a failed program only through the message: a program that returns an error
  whose text is empty is reported exactly like one that succeeded.
\<close>

lemma empty_error_reported_as_success:
  assumes "sdk_NewContext sdk w (convert_info (sdk_KeyString sdk) order info) = (w1, Finished None)"
    and "sdk_RunWithContext sdk w1 (er_program p) = (w2, Finished (Some e))" and "sdk_ErrorText sdk e = []"
    and "sdk_RunWithContext sdk w1 (er_program q) = (w2, Finished None)"
  shows "Run sdk order p w info = Run sdk order q w info \<and>
    Run sdk order p w info = (sdk_CloseContext sdk w2, RunReturns [] False None)"
  using assms by (simp add: Run_def run_program_def)

text \<open>An SDK whose programs are their own ends.\<close>

fun demo_text :: "go_error \<Rightarrow> string" where
  "demo_text (ErrorString s) = s"
| "demo_text _ = ''other''"

definition demo_sdk :: "(unit, run_end) go_sdk" where
  "demo_sdk =
     \<lparr>sdk_KeyString = (\<lambda>k. key_Namespace k @ '':'' @ key_Name k),
      sdk_NewContext = (\<lambda>w info. (w, Finished None)), sdk_RunWithContext = (\<lambda>w p. (w, p)),
      sdk_CloseContext = (\<lambda>w. w),
      sdk_ErrorText = demo_text\<rparr>"

definition demo_info_config :: run_info where
  "demo_info_config =
     \<lparr>ri_Project = ''p'', ri_Stack = ''s'',
      ri_Config = [ConfigKey ''p'' ''obj'' \<mapsto> ''o'', ConfigKey ''gcp'' ''project'' \<mapsto> ''g''],
      ri_ConfigSecretKeys = [], ri_Parallel = 1, ri_DryRun = True, ri_MonitorAddress = ''m''\<rparr>"

theorem convert_info_faithful_witness:
  "sri_Config (convert_info (sdk_KeyString demo_sdk) [ConfigKey ''gcp'' ''project'', ConfigKey ''p'' ''obj''] demo_info_config)
     ''p:obj'' = Some ''o''"
proof -
  have 1: "set [ConfigKey ''gcp'' ''project'', ConfigKey ''p'' ''obj''] = dom (ri_Config demo_info_config)"
    by (simp add: demo_info_config_def)
  have 2: "inj_on (sdk_KeyString demo_sdk) (dom (ri_Config demo_info_config))"
    by (simp add: demo_info_config_def demo_sdk_def)
  have "ConfigKey ''p'' ''obj'' \<in> dom (ri_Config demo_info_config)" by (simp add: demo_info_config_def)
  with conjunct1 [OF convert_info_faithful [OF 1 2]] show ?thesis
    by (force simp: demo_sdk_def demo_info_config_def)
qed

end
