(* ===== verification/Builder.thy ===== *)
theory Builder
  imports Reconciler LanguageHost
begin

text \<open>
  The construction of a reconciler (pkg/reconcile/builder.go): the builder collects the object type, the
  program and the options; \<^verbatim>\<open>Build\<close> makes the project, the backend and the function that starts a plugin
  host for every reconciliation.
\<close>

section \<open>The builder\<close>

text \<open>
  What the builder uses of the manager: its client, for secrets and for objects, and the kind of an object
  in its scheme (\<^verbatim>\<open>apiutil.GVKForObject\<close>). The remaining libraries: the checkpoint codec with the base64
  secrets manager, qualified names, controller references, \<^verbatim>\<open>strings.ToLower\<close> beyond ASCII, the provider
  plugins of the SDK, the engine server, the working directory and \<^verbatim>\<open>plugin.NewContext\<close> (which gives
  the identity of the context), and the identity of a new runtime.
\<close>

record ('w, 'o) manager =
  mgr_Secrets :: "'w secret_client"
  mgr_Update :: "'w \<Rightarrow> 'o \<Rightarrow> 'w \<times> 'o \<times> go_error option"
  mgr_GVK :: "'o \<Rightarrow> go_error + group_version_kind"

record ('w, 'c, 'p) build_lib =
  bl_Codec :: "'c checkpoint_codec"
  bl_QName :: qname_ops
  bl_ControllerRef :: "object_meta \<Rightarrow> group_version_kind \<Rightarrow> owner_reference"
  bl_SecretsManager :: secrets_manager
  bl_UnicodeLower :: "string \<Rightarrow> string"
  bl_NewProvider :: "runtime_options \<Rightarrow> 'w provider_loader"
  bl_Serve :: "'w \<Rightarrow> 'w \<times> (go_error + int)"
  bl_Getwd :: "'w \<Rightarrow> go_error + string"
  bl_NewContext :: "'w \<Rightarrow> string \<Rightarrow> 'w \<times> (go_error + nat)"
  bl_NewRuntime :: "'w \<Rightarrow> 'p embeddedLanguageRuntime \<Rightarrow> 'w \<times> runtime"

record 'o for_input =
  fi_object :: "'o option"
  fi_err :: "go_error option"

record 'p program_input =
  pi_program :: "'p option"
  pi_runtimeOptions :: runtime_options

record opts_input =
  oi_finalizerName :: string

record ('w, 'o, 'p) reconcilerBuilder =
  rb_mgr :: "('w, 'o) manager"
  rb_forInput :: "'o for_input"
  rb_programInput :: "'p program_input"
  rb_optsInput :: opts_input

definition NewReconcilerManagedBy :: "('w, 'o) manager \<Rightarrow> ('w, 'o, 'p) reconcilerBuilder" where
  "NewReconcilerManagedBy mgr =
     \<lparr>rb_mgr = mgr, rb_forInput = \<lparr>fi_object = None, fi_err = None\<rparr>,
      rb_programInput = \<lparr>pi_program = None, pi_runtimeOptions = Map.empty\<rparr>,
      rb_optsInput = \<lparr>oi_finalizerName = []\<rparr>\<rparr>"

definition For :: "('w, 'o, 'p) reconcilerBuilder \<Rightarrow> 'o \<Rightarrow> ('w, 'o, 'p) reconcilerBuilder" where
  "For b object = b\<lparr>rb_forInput := \<lparr>fi_object = Some object, fi_err = None\<rparr>\<rparr>"

definition WithProgram :: "('w, 'o, 'p) reconcilerBuilder \<Rightarrow> 'p \<Rightarrow> ('p program_input \<Rightarrow> 'p program_input) list \<Rightarrow>
    ('w, 'o, 'p) reconcilerBuilder" where
  "WithProgram b program opts =
     b\<lparr>rb_programInput :=
        foldl (\<lambda>i opt. opt i) \<lparr>pi_program = Some program, pi_runtimeOptions = Map.empty\<rparr> opts\<rparr>"

definition RuntimeOptions :: "runtime_options \<Rightarrow> 'p program_input \<Rightarrow> 'p program_input" where
  "RuntimeOptions runtimeOptions i = i\<lparr>pi_runtimeOptions := runtimeOptions\<rparr>"

definition WithOptions :: "('w, 'o, 'p) reconcilerBuilder \<Rightarrow> (opts_input \<Rightarrow> opts_input) list \<Rightarrow>
    ('w, 'o, 'p) reconcilerBuilder" where
  "WithOptions b opts = b\<lparr>rb_optsInput := foldl (\<lambda>i opt. opt i) (rb_optsInput b) opts\<rparr>"

definition FinalizerName :: "string \<Rightarrow> opts_input \<Rightarrow> opts_input" where
  "FinalizerName name i = i\<lparr>oi_finalizerName := name\<rparr>"

section \<open>Project and backend\<close>

text \<open>
  \<^verbatim>\<open>strings.ToLower\<close>: bytes of ASCII letters when every byte is ASCII, the Unicode mapping otherwise.
\<close>

definition lower_byte :: "char \<Rightarrow> char" where
  "lower_byte c = (let n = of_char c :: nat in if 65 \<le> n \<and> n \<le> 90 then char_of (n + 32) else c)"

definition is_ascii :: "string \<Rightarrow> bool" where
  "is_ascii s = list_all (\<lambda>c. (of_char c :: nat) < 128) s"

definition ToLower :: "(string \<Rightarrow> string) \<Rightarrow> string \<Rightarrow> string" where
  "ToLower unicode s = (if is_ascii s then map lower_byte s else unicode s)"

definition makeProjectName :: "(string \<Rightarrow> string) \<Rightarrow> group_version_kind \<Rightarrow> string" where
  "makeProjectName unicode gvk = ToLower unicode (gvk_Kind gvk) @ ''.'' @ ToLower unicode (gvk_Group gvk)"

definition RuntimeEmbedded :: string where
  "RuntimeEmbedded = ''embedded''"

text \<open>\<^verbatim>\<open>createProject\<close>; without an object the kind cannot be found (the library gets a nil object).\<close>

definition createProject :: "('w, 'c, 'p) build_lib \<Rightarrow> ('w, 'o, 'p) reconcilerBuilder \<Rightarrow> (go_error + project) outcome" where
  "createProject B b =
     (case fi_object (rb_forInput b) of
        None \<Rightarrow> Panics ''nil object''
      | Some object \<Rightarrow>
          (case mgr_GVK (rb_mgr b) object of
             Inl err \<Rightarrow> Returns (Inl err)
           | Inr gvk \<Rightarrow>
               Returns (Inr \<lparr>proj_Name = makeProjectName (bl_UnicodeLower B) gvk, proj_Runtime = RuntimeEmbedded,
                  proj_RuntimeOptions = pi_runtimeOptions (rb_programInput b)\<rparr>)))"

definition snapshotter_of :: "('w, 'c, 'p) build_lib \<Rightarrow> ('w, 'o, 'p) reconcilerBuilder \<Rightarrow>
    ('w, 'c) secretSnapshotter" where
  "snapshotter_of B b =
     \<lparr>sn_Client = mgr_Secrets (rb_mgr b), sn_Codec = bl_Codec B, sn_QName = bl_QName B,
      sn_ControllerRef = bl_ControllerRef B\<rparr>"

definition createBackend :: "('w, 'c, 'p) build_lib \<Rightarrow> ('w, 'o, 'p) reconcilerBuilder \<Rightarrow> project \<Rightarrow>
    ('w, secretSnapshotHandle) defaultBackend" where
  "createBackend B b proj =
     NewDefaultBackend (NewSecretSnapshotter (snapshotter_of B b)) (bl_SecretsManager B) proj"

section \<open>The plugin host of a reconciliation\<close>

text \<open>
  \<^verbatim>\<open>createPluginHost\<close>. Closing the host after a failure of \<^verbatim>\<open>plugin.NewContext\<close> iterates over no plugin. A
  failure to find the working directory returns without closing the host.
\<close>

definition createPluginHost :: "('w, 'c, 'p) build_lib \<Rightarrow> 'w plugin_ops \<Rightarrow> project \<Rightarrow> 'p \<Rightarrow> 'w \<Rightarrow>
    'w \<times> (go_error + 'w plugin_context)" where
  "createPluginHost B po proj program w =
     (case bl_NewRuntime B w (NewEmbeddedLanguageRuntime program) of
        (w1, rt) \<Rightarrow>
          (case NewHost (bl_Serve B) w1 (LoadLanguageRuntime [RuntimeEmbedded \<mapsto> rt])
                  (LoadProvider (bl_NewProvider B) (NewPulumiProviderLoader (proj_RuntimeOptions proj))) of
             (w2, Inl err) \<Rightarrow> (w2, Inl (Wrapped ''creating Pulumi plugin host'' err))
           | (w2, Inr host) \<Rightarrow>
               (case bl_Getwd B w2 of
                  Inl err \<Rightarrow> (w2, Inl err)
                | Inr cwd \<Rightarrow>
                    (case bl_NewContext B w2 cwd of
                       (w3, Inl err) \<Rightarrow>
                         (case Close po [] [] (w3, host) of
                            ((w4, _), _) \<Rightarrow> (w4, Inl (Wrapped ''creating Pulumi plugin context'' err)))
                     | (w3, Inr ctx) \<Rightarrow> (w3, Inr \<lparr>pc_Host = SetPluginContext host ctx\<rparr>)))))"

text \<open>\<^verbatim>\<open>Build\<close>; a program that was never given is a nil function, which the runtime would call.\<close>

definition Build :: "('w, 'c, 'p) build_lib \<Rightarrow> 'w plugin_ops \<Rightarrow> 'p \<Rightarrow> ('w, 'o, 'p) reconcilerBuilder \<Rightarrow>
    (go_error + ('w, secretSnapshotHandle, 'o) PulumiReconciler) outcome" where
  "Build B po nil_program b =
     (case createProject B b of
        Panics m \<Rightarrow> Panics m
      | Returns (Inl err) \<Rightarrow> Returns (Inl err)
      | Returns (Inr proj) \<Rightarrow>
          Returns (Inr
            \<lparr>r_Update = mgr_Update (rb_mgr b), r_FinalizerName = oi_finalizerName (rb_optsInput b),
             r_createPluginContext = createPluginHost B po proj
               (case pi_program (rb_programInput b) of None \<Rightarrow> nil_program | Some program \<Rightarrow> program),
             r_backend = createBackend B b proj, r_hostContext = None, r_proj = proj\<rparr>))"

section \<open>Properties\<close>

lemma lower_byte_dot [simp]: "lower_byte c = CHR ''.'' \<longleftrightarrow> c = CHR ''.''"
proof -
  have "of_char (char_of (of_char c + 32 :: nat)) = (of_char c + 32 :: nat)" if "of_char c \<le> (90 :: nat)"
    using that by simp
  then show ?thesis
    by (auto simp: lower_byte_def Let_def dest: arg_cong [where f = "of_char :: char \<Rightarrow> nat"])
qed

lemma split_at_dot:
  "CHR ''.'' \<notin> set a \<Longrightarrow> CHR ''.'' \<notin> set a' \<Longrightarrow>
     a @ CHR ''.'' # b = a' @ CHR ''.'' # b' \<longleftrightarrow> a = a' \<and> b = b'"
  by (induction a a' rule: list_induct2') auto

text \<open>
  The project name identifies the object type up to letter case and version. For two kinds without a
  dot (all texts in ASCII, as the API server requires), the projects have the same name exactly when
  kind and group agree up to case.
\<close>

theorem project_name_identifies_type:
  assumes "is_ascii (gvk_Kind g)" "is_ascii (gvk_Group g)" "is_ascii (gvk_Kind g')" "is_ascii (gvk_Group g')"
    and "CHR ''.'' \<notin> set (gvk_Kind g)" "CHR ''.'' \<notin> set (gvk_Kind g')"
  shows "makeProjectName u g = makeProjectName u g' \<longleftrightarrow>
    map lower_byte (gvk_Kind g) = map lower_byte (gvk_Kind g') \<and>
    map lower_byte (gvk_Group g) = map lower_byte (gvk_Group g')"
proof -
  have "CHR ''.'' \<notin> set (map lower_byte k)" if "CHR ''.'' \<notin> set k" for k
    using that by (auto simp: image_iff dest: sym)
  with assms show ?thesis by (simp add: makeProjectName_def ToLower_def split_at_dot)
qed

lemma createPluginHost_success:
  assumes "createPluginHost B po proj program w = (w', Inr ctx)"
  obtains w1 rt w2 host cwd c where "bl_NewRuntime B w (NewEmbeddedLanguageRuntime program) = (w1, rt)"
    "NewHost (bl_Serve B) w1 (LoadLanguageRuntime [RuntimeEmbedded \<mapsto> rt])
       (LoadProvider (bl_NewProvider B) (NewPulumiProviderLoader (proj_RuntimeOptions proj))) = (w2, Inr host)"
    "bl_Getwd B w2 = Inr cwd" "bl_NewContext B w2 cwd = (w', Inr c)" "ctx = \<lparr>pc_Host = SetPluginContext host c\<rparr>"
  using assms by (auto simp: createPluginHost_def split: prod.splits sum.splits)

lemma NewHost_success:
  assumes "NewHost serve w load pload = (w', Inr h)"
  shows "h_languageRuntimeLoader h = load \<and> h_providerLoader h = pload \<and> h_languagePlugins h = Map.empty \<and>
    h_resourcePlugins h = Map.empty \<and> h_plugins h = [] \<and> host_ok h"
  using assms by (auto simp: NewHost_def host_ok_def split: prod.splits sum.splits)

lemma Build_success:
  assumes "Build B po np (WithOptions (WithProgram (For (NewReconcilerManagedBy mgr) object) program []) [FinalizerName name]) =
    Returns (Inr r)"
  obtains gvk where "mgr_GVK mgr object = Inr gvk"
    "r_FinalizerName r = name" "proj_Name (r_proj r) = makeProjectName (bl_UnicodeLower B) gvk"
    "proj_Runtime (r_proj r) = RuntimeEmbedded"
    "r_createPluginContext r = createPluginHost B po (r_proj r) program"
  using assms
  by (auto simp: Build_def createProject_def NewReconcilerManagedBy_def For_def WithProgram_def WithOptions_def
      FinalizerName_def split: sum.splits)

text \<open>
  C36. A built reconciler runs the program it was given. For a reconciler built for an object type, a
  program and a finalizer name: its project names the type and the embedded runtime; and every plugin
  context it creates has a fresh host (nothing cached or listed, bookkeeping intact) whose answer for
  the project's runtime is, once its information can be read, a new embedded runtime of exactly that
  program, while every other runtime is unknown to it.
\<close>

theorem built_context_runs_program:
  assumes "Build B po np (WithOptions (WithProgram (For (NewReconcilerManagedBy mgr) object) program []) [FinalizerName name]) =
      Returns (Inr r)"
    and "r_createPluginContext r w = (w', Inr ctx)"
    and "po_RuntimeInfo po2 v (snd (bl_NewRuntime B w \<lparr>er_requiredPlugins = [], er_program = program\<rparr>)) = (v', Inr info)"
  shows "r_FinalizerName r = name \<and> host_ok (pc_Host ctx) \<and> ListPlugins (pc_Host ctx) = [] \<and>
    h_ctx (pc_Host ctx) \<noteq> None \<and>
    snd (LanguageRuntime po2 (v, pc_Host ctx) (proj_Runtime (r_proj r))) =
      (Some (snd (bl_NewRuntime B w \<lparr>er_requiredPlugins = [], er_program = program\<rparr>)), None) \<and>
    snd (LanguageRuntime po2 (v, pc_Host ctx) ''nodejs'') = (None, None)"
proof -
  from assms(1) have r: "r_FinalizerName r = name" "proj_Runtime (r_proj r) = RuntimeEmbedded"
    "r_createPluginContext r = createPluginHost B po (r_proj r) program"
    by (auto elim: Build_success)
  with assms(2) obtain w1 rt w2 host c where
    rt: "bl_NewRuntime B w (NewEmbeddedLanguageRuntime program) = (w1, rt)"
    and host: "NewHost (bl_Serve B) w1 (LoadLanguageRuntime [RuntimeEmbedded \<mapsto> rt])
       (LoadProvider (bl_NewProvider B) (NewPulumiProviderLoader (proj_RuntimeOptions (r_proj r)))) = (w2, Inr host)"
    and ctx: "ctx = \<lparr>pc_Host = SetPluginContext host c\<rparr>"
    by (auto elim: createPluginHost_success)
  let ?h = "SetPluginContext host c"
  have h: "h_languageRuntimeLoader ?h = LoadLanguageRuntime [RuntimeEmbedded \<mapsto> rt]"
    "h_languagePlugins ?h = Map.empty" "h_plugins ?h = []" "host_ok ?h" "h_ctx ?h \<noteq> None"
    using NewHost_success [OF host] by (auto simp: SetPluginContext_def host_ok_def)
  have rt': "snd (bl_NewRuntime B w \<lparr>er_requiredPlugins = [], er_program = program\<rparr>) = rt"
    using rt by (simp add: NewEmbeddedLanguageRuntime_def)
  have "LanguageRuntime po2 (v, ?h) RuntimeEmbedded = ((v', record_runtime ?h RuntimeEmbedded rt info), Some rt, None)"
    using h(2) assms(3) rt' by (intro simple_loader.loaded [OF h(1)]) simp_all
  moreover have "LanguageRuntime po2 (v, ?h) ''nodejs'' = ((v, ?h), None, None)"
    using h(2) by (intro simple_loader.unavailable [OF h(1)]) (simp_all add: RuntimeEmbedded_def)
  ultimately show ?thesis
    using r ctx h rt' by (simp add: ListPlugins_def)
qed

text \<open>
  What happens to the host when a plugin context cannot be made: after a failure of
  \<^verbatim>\<open>plugin.NewContext\<close> the host is closed (its server is stopped) and the wrapped error is returned;
  after a failure to find the working directory the error is returned as it is and the host that was
  started is not closed: its server keeps running and no caller can stop it.
\<close>

lemma context_failure_and_the_host:
  assumes "bl_NewRuntime B w (NewEmbeddedLanguageRuntime program) = (w1, rt)"
    and "NewHost (bl_Serve B) w1 (LoadLanguageRuntime [RuntimeEmbedded \<mapsto> rt])
       (LoadProvider (bl_NewProvider B) (NewPulumiProviderLoader (proj_RuntimeOptions proj))) = (w2, Inr host)"
  shows "createPluginHost B po proj program w =
    (case bl_Getwd B w2 of
       Inl err \<Rightarrow> (w2, Inl err)
     | Inr cwd \<Rightarrow>
         (case bl_NewContext B w2 cwd of
            (w3, Inl err) \<Rightarrow> (fst (po_ServerStop po w3), Inl (Wrapped ''creating Pulumi plugin context'' err))
          | (w3, Inr c) \<Rightarrow> (w3, Inr \<lparr>pc_Host = SetPluginContext host c\<rparr>)))"
  using assms
  by (auto simp: createPluginHost_def Close_def Cancel_def Let_def split: sum.splits prod.splits)

section \<open>A concrete builder\<close>

definition demo_manager :: "(nat list, object_meta) manager" where
  "demo_manager =
     \<lparr>mgr_Secrets = \<lparr>sc_Get = (\<lambda>w n. Inl not_found), sc_Create = (\<lambda>w s. (w, Inl conflict)),
        sc_Update = (\<lambda>w s. (w, Inl conflict)), sc_IsNotFound = (\<lambda>e. e = not_found)\<rparr>,
      mgr_Update = (\<lambda>w obj. (w, obj, None)), mgr_GVK = (\<lambda>obj. Inr (om_GVK obj))\<rparr>"

definition demo_build :: "(nat list, string list option, string) build_lib" where
  "demo_build =
     \<lparr>bl_Codec = plain_codec, bl_QName = slash_qnames,
      bl_ControllerRef = (\<lambda>obj gvk. \<lparr>own_Kind = gvk_Kind gvk, own_Name = om_Name obj, own_UID = om_UID obj,
        own_Controller = True\<rparr>),
      bl_SecretsManager = \<lparr>sm_Decrypter = Inr 7\<rparr>, bl_UnicodeLower = id,
      bl_NewProvider = (\<lambda>opts w pkg v. (w, None, None)), bl_Serve = (\<lambda>w. (w, Inr 5000)),
      bl_Getwd = (\<lambda>w. Inr ''/''), bl_NewContext = (\<lambda>w cwd. (w, Inr 1)), bl_NewRuntime = (\<lambda>w rt. (w, 9))\<rparr>"

lemma demo_built:
  "\<exists>r. Build demo_build demo_plugins [] (WithOptions (WithProgram (For (NewReconcilerManagedBy demo_manager)
      (demo_object 1)) ''program'' []) [FinalizerName ''f'']) = Returns (Inr r) \<and>
     r_createPluginContext r = createPluginHost demo_build demo_plugins (r_proj r) ''program''"
  by (simp add: Build_def createProject_def NewReconcilerManagedBy_def For_def WithProgram_def WithOptions_def
      FinalizerName_def demo_manager_def)

theorem project_name_identifies_type_witness:
  "makeProjectName id \<lparr>gvk_Group = ''g.io'', gvk_Version = ''v1'', gvk_Kind = ''K''\<rparr> =
     makeProjectName id \<lparr>gvk_Group = ''g.io'', gvk_Version = ''v2'', gvk_Kind = ''k''\<rparr>"
  by (subst project_name_identifies_type) (simp_all add: is_ascii_def lower_byte_def Let_def char_of_def bit_iff_odd)

theorem built_context_runs_program_witness:
  "\<exists>(r :: (nat list, secretSnapshotHandle, object_meta) PulumiReconciler) ctx.
     r_createPluginContext r [] = ([], Inr ctx) \<and>
     snd (LanguageRuntime demo_plugins ([], pc_Host ctx) (proj_Runtime (r_proj r))) = (Some 9, None)"
proof -
  obtain r where r: "Build demo_build demo_plugins [] (WithOptions (WithProgram (For (NewReconcilerManagedBy demo_manager)
      (demo_object 1)) ''program'' []) [FinalizerName ''f'']) = Returns (Inr r)"
    "r_createPluginContext r = createPluginHost demo_build demo_plugins (r_proj r) ''program''"
    using demo_built by blast
  then obtain ctx where ctx: "r_createPluginContext r [] = ([], Inr ctx)"
    by (simp add: createPluginHost_def demo_build_def NewHost_def newHostServer_def)
  have info: "\<exists>v info. po_RuntimeInfo demo_plugins [] (snd (bl_NewRuntime demo_build []
      \<lparr>er_requiredPlugins = [], er_program = ''program''\<rparr>)) = (v, Inr info)"
    by (simp add: demo_plugins_def demo_build_def)
  then have "snd (LanguageRuntime demo_plugins ([], pc_Host ctx) (proj_Runtime (r_proj r))) = (Some 9, None)"
    using built_context_runs_program [OF r(1) ctx, where ?po2.0 = demo_plugins and v = "[]"]
    by (auto simp: demo_build_def)
  with ctx show ?thesis by blast
qed

end
