(* ===== verification/Persistence.thy ===== *)
theory Persistence
  imports StackStore Reconciler
begin

text \<open>
  What a whole reconciliation leaves in the store: the composition of the reconciler, the stack and the
  secret snapshotter.
\<close>

section \<open>The services of a reconciliation\<close>

text \<open>
  The services behind a reconciliation, as documented: codec and secrets API; plugins, loaders, callbacks,
  writes of the object and the closing of the plugin context leave the secrets of stacks alone; and the
  object keeps its identity when it is written.
\<close>

definition same_object :: "'b object_meta_scheme \<Rightarrow> 'b object_meta_scheme \<Rightarrow> bool" where
  "same_object obj obj' \<longleftrightarrow> om_UID obj' = om_UID obj \<and> om_Namespace obj' = om_Namespace obj"

definition reconcile_services :: "('w, 'c) secretSnapshotter \<Rightarrow> ('w \<Rightarrow> namespaced_name \<rightharpoonup> secret) \<Rightarrow>
    ('w \<Rightarrow> namespaced_name \<Rightarrow> secret set) \<Rightarrow> ('w, 'b object_meta_scheme) reconcile_lib \<Rightarrow>
    ('w, 'h, 'b object_meta_scheme) PulumiReconciler \<Rightarrow> ('w, 'b object_meta_scheme) ReconcileOptions \<Rightarrow> bool" where
  "reconcile_services sn cur past L r opts \<longleftrightarrow>
     codec_contract (sn_Codec sn) \<and> api_contract (sn_Client sn) cur past \<and>
     plugins_keep (unchanged cur past) (rl_Plugins L) \<and>
     (\<forall>w w' ctx. r_createPluginContext r w = (w', Inr ctx) \<longrightarrow> loaders_keep (unchanged cur past) (pc_Host ctx)) \<and>
     (\<forall>obj f. same_object obj (fin_Add (rl_Finalizers L) obj f)) \<and>
     (\<forall>w obj w' obj' err. r_Update r w obj = (w', obj', err) \<longrightarrow> unchanged cur past w w' \<and> same_object obj obj') \<and>
     (\<forall>w obj chg w' obj' err. opt_UpdateStatus opts w obj chg = (w', obj', err) \<longrightarrow>
        unchanged cur past w w' \<and> same_object obj obj') \<and>
     (\<forall>w ctx w' ctx' err. el_ContextClose (rl_Engine L) (w, ctx) = ((w', ctx'), err) \<longrightarrow> unchanged cur past w w')"

lemma reconcile_services_status:
  "reconcile_services sn cur past L r opts \<Longrightarrow> opt_UpdateStatus opts w obj chg = (w', obj', err) \<Longrightarrow>
     unchanged cur past w w' \<and> same_object obj obj'"
  unfolding reconcile_services_def by blast

lemma reconcile_services_update:
  "reconcile_services sn cur past L r opts \<Longrightarrow> r_Update r w obj = (w', obj', err) \<Longrightarrow>
     unchanged cur past w w' \<and> same_object obj obj'"
  unfolding reconcile_services_def by blast

lemma reconcile_services_close:
  "reconcile_services sn cur past L r opts \<Longrightarrow> el_ContextClose (rl_Engine L) (w, ctx) = ((w', ctx'), err) \<Longrightarrow>
     unchanged cur past w w'"
  unfolding reconcile_services_def by blast

text \<open>A stack an operation on an object can start from, whose secret is \<open>n\<close>.\<close>

definition usable :: "('w, 'c) secretSnapshotter \<Rightarrow> ('w \<Rightarrow> namespaced_name \<rightharpoonup> secret) \<Rightarrow>
    ('w \<Rightarrow> namespaced_name \<Rightarrow> secret set) \<Rightarrow> ('w, 'o) reconcile_lib \<Rightarrow> namespaced_name \<Rightarrow>
    'b object_meta_scheme \<Rightarrow> ('w, secretSnapshotHandle) kubeStack \<Rightarrow> bool" where
  "usable sn cur past L n obj s \<longleftrightarrow>
     services_ok sn cur past (rl_Plugins L) (pc_Host (ks_ctx s)) \<and> secret_stack sn (meta_of obj) s \<and>
     secret_name (meta_of obj) = n"

lemma usable_same: "same_object obj obj' \<Longrightarrow> usable sn cur past L n obj' s = usable sn cur past L n obj s"
  by (simp add: usable_def same_object_def secret_stack_def handle_option_for_def handle_for_def
      newStackReferenceForObject_def split: option.split)

section \<open>Deployments and what they stored\<close>

definition is_deployment :: "action \<Rightarrow> bool" where
  "is_deployment a = (case operation_run a of None \<Rightarrow> False | Some (kind, dryRun, obj, tr) \<Rightarrow> \<not> dryRun)"

lemma is_deployment_simps [simp]:
  "is_deployment (ActOperation kind dryRun obj tr result) \<longleftrightarrow> \<not> dryRun"
  "is_deployment (ActPanic kind dryRun obj tr m) \<longleftrightarrow> \<not> dryRun"
  "\<not> is_deployment (ActWriteObject o1 err)" "\<not> is_deployment (ActContext err)" "\<not> is_deployment (ActLoad err)"
  "\<not> is_deployment (ActMarshal err)" "\<not> is_deployment (ActStatus chg err)" "\<not> is_deployment ActClose"
  by (simp_all add: is_deployment_def)

lemma deploymentI: "operation_run a = Some (kind, False, obj, tr) \<Longrightarrow> is_deployment a"
  by (simp add: is_deployment_def)

abbreviation undeployed :: "('w, 'h, 'o) rec_state \<Rightarrow> bool" where
  "undeployed st \<equiv> list_all (\<lambda>a. \<not> is_deployment a) (rc_trace st)"

text \<open>
  The last snapshot a deployment saved, if its last save succeeded, is what the world stores for the object,
  whether the deployment returned or panicked.
\<close>

definition deployment_stored :: "'c checkpoint_codec \<Rightarrow> ('w \<Rightarrow> namespaced_name \<rightharpoonup> secret) \<Rightarrow>
    namespaced_name \<Rightarrow> ('w, secretSnapshotHandle, 'o) rec_state \<Rightarrow> bool" where
  "deployment_stored C cur n st \<longleftrightarrow>
     (\<forall>a kind obj tr snap. a \<in> set (rc_trace st) \<and> operation_run a = Some (kind, False, obj, tr) \<and>
        save_attempts tr \<noteq> [] \<and> last (save_attempts tr) = (snap, None) \<longrightarrow>
        secret_name obj = n \<and> (\<exists>s. rc_stack st = Some s \<and> stored_as C cur (rc_world st) obj s snap))"

lemma undeployed_stored: "undeployed st \<Longrightarrow> deployment_stored C cur n st"
  unfolding deployment_stored_def list_all_iff using deploymentI by blast

text \<open>One operation of the reconciler with its status update.\<close>

lemma operation_usable:
  assumes "leaves (stack_operation (rl_Plugins L) E eop w s (meta_of obj) opts h0) st tr"
    and "usable sn cur past L n obj s"
  shows "usable sn cur past L n obj (os_stack st)"
  using persistence.operation_keeps [OF assms(1) refl, of sn cur past None] assms(2)
  by (simp add: usable_def attempt_stored_def os_host_def)

lemma operate_store:
  assumes "operate L opts cfg dryRun drained st stack = Returns (st', out)"
    and services: "reconcile_services sn cur past L r opts" and usable: "usable sn cur past L n (rc_obj st) stack"
  obtains kind tr result stack' new where
    "rc_trace st' = rc_trace st @ ActOperation kind dryRun (meta_of (rc_obj st)) tr result # new"
    "list_all (\<lambda>a. \<not> is_deployment a) new" "rc_stack st' = Some stack'" "usable sn cur past L n (rc_obj st') stack'"
    "\<And>snap. save_attempts tr \<noteq> [] \<Longrightarrow> last (save_attempts tr) = (snap, None) \<Longrightarrow>
       secret_name (meta_of (rc_obj st)) = n \<and>
       stored_as (sn_Codec sn) cur (rc_world st') (meta_of (rc_obj st)) stack' snap"
proof -
  from assms(1) obtain st1 events ch res where up: "updateFunc L cfg st stack dryRun = Returns (st1, events, (ch, res))"
    by (auto simp: operate_def split: ending.splits prod.splits)
  then obtain eop os tr so kind where
    op: "stack_operation (rl_Plugins L) (rl_Engine L) eop (rc_world st) stack (meta_of (rc_obj st)) so
      (NewStackChanges dryRun) =
      Returns (os, tr, (ch, res))" and
    st1: "st1 = logged (st\<lparr>rc_world := os_world os, rc_stack := Some (os_stack os)\<rparr>)
      (ActOperation kind dryRun (meta_of (rc_obj st)) tr (ch, res))"
    unfolding updateFunc_def Let_def Update_def Destroy_def
    by (auto split: ending.splits if_splits prod.splits)
  have stored: "stored_as (sn_Codec sn) cur (os_world os) (meta_of (rc_obj st)) (os_stack os) snap"
    if "save_attempts tr \<noteq> []" "last (save_attempts tr) = (snap, None)" for snap
    using operation_stored [OF _ _ leaves_Returns [OF op] that, of sn cur past] usable by (simp add: usable_def)
  have name: "secret_name (meta_of (rc_obj st)) = n" using usable by (simp add: usable_def)
  note usable' = operation_usable [OF leaves_Returns [OF op] usable]
  show thesis
  proof (cases "failed_result res")
    case (Some ret)
    with assms(1) up have "st' = st1" by (simp add: operate_def)
    with st1 stored usable' name show thesis by (intro that [of kind tr "(ch, res)" "[]" "os_stack os"]) simp_all
  next
    case None
    let ?chg = "read_handler (EngineEvent (el_HasChanges (rl_Engine L))) drained events"
    obtain w' obj' err where status: "opt_UpdateStatus opts (rc_world st1) (rc_obj st) ?chg = (w', obj', err)"
      by (metis prod_cases3)
    with None assms(1) up st1 have st': "st' = logged (st1\<lparr>rc_world := w', rc_obj := obj'\<rparr>) (ActStatus ?chg err)"
      by (auto simp: operate_def Let_def updateStatusFunc_def split: option.splits)
    from reconcile_services_status [OF services status]
    have "unchanged cur past (os_world os) w'" "same_object (rc_obj st) obj'" using st1 by simp_all
    with st' st1 stored usable' name show thesis
      by (intro that [of kind tr "(ch, res)" "[ActStatus ?chg err]" "os_stack os"])
        (simp_all add: usable_same stored_as_unchanged)
  qed
qed

lemma operate_panic_store:
  assumes "operate L opts cfg dryRun drained st stack = Panics (st', m)"
    and usable: "usable sn cur past L n (rc_obj st) stack" and "undeployed st"
  shows "deployment_stored (sn_Codec sn) cur n st'"
proof -
  from assms(1) obtain eop so os tr where
    op: "stack_operation (rl_Plugins L) (rl_Engine L) eop (rc_world st) stack (meta_of (rc_obj st)) so
      (NewStackChanges dryRun) = Panics (os, tr, m)" and
    st': "st' = logged (st\<lparr>rc_world := os_world os, rc_stack := Some (os_stack os)\<rparr>)
      (ActPanic (operation_of (meta_of (rc_obj st))) dryRun (meta_of (rc_obj st)) tr m)"
    by (rule operate_panic)
  have "stored_as (sn_Codec sn) cur (os_world os) (meta_of (rc_obj st)) (os_stack os) snap"
    if "save_attempts tr \<noteq> []" "last (save_attempts tr) = (snap, None)" for snap
    using operation_stored [OF _ _ leaves_Panics [OF op] that, of sn cur past] usable by (simp add: usable_def)
  with st' assms(3) usable show ?thesis
    unfolding deployment_stored_def list_all_iff usable_def by (auto dest: deploymentI)
qed

lemma preview_store:
  assumes "operate L opts cfg True drained st stack = Returns (st', out)"
    and "reconcile_services sn cur past L r opts" and "usable sn cur past L n (rc_obj st) stack" and "undeployed st"
  obtains stack' where "rc_stack st' = Some stack'" "usable sn cur past L n (rc_obj st') stack'" "undeployed st'"
proof (rule operate_store [OF assms(1-3)], goal_cases)
  case (1 kind tr result stack' new)
  then show ?case using assms(4) by (intro that) simp_all
qed

lemma deploy_store:
  assumes "operate L opts cfg False drained st stack = Returns (st', out)"
    and "reconcile_services sn cur past L r opts" and "usable sn cur past L n (rc_obj st) stack" and "undeployed st"
  shows "deployment_stored (sn_Codec sn) cur n st'"
proof (rule operate_store [OF assms(1-3)], goal_cases)
  case (1 kind tr result stack' new)
  then show ?case
    using assms(4) unfolding deployment_stored_def list_all_iff by (auto dest: deploymentI)
qed

lemma deployment_stored_unchanged:
  assumes "deployment_stored C cur n st" and "unchanged cur past (rc_world st) (rc_world st')"
    and "rc_trace st' = rc_trace st @ new" and "list_all (\<lambda>a. \<not> is_deployment a) new"
    and "\<And>s. rc_stack st = Some s \<Longrightarrow> \<exists>s'. rc_stack st' = Some s' \<and> ks_snapHandle s' = ks_snapHandle s"
  shows "deployment_stored C cur n st'"
  unfolding deployment_stored_def
proof (intro allI impI, elim conjE)
  fix a kind obj tr snap
  assume in': "a \<in> set (rc_trace st')" and run: "operation_run a = Some (kind, False, obj, tr)"
    and saved: "save_attempts tr \<noteq> []" "last (save_attempts tr) = (snap, None)"
  from in' assms(3,4) deploymentI [OF run] have "a \<in> set (rc_trace st)"
    by (auto simp: list_all_iff)
  with assms(1) run saved obtain s where "rc_stack st = Some s" "secret_name obj = n"
    "stored_as C cur (rc_world st) obj s snap"
    unfolding deployment_stored_def by blast
  moreover obtain s' where "rc_stack st' = Some s'" "ks_snapHandle s' = ks_snapHandle s"
    using assms(5) [OF calculation(1)] by blast
  ultimately show "secret_name obj = n \<and> (\<exists>s. rc_stack st' = Some s \<and> stored_as C cur (rc_world st') obj s snap)"
    using assms(2) by (intro conjI exI [of _ s']) (auto simp: stored_as_def unchanged_def split: option.splits)
qed

lemma finish_store:
  assumes "finish L r st requeue = (st', ret)" and "reconcile_services sn cur past L r opts"
    and "deployment_stored C cur n st"
  shows "deployment_stored C cur n st'"
  using assms(1)
proof (cases rule: finish_cases)
  case (removed err)
  let ?obj = "fin_Remove (rl_Finalizers L) (rc_obj st) (r_FinalizerName r)"
  obtain w' obj' err' where w: "r_Update r (rc_world st) ?obj = (w', obj', err')" by (metis prod_cases3)
  with assms(1) removed have "rc_world st' = w'"
    by (auto simp: finish_def write_object_def split: if_splits option.splits)
  with reconcile_services_update [OF assms(2) w] have "unchanged cur past (rc_world st) (rc_world st')" by simp
  from deployment_stored_unchanged [OF assms(3) this removed(3)] removed(4) show ?thesis by simp
qed (use assms(3) in simp)

lemma close_store:
  assumes "reconcile_services sn cur past L r opts" and "deployment_stored C cur n st"
  shows "deployment_stored C cur n (close_stack L st)"
proof (cases "rc_stack st")
  case None
  with assms(2) show ?thesis by (simp add: close_stack_def)
next
  case (Some s)
  obtain w' ctx' err where c: "el_ContextClose (rl_Engine L) (rc_world st, ks_ctx s) = ((w', ctx'), err)"
    by (metis prod.exhaust)
  from reconcile_services_close [OF assms(1) c]
  have "unchanged cur past (rc_world st) (rc_world (close_stack L st))"
    using Some c by (simp add: close_stack_def stack_Close_def)
  with assms(2) show ?thesis
    by (rule deployment_stored_unchanged [where new = "[ActClose]"])
      (use Some c in \<open>auto simp: close_stack_def stack_Close_def\<close>)
qed

lemma reconcile_stack_store:
  assumes "reconcile_stack L r opts d1 d2 st stack = Returns (st', ret)"
    and services: "reconcile_services sn cur past L r opts" and usable: "usable sn cur past L n (rc_obj st) stack"
    and "undeployed st"
  shows "deployment_stored (sn_Codec sn) cur n st'"
proof -
  have start: "usable sn cur past L n (rc_obj (logged st (ActMarshal None))) stack"
    "undeployed (logged st (ActMarshal None))"
    using usable assms(4) by simp_all
  from assms(1) show ?thesis
  proof (cases rule: reconcile_stack_cases)
    case (marshal e)
    then show ?thesis using assms(4) by (intro undeployed_stored) simp
  next
    case (preview_ended cfg)
    then show ?thesis using undeployed_stored by (rule preview_store [OF _ services start])
  next
    case (no_changes cfg st1 ch)
    from no_changes(1) have "deployment_stored (sn_Codec sn) cur n st1"
      using undeployed_stored by (rule preview_store [OF _ services start])
    with no_changes(3) services show ?thesis by (rule finish_store)
  next
    case (deploy_ended cfg st1 ch stack1)
    from deploy_ended(1) have "usable sn cur past L n (rc_obj st1) stack1 \<and> undeployed st1"
      by (rule preview_store [OF _ services start]) (use deploy_ended(4) in simp)
    with deploy_store [OF deploy_ended(3) services] show ?thesis by blast
  next
    case (deployed cfg st1 ch stack1 st2 ch2)
    from deployed(1) have "usable sn cur past L n (rc_obj st1) stack1 \<and> undeployed st1"
      by (rule preview_store [OF _ services start]) (use deployed(5) in simp)
    with deploy_store [OF deployed(3) services] have "deployment_stored (sn_Codec sn) cur n st2" by blast
    with deployed(4) services show ?thesis by (rule finish_store)
  qed
qed

lemma reconcile_stack_panic_store:
  assumes "reconcile_stack L r opts d1 d2 st stack = Panics (st', m)"
    and services: "reconcile_services sn cur past L r opts" and usable: "usable sn cur past L n (rc_obj st) stack"
    and "undeployed st"
  shows "deployment_stored (sn_Codec sn) cur n st'"
proof -
  have start: "usable sn cur past L n (rc_obj (logged st (ActMarshal None))) stack"
    "undeployed (logged st (ActMarshal None))"
    using usable assms(4) by simp_all
  from assms(1) show ?thesis
  proof (cases rule: reconcile_stack_panic)
    case (preview cfg)
    from operate_panic_store [OF this start] show ?thesis .
  next
    case (deployment cfg st1 ch stack1)
    from deployment(1) have "usable sn cur past L n (rc_obj st1) stack1 \<and> undeployed st1"
      by (rule preview_store [OF _ services start]) (use deployment(4) in simp)
    with operate_panic_store [OF deployment(3)] show ?thesis by blast
  qed
qed

section \<open>The start of a reconciliation\<close>

lemma getOrCreateStack_loaded:
  assumes "getOrCreateStack r st = (st', None)" and "rc_stack st' = Some s"
  obtains w' ctx where "r_createPluginContext r (rc_world st) = (w', Inr ctx)"
    "LoadStack (r_backend r) w' ctx (r_proj r) (meta_of (rc_obj st)) = Inr s" "rc_obj st' = rc_obj st"
    "rc_trace st' = rc_trace st @ [ActContext None, ActLoad None]"
  using assms
  by (auto simp: getOrCreateStack_def store_context_def load_with_context_def Let_def
      split: sum.splits prod.splits option.splits)

lemma started_usable:
  assumes "add_finalizer L r \<lparr>rc_world = w, rc_obj = obj, rc_stack = None, rc_trace = []\<rparr> = (st0, None)"
    and "getOrCreateStack r st0 = (st1, None)" and "rc_stack st1 = Some s"
    and "r_backend r = NewDefaultBackend (NewSecretSnapshotter sn) sm p"
    and services: "reconcile_services sn cur past L r opts"
  shows "usable sn cur past L (secret_name (meta_of obj)) (rc_obj st1) s \<and> undeployed st1"
proof -
  have st0: "same_object obj (rc_obj st0) \<and> undeployed st0"
    using assms(1)
  proof (cases rule: add_finalizer_cases)
    case (added w1 w')
    have "same_object obj (rc_obj st0)"
      using reconcile_services_update [OF services added(3)] services
      by (simp add: reconcile_services_def same_object_def)
    with added show ?thesis by simp
  qed (simp_all add: same_object_def)
  obtain w' ctx where load: "r_createPluginContext r (rc_world st0) = (w', Inr ctx)"
    "LoadStack (r_backend r) w' ctx (r_proj r) (meta_of (rc_obj st0)) = Inr s" "rc_obj st1 = rc_obj st0"
    "rc_trace st1 = rc_trace st0 @ [ActContext None, ActLoad None]"
    by (rule getOrCreateStack_loaded [OF assms(2,3)])
  then have "ks_ctx s = ctx" by (auto simp: assms(4) LoadStack_def newStack_def split: sum.splits)
  moreover have "secret_stack sn (meta_of (rc_obj st0)) s"
    using loaded_in_step [of sn cur past sm p w' ctx "r_proj r" "meta_of (rc_obj st0)" s] load(2) services
    by (simp add: assms(4) reconcile_services_def)
  ultimately show ?thesis
    using load st0 services
    by (simp add: usable_def services_ok_def reconcile_services_def same_object_def newStackReferenceForObject_def)
qed

lemma reconcile_deployment_stored:
  assumes "r_backend r = NewDefaultBackend (NewSecretSnapshotter sn) sm p"
    and services: "reconcile_services sn cur past L r opts"
  shows "deployment_stored (sn_Codec sn) cur (secret_name (meta_of obj))
    (final_state (ReconcileObject L r opts d1 d2 w obj))"
proof (cases "ReconcileObject L r opts d1 d2 w obj" rule: final_state_cases)
  case (returned ret)
  then show ?thesis
  proof (cases rule: ReconcileObject_cases)
    case (no_stack st0 e)
    have "undeployed st0"
      using no_stack(1) by (cases rule: add_finalizer_cases) simp_all
    with no_stack(2) show ?thesis
      by (cases rule: getOrCreateStack_cases) (simp_all add: undeployed_stored)
  next
    case (stack st0 st1 stack st2)
    have "usable sn cur past L (secret_name (meta_of obj)) (rc_obj st1) stack" "undeployed st1"
      using started_usable [OF stack(1-3) assms] by simp_all
    then have "deployment_stored (sn_Codec sn) cur (secret_name (meta_of obj)) st2"
      by (rule reconcile_stack_store [OF stack(4) services])
    with services show ?thesis unfolding stack(5) by (rule close_store)
  qed (simp add: undeployed_stored)
next
  case (panicked m)
  then obtain st0 st1 stack st2 where p:
    "add_finalizer L r \<lparr>rc_world = w, rc_obj = obj, rc_stack = None, rc_trace = []\<rparr> = (st0, None)"
    "getOrCreateStack r st0 = (st1, None)" "rc_stack st1 = Some stack"
    "reconcile_stack L r opts d1 d2 st1 stack = Panics (st2, m)"
    "final_state (ReconcileObject L r opts d1 d2 w obj) = close_stack L st2"
    by (rule ReconcileObject_panic)
  have "usable sn cur past L (secret_name (meta_of obj)) (rc_obj st1) stack" "undeployed st1"
    using started_usable [OF p(1-3) assms] by simp_all
  then have "deployment_stored (sn_Codec sn) cur (secret_name (meta_of obj)) st2"
    by (rule reconcile_stack_panic_store [OF p(4) services])
  with services show ?thesis unfolding p(5) by (rule close_store)
qed

lemma reconcile_stores:
  assumes "r_backend r = NewDefaultBackend (NewSecretSnapshotter sn) sm p"
    and "reconcile_services sn cur past L r opts"
    and "st = final_state (ReconcileObject L r opts d1 d2 w obj)"
    and "a \<in> set (rc_trace st)" and "operation_run a = Some (kind, False, o1, tr)"
    and "save_attempts tr \<noteq> []" and "last (save_attempts tr) = (snap, None)"
  shows "secret_name o1 = secret_name (meta_of obj) \<and>
    (\<exists>s. rc_stack st = Some s \<and> stored_as (sn_Codec sn) cur (rc_world st) o1 s snap)"
  using reconcile_deployment_stored [OF assms(1,2), of obj d1 d2 w] assms(4-7)
  unfolding deployment_stored_def assms(3) by blast

text \<open>
  C7. What a reconciliation deployed is what is stored. When a reconciliation, through all its branches and
  whatever preview, status updates, finalizer and closing did around it, ran a deployment whose last
  attempt to save succeeded, then at its end the secret of the reconciled object decodes to exactly that
  snapshot, at the generation of the object that was deployed, and the stack holds that version. That is
  so too when the engine panicked in the middle of the deployment: what was saved before is not lost. So
  the next reconciliation starts from what this one did.
\<close>

theorem reconcile_persists:
  assumes "r_backend r = NewDefaultBackend (NewSecretSnapshotter sn) sm p"
    and "reconcile_services sn cur past L r opts"
    and "st = final_state (ReconcileObject L r opts d1 d2 w obj)"
    and "a \<in> set (rc_trace st)" and "operation_run a = Some (kind, False, o1, tr)"
    and "save_attempts tr \<noteq> []" and "last (save_attempts tr) = (snap, None)"
  shows "secret_name o1 = secret_name (meta_of obj) \<and>
    (\<exists>s. rc_stack st = Some s \<and> stored_as (sn_Codec sn) cur (rc_world st) o1 s snap)"
  using assms by (rule reconcile_stores)

section \<open>A concrete reconciliation that saves\<close>

text \<open>An engine that saves a snapshot in a deployment, and in a preview has changes unless that snapshot is
  already there.\<close>

definition careful_op :: engine_op where
  "careful_op upd base dryRun =
     (if dryRun then Result ((if base = Some (plain_snapshot [''a'']) then Map.empty else [''create'' \<mapsto> 1], None), Result None)
      else saving_op [''a''] upd base dryRun)"

definition saving_lib :: "(mem, object_meta) reconcile_lib" where
  "saving_lib = demo_lib\<lparr>rl_Engine := demo_engine\<lparr>el_Update := careful_op, el_Destroy := careful_op\<rparr>\<rparr>"

lemma saving_lib_simps [simp]:
  "rl_Finalizers saving_lib = list_finalizers" "rl_Marshal saving_lib obj = Inr (om_Name obj)"
  "rl_Plugins saving_lib = idle_plugins" "el_HasChanges (rl_Engine saving_lib) c \<longleftrightarrow> c ''create'' \<noteq> None"
  "el_Update (rl_Engine saving_lib) = careful_op" "el_Destroy (rl_Engine saving_lib) = careful_op"
  "el_ContextClose (rl_Engine saving_lib) = (\<lambda>(w, ctx). ((w, ctx), None))"
  by (simp_all add: saving_lib_def demo_engine_def)

lemma saving_services: "reconcile_services demo_snapshotter mem_cur mem_past saving_lib demo_reconciler demo_ropts"
proof -
  have "services_ok demo_snapshotter mem_cur mem_past idle_plugins idle_host" by simp
  then show ?thesis
    by (simp add: reconcile_services_def services_ok_def same_object_def unchanged_def list_finalizers_def)
qed

lemma save_owned:
  "SetSnapshot demo_snapshotter no_secrets owned_object (Some (plain_snapshot [''a''])) None =
     (no_secrets(demo_name := [demo_secret ''v'' (join_lines [''a'']) 3]), None,
      Inr (demo_handle ''v'' (join_lines [''a'']) 3))"
proof -
  have new: "new_secret demo_snapshotter owned_object d = new_secret demo_snapshotter (demo_object 3) d" for d
    by (simp add: new_secret_def owned_object_def demo_snapshotter_def demo_object_def newStackReferenceForObject_def)
  have same: "om_Generation owned_object = om_Generation (demo_object 3)"
    "newStackReferenceForObject owned_object = newStackReferenceForObject (demo_object 3)"
    by (simp_all add: owned_object_def newStackReferenceForObject_def)
  have "SetSnapshot demo_snapshotter no_secrets owned_object s p =
      SetSnapshot demo_snapshotter no_secrets (demo_object 3) s p" for s p
    unfolding SetSnapshot_def setSnapshot_def write_secret_def new same by (rule refl)
  then show ?thesis by (simp add: demo_save)
qed

lemma careful_preview:
  "stack_operation idle_plugins E careful_op w (demo_stack None None) obj
     \<lparr>so_DryRun = True, so_Config = Some cfg, so_EventHandler = Some h\<rparr> s0 =
   Returns (\<lparr>os_world = w, os_stack = demo_stack None None, os_events = new_drainer s0\<rparr>, [],
     ([''create'' \<mapsto> 1], None))"
  by (simp add: stack_operation_def newUpdate_def getTarget_def kube_run_def runEngineAction_def careful_op_def GetTarget_def)

lemma careful_deploy:
  "stack_operation idle_plugins E careful_op no_secrets (demo_stack None None) owned_object
     \<lparr>so_DryRun = False, so_Config = Some cfg, so_EventHandler = Some h\<rparr> s0 =
   Returns (\<lparr>os_world = no_secrets(demo_name := [demo_secret ''v'' (join_lines [''a'']) 3]),
      os_stack = demo_stack (Some (plain_snapshot [''a''])) (Some (demo_handle ''v'' (join_lines [''a'']) 3)),
      os_events = send (handler_or_nil (Some h)) (new_drainer s0) (SummaryEvent [''create'' \<mapsto> 1])\<rparr>, demo_trace None,
     ([''create'' \<mapsto> 1], None))"
  by (simp add: stack_operation_def newUpdate_def getTarget_def kube_run_def runEngineAction_def careful_op_def
      saving_op_def demo_trace_def save_owned Save_def os_host_def)

lemma careful_reconcile:
  "\<exists>st. ReconcileObject saving_lib demo_reconciler demo_ropts True True no_secrets owned_object =
     Returns (st, (\<lparr>Requeue = True\<rparr>, None)) \<and>
     ActOperation OpUpdate False owned_object (demo_trace None) ([''create'' \<mapsto> 1], None) \<in> set (rc_trace st) \<and>
     rc_world st = no_secrets(demo_name := [demo_secret ''v'' (join_lines [''a'']) 3])"
  by (simp add: ReconcileObject_def add_finalizer_def getOrCreateStack_def store_context_def load_with_context_def
      demo_load_any reconcile_stack_def operate_def updateFunc_def updateStatusFunc_def Update_def careful_preview
      careful_deploy failed_result_def Let_def finish_def close_stack_def stack_Close_def logged_def)

theorem reconcile_persists_witness:
  "\<exists>st s. ReconcileObject saving_lib demo_reconciler demo_ropts True True no_secrets owned_object =
     Returns (st, (\<lparr>Requeue = True\<rparr>, None)) \<and> rc_stack st = Some s \<and>
     stored_as plain_codec mem_cur (rc_world st) owned_object s (Some (plain_snapshot [''a'']))"
proof -
  obtain st where run: "ReconcileObject saving_lib demo_reconciler demo_ropts True True no_secrets owned_object =
      Returns (st, (\<lparr>Requeue = True\<rparr>, None))"
    and deployed: "ActOperation OpUpdate False owned_object (demo_trace None) ([''create'' \<mapsto> 1], None) \<in> set (rc_trace st)"
    using careful_reconcile by blast
  then have st: "st = final_state (ReconcileObject saving_lib demo_reconciler demo_ropts True True no_secrets owned_object)"
    by simp
  from reconcile_persists [OF _ saving_services st deployed, of "\<lparr>sm_Decrypter = Inr 7\<rparr>" demo_project] run
  show ?thesis by (auto simp: demo_attempts demo_backend_def)
qed

end
