(* ===== verification/Convergence.thy ===== *)
theory Convergence
  imports Persistence
begin

text \<open>
  Progress: after a reconciliation that deployed, the next one finds nothing left to do. This composes what
  the first one stored with the load, the preview and the status of the second.
\<close>

section \<open>A snapshot with nothing left to do\<close>

text \<open>
  What is assumed of the engine: a preview that starts from the snapshot, whatever its configuration and
  whatever its calls are answered, ends without a failure and without changes.
\<close>

definition settled_snapshot :: "('w, 'b object_meta_scheme) reconcile_lib \<Rightarrow> engine_op \<Rightarrow> snapshot \<Rightarrow>
    ('w, 'h, stack_changes) op_state itself \<Rightarrow> bool" where
  "settled_snapshot L eop snap t \<longleftrightarrow>
     (\<forall>h obj (st :: ('w, 'h, stack_changes) op_state) upd. tg_Snapshot (GetTarget upd) = Some snap \<longrightarrow>
        (\<exists>st' tr ch. runEngineAction (rl_Plugins L) h obj st upd eop True = Returns (st', tr, (ch, None)) \<and>
           \<not> el_HasChanges (rl_Engine L) ch))"

text \<open>The status callback succeeds and leaves finalizers and deletion alone.\<close>

definition status_succeeds :: "('w, 'b object_meta_scheme) ReconcileOptions \<Rightarrow> bool" where
  "status_succeeds opts \<longleftrightarrow>
     (\<forall>w obj chg. \<exists>w' obj'. opt_UpdateStatus opts w obj chg = (w', obj', None) \<and> same_ownership obj obj')"

section \<open>The second reconciliation\<close>

text \<open>A preview on a stack whose snapshot is settled.\<close>

lemma settled_preview:
  fixes stack :: "('w, 'h) kubeStack"
  assumes "settled_snapshot L (el_Update (rl_Engine L)) snap TYPE(('w, 'h, stack_changes) op_state)"
    and "ks_snap stack = Some snap" and "sm_Decrypter (db_secretsManager (ks_b stack)) = Inr dec"
    and "om_DeletionTimestamp (rc_obj st) = None" and "status_succeeds opts"
  obtains st' tr ch chg where
    "operate L opts cfg True drained st stack = Returns (st', Inr ch)" "\<not> el_HasChanges (rl_Engine L) ch"
    "rc_trace st' = rc_trace st @ [ActOperation OpUpdate True (meta_of (rc_obj st)) tr (ch, None), ActStatus chg None]"
    "same_ownership (rc_obj st) (rc_obj st')" "rc_stack st' \<noteq> None"
proof -
  let ?hc = "el_HasChanges (rl_Engine L)"
  let ?upd = "\<lparr>upd_Proj = ks_project stack, upd_Target =
      \<lparr>tg_Name = objectReference_Name (el_QName (rl_Engine L)) (ks_ref stack), tg_Config = cfg, tg_Decrypter = dec,
       tg_Snapshot = Some snap\<rparr>\<rparr>"
  let ?os = "\<lparr>os_world = rc_world st, os_stack = stack, os_events = new_drainer (NewStackChanges True)\<rparr>"
  obtain os tr ch where run: "runEngineAction (rl_Plugins L) (Some (EngineEvent ?hc)) (meta_of (rc_obj st)) ?os ?upd
      (el_Update (rl_Engine L)) True = Returns (os, tr, (ch, None))" and quiet: "\<not> ?hc ch"
    using assms(1) unfolding settled_snapshot_def by (force simp: GetTarget_def)
  let ?st1 = "logged (st\<lparr>rc_world := os_world os, rc_stack := Some (os_stack os)\<rparr>)
      (ActOperation OpUpdate True (meta_of (rc_obj st)) tr (ch, None))"
  have up: "updateFunc L cfg st stack True = Returns (?st1, os_events os, (ch, None))"
    using assms(2-4) run
    by (simp add: updateFunc_def Let_def Update_def stack_operation_def newUpdate_def getTarget_def kube_run_def)
  let ?chg = "read_handler (EngineEvent ?hc) drained (os_events os)"
  obtain w' obj' where "opt_UpdateStatus opts (os_world os) (rc_obj st) ?chg = (w', obj', None)" "same_ownership (rc_obj st) obj'"
    using assms(5) unfolding status_succeeds_def by blast
  with up quiet show thesis
    by (intro that [of "logged (?st1\<lparr>rc_world := w', rc_obj := obj'\<rparr>) (ActStatus ?chg None)" ch tr ?chg])
      (simp_all add: operate_def failed_result_def Let_def updateStatusFunc_def)
qed

text \<open>The quiet course of a reconciliation: a preview without changes, and nothing else.\<close>

definition quiet_course :: "action list \<Rightarrow> bool" where
  "quiet_course tr \<longleftrightarrow>
     (\<exists>obj calls ch chg. tr = [ActContext None, ActLoad None, ActMarshal None,
        ActOperation OpUpdate True obj calls (ch, None), ActStatus chg None, ActClose])"

lemma settled_reconcile:
  fixes r :: "('w, secretSnapshotHandle, 'b object_meta_scheme) PulumiReconciler"
  assumes "settled_snapshot L (el_Update (rl_Engine L)) snap TYPE(('w, secretSnapshotHandle, stack_changes) op_state)"
    and "om_DeletionTimestamp obj = None" and "fin_Contains (rl_Finalizers L) obj (r_FinalizerName r)"
    and "r_createPluginContext r w = (w1, Inr ctx)"
    and "LoadStack (r_backend r) w1 ctx (r_proj r) (meta_of obj) = Inr stack" and "ks_snap stack = Some snap"
    and "sm_Decrypter (db_secretsManager (ks_b stack)) = Inr dec"
    and "rl_Marshal L obj = Inr v" and "status_succeeds opts"
  shows "\<exists>st. ReconcileObject L r opts d1 d2 w obj = Returns (st, (\<lparr>Requeue = False\<rparr>, None)) \<and> quiet_course (rc_trace st)"
proof -
  define st0 where "st0 = \<lparr>rc_world = w1, rc_obj = obj, rc_stack = Some stack,
    rc_trace = [ActContext None, ActLoad None, ActMarshal None]\<rparr>"
  have alive: "om_DeletionTimestamp (rc_obj st0) = None" using assms(2) by (simp add: st0_def)
  obtain st1 tr ch chg where
    op: "operate L opts (stack_config (r_proj r) v) True d1 st0 stack = Returns (st1, Inr ch)" "\<not> el_HasChanges (rl_Engine L) ch"
    and st1: "rc_trace st1 = rc_trace st0 @ [ActOperation OpUpdate True (meta_of (rc_obj st0)) tr (ch, None), ActStatus chg None]"
    "same_ownership (rc_obj st0) (rc_obj st1)" "rc_stack st1 \<noteq> None"
    by (rule settled_preview [OF assms(1,6,7) alive assms(9)])
  have "finish L r st1 False = (st1, (\<lparr>Requeue = False\<rparr>, None))"
    using st1(2) assms(2) by (simp add: finish_def st0_def same_ownership_def)
  with op have "reconcile_stack L r opts d1 d2 \<lparr>rc_world = w1, rc_obj = obj, rc_stack = Some stack,
      rc_trace = [ActContext None, ActLoad None]\<rparr> stack = Returns (st1, (\<lparr>Requeue = False\<rparr>, None))"
    using assms(8) by (simp add: reconcile_stack_def Let_def logged_def st0_def)
  then have "ReconcileObject L r opts d1 d2 w obj = Returns (close_stack L st1, (\<lparr>Requeue = False\<rparr>, None))"
    using assms(2-5)
    by (simp add: ReconcileObject_def add_finalizer_def getOrCreateStack_def store_context_def load_with_context_def
        logged_def)
  moreover have "quiet_course (rc_trace (close_stack L st1))"
    using st1(1,3) by (auto simp: quiet_course_def close_stack_trace st0_def)
  ultimately show ?thesis by blast
qed

section \<open>Two reconciliations in a row\<close>


section \<open>A concrete pair of reconciliations\<close>

lemma careful_settled:
  "settled_snapshot saving_lib (el_Update (rl_Engine saving_lib)) (plain_snapshot [''a''])
     TYPE((mem, secretSnapshotHandle, stack_changes) op_state)"
  by (simp add: settled_snapshot_def runEngineAction_def careful_op_def)

lemma demo_status_succeeds: "status_succeeds demo_ropts"
  by (simp add: status_succeeds_def same_ownership_def)


end
