(* ===== verification/Crc32.thy ===== *)
theory Crc32
  imports Prelude
begin

text \<open>
  \<^verbatim>\<open>crc32.ChecksumIEEE\<close> of the Go standard library (the reflected CRC-32 with polynomial 0xedb88320) and the
  verb \<^verbatim>\<open>%08x\<close> of \<^verbatim>\<open>fmt\<close>, as the sample's \<^verbatim>\<open>hash\<close> uses them.
\<close>

unbundle bit_operations_syntax

section \<open>The checksum\<close>

definition crc_bit :: "32 word \<Rightarrow> 32 word" where
  "crc_bit c = (if bit c 0 then drop_bit 1 c XOR 0xedb88320 else drop_bit 1 c)"

definition crc_byte :: "32 word \<Rightarrow> char \<Rightarrow> 32 word" where
  "crc_byte c b = (crc_bit ^^ 8) (c XOR of_char b)"

definition ChecksumIEEE :: "string \<Rightarrow> 32 word" where
  "ChecksumIEEE s = NOT (foldl crc_byte (NOT 0) s)"

lemma crc_byte_unfold:
  "crc_byte c b =
     crc_bit (crc_bit (crc_bit (crc_bit (crc_bit (crc_bit (crc_bit (crc_bit (c XOR of_char b))))))))"
  by (simp add: crc_byte_def numeral_eq_Suc)

lemmas crc_eval = ChecksumIEEE_def crc_byte_unfold crc_bit_def

text \<open>The check value of the standard, and two uids with the same checksum.\<close>

lemma ChecksumIEEE_check: "ChecksumIEEE ''123456789'' = 0xcbf43926"
  by (simp add: crc_eval)

lemma ChecksumIEEE_collision:
  "ChecksumIEEE ''f827f5ee-413f-4ceb-bfb9-0cd24f4674f9'' = 0xd73792fe"
  "ChecksumIEEE ''9ef70b69-2531-4663-8a2f-da139eb6b43d'' = 0xd73792fe"
  by (simp_all add: crc_eval)

section \<open>Hexadecimal text\<close>

definition hex_char :: "nat \<Rightarrow> char" where
  "hex_char d = (if d < 10 then digit_char d else char_of (87 + d))"

fun hex_digits :: "nat \<Rightarrow> nat \<Rightarrow> string" where
  "hex_digits 0 n = []"
| "hex_digits (Suc k) n = hex_digits k (n div 16) @ [hex_char (n mod 16)]"

text \<open>A 32-bit number has at most eight hexadecimal digits, so \<^verbatim>\<open>%08x\<close> prints exactly eight.\<close>

definition format_08x :: "32 word \<Rightarrow> string" where
  "format_08x w = hex_digits 8 (unat w)"

lemma length_hex_digits [simp]: "length (hex_digits k n) = k"
  by (induction k arbitrary: n) auto

definition hex_value :: "char \<Rightarrow> nat" where
  "hex_value c = (let n = of_char c :: nat in if n < 97 then n - 48 else n - 87)"

lemma hex_value_char [simp]: "d < 16 \<Longrightarrow> hex_value (hex_char d) = d"
  by (auto simp: hex_value_def hex_char_def digit_char_def)

definition parse_hex :: "string \<Rightarrow> nat" where
  "parse_hex s = foldl (\<lambda>a c. 16 * a + hex_value c) 0 s"

lemma parse_hex_digits: "parse_hex (hex_digits k n) = n mod 16 ^ k"
proof (induction k arbitrary: n)
  case (Suc k)
  have "n mod 16 ^ Suc k = 16 * (n div 16 mod 16 ^ k) + n mod 16"
    using mod_mult2_eq [of n 16 "16 ^ k"] by (simp add: mult.commute)
  with Suc show ?case by (simp add: parse_hex_def)
qed (simp add: parse_hex_def)

text \<open>The text determines the number.\<close>

lemma format_08x_inj [simp]: "format_08x v = format_08x w \<longleftrightarrow> v = w"
proof
  assume "format_08x v = format_08x w"
  then have "parse_hex (hex_digits 8 (unat v)) = parse_hex (hex_digits 8 (unat w))"
    by (simp add: format_08x_def)
  moreover have "unat u mod 16 ^ 8 = unat u" for u :: "32 word"
  proof -
    have "unat u < 2 ^ LENGTH(32)" by (rule unsigned_less)
    then show ?thesis by simp
  qed
  ultimately have "unat v = unat w" by (simp only: parse_hex_digits)
  then show "v = w" by (rule unsigned_word_eqI)
qed simp

definition hex_alphabet :: string where
  "hex_alphabet = ''0123456789abcdef''"

lemma hex_char_in: "d < 16 \<Longrightarrow> hex_char d \<in> set hex_alphabet"
proof -
  assume "d < 16"
  then have "d = 0 \<or> d = 1 \<or> d = 2 \<or> d = 3 \<or> d = 4 \<or> d = 5 \<or> d = 6 \<or> d = 7 \<or> d = 8 \<or> d = 9 \<or>
      d = 10 \<or> d = 11 \<or> d = 12 \<or> d = 13 \<or> d = 14 \<or> d = 15"
    by arith
  then show ?thesis
    by (elim disjE) (simp_all add: hex_char_def hex_alphabet_def digit_chars [unfolded One_nat_def] char_of_def bit_iff_odd)
qed

lemma hex_digits_alphabet: "set (hex_digits k n) \<subseteq> set hex_alphabet"
  by (induction k arbitrary: n) (auto simp: hex_char_in)

lemma format_08x_alphabet: "set (format_08x w) \<subseteq> set hex_alphabet"
  unfolding format_08x_def by (rule hex_digits_alphabet)

lemma length_format_08x [simp]: "length (format_08x w) = 8"
  by (simp add: format_08x_def)

end
