(* ===== verification/IamAccount.thy ===== *)
theory IamAccount
  imports Builder Crc32
begin

text \<open>
  The sample controller (sample/api/v1/iamaccount_types.go, sample/controllers/iamaccount_controller.go):
  a custom resource that stands for a Google and a Kubernetes service account, the Pulumi program that
  declares them, and the status derived from the stack's changes.
\<close>

section \<open>The custom resource\<close>

definition IamAccountTypeGoogle :: string where
  "IamAccountTypeGoogle = ''google''"

definition IamAccountTypeGeneric :: string where
  "IamAccountTypeGeneric = ''generic''"

definition ConditionReady :: string where
  "ConditionReady = ''Ready''"

record IamAccountSpecGoogle =
  gs_Project :: string

record IamAccountSpec =
  spec_Type :: string
  spec_Google :: "IamAccountSpecGoogle option"

text \<open>\<^verbatim>\<open>metav1.Condition\<close>, by the fields the controller sets.\<close>

record condition =
  cond_Type :: string
  cond_Status :: string
  cond_Reason :: string

record IamAccountStatus =
  st_ObservedGeneration :: int64
  st_Conditions :: "condition list"
  st_GSA :: string
  st_KSA :: string

record IamAccount = object_meta +
  ia_Spec :: IamAccountSpec
  ia_Status :: IamAccountStatus

section \<open>The reconciler\<close>

text \<open>
  The client's read and status update, \<^verbatim>\<open>client.IgnoreNotFound\<close>'s test, and \<^verbatim>\<open>meta.SetStatusCondition\<close> (with
  its documentation: the condition of that type becomes the given one, the others stay).
\<close>

record ('w, 'h) IamAccountReconciler =
  ir_Get :: "'w \<Rightarrow> namespaced_name \<Rightarrow> go_error + IamAccount"
  ir_StatusUpdate :: "'w \<Rightarrow> IamAccount \<Rightarrow> 'w \<times> IamAccount \<times> go_error option"
  ir_IsNotFound :: "go_error \<Rightarrow> bool"
  ir_SetCondition :: "condition list \<Rightarrow> condition \<Rightarrow> condition list"
  ir_Pulumi :: "('w, 'h, IamAccount) PulumiReconciler"

definition condition_of :: "condition list \<Rightarrow> string \<Rightarrow> condition option" where
  "condition_of cs t = find (\<lambda>c. cond_Type c = t) cs"

definition set_condition_contract :: "(condition list \<Rightarrow> condition \<Rightarrow> condition list) \<Rightarrow> bool" where
  "set_condition_contract f \<longleftrightarrow>
     (\<forall>cs c t. condition_of (f cs c) t = (if t = cond_Type c then Some c else condition_of cs t))"

text \<open>\<^verbatim>\<open>UpdateStatus\<close>: the status block, then its update on the server.\<close>

definition string_output :: "property_map \<Rightarrow> string \<Rightarrow> string" where
  "string_output outputs k = (if IsString (prop_at outputs k) then StringValue (prop_at outputs k) else [])"

definition planned_condition :: "bool \<Rightarrow> condition" where
  "planned_condition changes =
     (if changes then \<lparr>cond_Type = ConditionReady, cond_Status = ''False'', cond_Reason = ''PendingChanges''\<rparr>
      else \<lparr>cond_Type = ConditionReady, cond_Status = ''True'', cond_Reason = ''OK''\<rparr>)"

definition new_status :: "(condition list \<Rightarrow> condition \<Rightarrow> condition list) \<Rightarrow> IamAccount \<Rightarrow> stack_changes \<Rightarrow>
    IamAccountStatus" where
  "new_status set_condition obj chg =
     (let st = ia_Status obj;
          st' = (if chg_Planning chg then
                   st\<lparr>st_Conditions := set_condition (st_Conditions st) (planned_condition (chg_HasResourceChanges chg))\<rparr>
                 else
                   st\<lparr>st_GSA := (if spec_Type (ia_Spec obj) = IamAccountTypeGoogle
                                 then string_output (chg_Outputs chg) ''gsa'' else []),
                      st_KSA := string_output (chg_Outputs chg) ''ksa''\<rparr>)
      in st'\<lparr>st_ObservedGeneration := om_Generation obj\<rparr>)"

definition UpdateStatus :: "('w, 'h) IamAccountReconciler \<Rightarrow> 'w \<Rightarrow> IamAccount \<Rightarrow> stack_changes \<Rightarrow>
    'w \<times> IamAccount \<times> go_error option" where
  "UpdateStatus r w obj chg = ir_StatusUpdate r w (obj\<lparr>ia_Status := new_status (ir_SetCondition r) obj chg\<rparr>)"

text \<open>
  \<^verbatim>\<open>Reconcile\<close>: a missing object is no error; the project of a Google account is read through a pointer
  that may be nil. The state of the reconciliation is \<^const>\<open>None\<close> when it did not start.
\<close>

definition Reconcile :: "('w, IamAccount) reconcile_lib \<Rightarrow> ('w, 'h) IamAccountReconciler \<Rightarrow> bool \<Rightarrow> bool \<Rightarrow> 'w \<Rightarrow>
    namespaced_name \<Rightarrow>
    (('w, 'h, IamAccount) rec_state option, ('w, 'h, IamAccount) rec_state option \<times> reconcile_return) unwinding" where
  "Reconcile L r drained1 drained2 w req =
     (case ir_Get r w req of
        Inl err \<Rightarrow> Returns (None, (\<lparr>Requeue = False\<rparr>, if ir_IsNotFound r err then None else Some err))
      | Inr iamAccount \<Rightarrow>
          and_then
            (if spec_Type (ia_Spec iamAccount) = IamAccountTypeGoogle then
               (case spec_Google (ia_Spec iamAccount) of
                  None \<Rightarrow> Panics (None, ''nil pointer dereference: Spec.Google'')
                | Some google \<Rightarrow>
                    Returns [ConfigKey ''google-native'' ''project'' \<mapsto> PlainValue (gs_Project google)])
             else Returns Map.empty)
            (\<lambda>stackConfig.
               case ReconcileObject L (ir_Pulumi r)
                  \<lparr>opt_StackConfig = Some stackConfig, opt_UpdateStatus = UpdateStatus r\<rparr> drained1 drained2 w iamAccount of
                 Returns (st, ret) \<Rightarrow> Returns (Some st, ret)
               | Panics (st, m) \<Rightarrow> Panics (Some st, m)))"

section \<open>The program\<close>

definition hash :: "string \<Rightarrow> string" where
  "hash s = format_08x (ChecksumIEEE s)"

definition makeServiceAccountId :: "'b object_meta_scheme \<Rightarrow> string" where
  "makeServiceAccountId sa = ''iamaccount-'' @ hash (om_UID sa)"

text \<open>
  The Pulumi SDK a program runs in: the object in its configuration, the registration of the two kinds of
  service account, which give an output (\<open>'v\<close>: the email of the one, the name of the other). Literal
  values are outputs too.
\<close>

record 'v gsa_args =
  gsa_Project :: string
  gsa_AccountId :: string
  gsa_DisplayName :: string
  gsa_Description :: string

record 'v ksa_args =
  ksa_Name :: string
  ksa_Namespace :: string
  ksa_Annotations :: "string \<rightharpoonup> 'v"

record ('w, 'v) program_sdk =
  ps_RequireObject :: "'w \<Rightarrow> string \<Rightarrow> IamAccount outcome"
  ps_NewGSA :: "'w \<Rightarrow> string \<Rightarrow> 'v gsa_args \<Rightarrow> 'w \<times> (go_error + 'v)"
  ps_NewKSA :: "'w \<Rightarrow> string \<Rightarrow> 'v ksa_args \<Rightarrow> 'w \<times> (go_error + 'v)"

definition WorkloadIdentityKsaAnnotation :: string where
  "WorkloadIdentityKsaAnnotation = ''iam.gke.io/gcp-service-account''"

text \<open>The Google account of the program: the annotations for the other account and the exports so far.\<close>

definition make_gsa :: "('w, 'v) program_sdk \<Rightarrow> 'w \<Rightarrow> IamAccount \<Rightarrow>
    ('w \<times> (go_error + (string \<rightharpoonup> 'v) \<times> (string \<rightharpoonup> 'v))) outcome" where
  "make_gsa sdk w obj =
     (if spec_Type (ia_Spec obj) = IamAccountTypeGoogle then
        (case spec_Google (ia_Spec obj) of
           None \<Rightarrow> Panics ''nil pointer dereference: Spec.Google''
         | Some google \<Rightarrow>
             (case ps_NewGSA sdk w ''iamaccount''
                \<lparr>gsa_Project = gs_Project google, gsa_AccountId = makeServiceAccountId obj,
                 gsa_DisplayName = ''IamAccount/'' @ om_Namespace obj @ ''/'' @ om_Name obj,
                 gsa_Description = ''Enables resource access for SN Cloud''\<rparr> of
                (w', Inl err) \<Rightarrow> Returns (w', Inl err)
              | (w', Inr email) \<Rightarrow>
                  Returns (w', Inr ([WorkloadIdentityKsaAnnotation \<mapsto> email], [''gsa'' \<mapsto> email]))))
      else Returns (w, Inr (Map.empty, Map.empty)))"

definition MakeResources :: "('w, 'v) program_sdk \<Rightarrow> 'w \<Rightarrow>
    ('w \<times> (string \<rightharpoonup> 'v) \<times> go_error option) outcome" where
  "MakeResources sdk w =
     and_then (ps_RequireObject sdk w ''obj'') (\<lambda>obj.
     and_then (make_gsa sdk w obj) (\<lambda>(w1, r).
       (case r of
          Inl err \<Rightarrow> Returns (w1, Map.empty, Some err)
        | Inr (annotations, exports) \<Rightarrow>
            (case ps_NewKSA sdk w1 ''iamaccount''
               \<lparr>ksa_Name = makeServiceAccountId obj, ksa_Namespace = om_Namespace obj,
                ksa_Annotations = annotations\<rparr> of
               (w2, Inl err) \<Rightarrow> Returns (w2, exports, Some err)
             | (w2, Inr name) \<Rightarrow> Returns (w2, exports(''ksa'' \<mapsto> name), None)))))"

section \<open>Set-up\<close>

definition sample_finalizer :: string where
  "sample_finalizer = ''iamaccount-controller.pulumi-controller.example.com''"

text \<open>
  \<^verbatim>\<open>SetupWithManager\<close>: the reconciler gets the Pulumi reconciler that is built for the program \<open>program\<close>
  (its method \<^verbatim>\<open>MakeResources\<close>), then \<open>complete\<close> registers it with controller-runtime.
\<close>

definition SetupWithManager :: "('w, 'c, 'p) build_lib \<Rightarrow> 'w plugin_ops \<Rightarrow> 'p \<Rightarrow> IamAccount \<Rightarrow> 'p \<Rightarrow>
    (('w, secretSnapshotHandle) IamAccountReconciler \<Rightarrow> go_error option) \<Rightarrow> ('w, IamAccount) manager \<Rightarrow>
    ('w, secretSnapshotHandle) IamAccountReconciler \<Rightarrow>
    (('w, secretSnapshotHandle) IamAccountReconciler \<times> go_error option) outcome" where
  "SetupWithManager B po np empty_account program complete mgr r =
     and_then
       (Build B po np (WithOptions (WithProgram (For (NewReconcilerManagedBy mgr) empty_account) program [])
          [FinalizerName sample_finalizer]))
       (\<lambda>built. case built of
          Inl err \<Rightarrow> Returns (r, Some err)
        | Inr pr \<Rightarrow> (let r' = r\<lparr>ir_Pulumi := pr\<rparr> in Returns (r', complete r')))"

section \<open>Account identifiers\<close>

text \<open>
  The rules of Google for the identifier of a service account, quoted in the source: 6 to 30 characters, a
  lower-case letter first, then lower-case letters, digits and hyphens, no hyphen at the end.
\<close>

definition lower_letters :: string where
  "lower_letters = ''abcdefghijklmnopqrstuvwxyz''"

definition valid_account_id :: "string \<Rightarrow> bool" where
  "valid_account_id s \<longleftrightarrow>
     6 \<le> length s \<and> length s \<le> 30 \<and> list_all (\<lambda>c. c \<in> set (lower_letters @ ''0123456789-'')) s \<and>
     (case s of [] \<Rightarrow> False | c # cs \<Rightarrow> c \<in> set lower_letters \<and> last s \<noteq> CHR ''-'')"

lemma hex_alphabet_lower: "set hex_alphabet \<subseteq> set (lower_letters @ ''0123456789-'') - {CHR ''-''}"
  by (simp add: hex_alphabet_def lower_letters_def)

lemma last_hash: "last (hash s) \<in> set hex_alphabet"
proof -
  have "hash s \<noteq> []" by (simp add: hash_def flip: length_0_conv)
  then have "last (hash s) \<in> set (hash s)" by (rule last_in_set)
  with format_08x_alphabet show ?thesis by (auto simp: hash_def)
qed

text \<open>
  C38. Every identifier the sample makes is valid. Whatever the object's UID, the identifier that its two
  service accounts get has 19 characters and satisfies the rules of the cloud provider for account
  identifiers, so a registration is never refused for its identifier.
\<close>

theorem service_account_id_valid:
  "valid_account_id (makeServiceAccountId obj) \<and> length (makeServiceAccountId obj) = 19"
proof -
  let ?h = "hash (om_UID obj)"
  have len: "length ?h = 8" by (simp add: hash_def)
  have "list_all (\<lambda>c. c \<in> set (lower_letters @ ''0123456789-'')) ?h"
    using format_08x_alphabet [of "ChecksumIEEE (om_UID obj)"] hex_alphabet_lower
    unfolding hash_def list_all_iff by blast
  moreover have "list_all (\<lambda>c. c \<in> set (lower_letters @ ''0123456789-'')) ''iamaccount-''"
    by (simp add: lower_letters_def)
  moreover have "?h \<noteq> []" using len by auto
  moreover have "last ?h \<noteq> CHR ''-''" using last_hash hex_alphabet_lower by blast
  moreover have "CHR ''i'' \<in> set lower_letters" by (simp add: lower_letters_def)
  ultimately show ?thesis
    using len by (simp add: valid_account_id_def makeServiceAccountId_def del: set_append)
qed

text \<open>
  C39. Identifiers identify objects only up to a checksum of 32 bits: two objects get the same identifier
  exactly when their UIDs have the same CRC-32, and there are different UIDs, of the form the API server
  gives out, for which that is so. Two such objects of one Google project claim the same account.
\<close>

theorem service_account_ids_collide:
  "(makeServiceAccountId a = makeServiceAccountId b \<longleftrightarrow> ChecksumIEEE (om_UID a) = ChecksumIEEE (om_UID b)) \<and>
   makeServiceAccountId (a\<lparr>om_UID := ''f827f5ee-413f-4ceb-bfb9-0cd24f4674f9''\<rparr>) =
     makeServiceAccountId (b\<lparr>om_UID := ''9ef70b69-2531-4663-8a2f-da139eb6b43d''\<rparr>)"
  by (simp add: makeServiceAccountId_def hash_def ChecksumIEEE_collision)

end
