(* ===== verification/AccountStatus.thy ===== *)
theory AccountStatus
  imports IamAccount
begin

text \<open>
  What the status of an \<^verbatim>\<open>IamAccount\<close> says after a reconciliation of the sample controller: the composition
  of the reconciler's protocol, the changes accumulated from the engine's events and \<^verbatim>\<open>UpdateStatus\<close>.
\<close>

section \<open>Contracts\<close>

text \<open>
  The API server on the sample's objects: a status update touches neither finalizers nor deletion, and when
  it succeeds gives back the object with the status that was written, at the same generation; a write of
  the object that succeeds keeps finalizers and deletion as written (the status is a subresource, so
  nothing is said about it).
\<close>

definition account_api_contract :: "('w, 'h) IamAccountReconciler \<Rightarrow> bool" where
  "account_api_contract r \<longleftrightarrow>
     (\<forall>w obj w' obj' err. ir_StatusUpdate r w obj = (w', obj', err) \<longrightarrow> same_ownership obj obj' \<and>
        (err = None \<longrightarrow> ia_Status obj' = ia_Status obj \<and> ia_Spec obj' = ia_Spec obj \<and> om_Generation obj' = om_Generation obj)) \<and>
     (\<forall>w obj w' obj'. r_Update (ir_Pulumi r) w obj = (w', obj', None) \<longrightarrow> same_ownership obj obj')"

text \<open>The engine tells in its events what it tells in its result: every summary agrees with the changes, and
  there is one when there are changes.\<close>

definition honest_summaries :: "(resource_changes \<Rightarrow> bool) \<Rightarrow> action list \<Rightarrow> bool" where
  "honest_summaries hc as \<longleftrightarrow>
     (\<forall>kind dryRun obj tr ch res. ActOperation kind dryRun obj tr (ch, res) \<in> set as \<longrightarrow>
        (\<forall>c. SummaryEvent c \<in> set (events_of tr) \<longrightarrow> hc c = hc ch) \<and>
        (hc ch \<longrightarrow> (\<exists>c. SummaryEvent c \<in> set (events_of tr))))"

definition sample_options :: "('w, 'h) IamAccountReconciler \<Rightarrow> config_map option \<Rightarrow> ('w, IamAccount) ReconcileOptions" where
  "sample_options r cfg = \<lparr>opt_StackConfig = cfg, opt_UpdateStatus = UpdateStatus r\<rparr>"

lemma same_ownership_status [simp]: "same_ownership (obj\<lparr>ia_Status := s\<rparr>) obj' = same_ownership obj obj'"
  by (simp add: same_ownership_def)

lemma UpdateStatus_echo:
  assumes "account_api_contract r" and "UpdateStatus r w obj chg = (w', obj', err)"
  shows "same_ownership obj obj' \<and>
    (err = None \<longrightarrow> ia_Status obj' = new_status (ir_SetCondition r) obj chg \<and> ia_Spec obj' = ia_Spec obj \<and>
       om_Generation obj' = om_Generation obj)"
proof -
  from assms(1) have "ir_StatusUpdate r w o1 = (w', obj', err) \<Longrightarrow> same_ownership o1 obj' \<and>
        (err = None \<longrightarrow> ia_Status obj' = ia_Status o1 \<and> ia_Spec obj' = ia_Spec o1 \<and> om_Generation obj' = om_Generation o1)" for o1
    unfolding account_api_contract_def by blast
  from this [OF assms(2) [unfolded UpdateStatus_def]] show ?thesis by simp
qed

lemma account_object_api:
  "account_api_contract r \<Longrightarrow> object_api_contract (ir_Pulumi r) (sample_options r cfg)"
  unfolding object_api_contract_def sample_options_def
  by (auto dest: UpdateStatus_echo) (simp add: account_api_contract_def)

section \<open>A reconciliation of the sample\<close>

lemma Reconcile_cases:
  assumes "Reconcile L r d1 d2 w req = Returns (stopt, ret)"
  obtains (unread) err where "ir_Get r w req = Inl err" "stopt = None"
      "ret = (\<lparr>Requeue = False\<rparr>, if ir_IsNotFound r err then None else Some err)"
  | (reconciled) obj cfg st where "ir_Get r w req = Inr obj" "stopt = Some st"
      "ReconcileObject L (ir_Pulumi r) (sample_options r cfg) d1 d2 w obj = Returns (st, ret)"
  using assms
  by (auto simp: Reconcile_def sample_options_def and_then_Returns
      split: sum.splits if_splits option.splits ending.splits)

lemma failed_result_ret: "failed_result res = Some ret \<Longrightarrow> ret \<noteq> (\<lparr>Requeue = False\<rparr>, None)"
  by (auto simp: failed_result_def split: option.splits if_splits)

lemma operate_not_quiet:
  "operate L opts cfg dryRun drained st stack = Returns (st', Inl ret) \<Longrightarrow> ret \<noteq> (\<lparr>Requeue = False\<rparr>, None)"
  by (erule operate_cases) (auto dest: failed_result_ret split: option.splits)

text \<open>An operation after which the status was reported, on the sample's objects.\<close>

lemma operate_status:
  assumes "operate L (sample_options r c) cfg dryRun drained st stack = Returns (st', Inr ch)"
    and "account_api_contract r"
  obtains kind tr res where
    "rc_trace st' = rc_trace st @ [ActOperation kind dryRun (meta_of (rc_obj st)) tr (ch, res),
       ActStatus (changes_of (el_HasChanges (rl_Engine L)) dryRun drained tr) None]"
    "ia_Status (rc_obj st') = new_status (ir_SetCondition r) (rc_obj st)
       (changes_of (el_HasChanges (rl_Engine L)) dryRun drained tr)"
    "om_Generation (rc_obj st') = om_Generation (rc_obj st)" "same_ownership (rc_obj st) (rc_obj st')"
    "ia_Spec (rc_obj st') = ia_Spec (rc_obj st)"
  using assms(1)
proof (cases rule: operate_cases)
  case (reported tr ch' res w w' err)
  then have "err = None" "ch' = ch" by (auto split: option.splits)
  with UpdateStatus_echo [OF assms(2)] reported show thesis
    by (intro that) (auto simp: sample_options_def)
qed simp

text \<open>The Ready condition: which condition has the type, and what a status update makes of it.\<close>

definition ready_condition :: "IamAccount \<Rightarrow> condition option" where
  "ready_condition obj = condition_of (st_Conditions (ia_Status obj)) ConditionReady"

lemma planned_condition_type [simp]: "cond_Type (planned_condition b) = ConditionReady"
  by (simp add: planned_condition_def)

lemma new_status_simps:
  "st_ObservedGeneration (new_status f obj chg) = om_Generation obj"
  "chg_Planning chg \<Longrightarrow> st_Conditions (new_status f obj chg) =
     f (st_Conditions (ia_Status obj)) (planned_condition (chg_HasResourceChanges chg))"
  "\<not> chg_Planning chg \<Longrightarrow> st_Conditions (new_status f obj chg) = st_Conditions (ia_Status obj)"
  "\<not> chg_Planning chg \<Longrightarrow> st_KSA (new_status f obj chg) = string_output (chg_Outputs chg) ''ksa''"
  "\<not> chg_Planning chg \<Longrightarrow> st_GSA (new_status f obj chg) =
     (if spec_Type (ia_Spec obj) = IamAccountTypeGoogle then string_output (chg_Outputs chg) ''gsa'' else [])"
  by (simp_all add: new_status_def Let_def)

lemma ready_after_preview:
  assumes "set_condition_contract f" and "ia_Status obj' = new_status f obj chg" and "chg_Planning chg"
  shows "ready_condition obj' = Some (planned_condition (chg_HasResourceChanges chg))"
  using assms by (simp add: ready_condition_def new_status_simps set_condition_contract_def)

lemma ready_after_deployment:
  "ia_Status obj' = new_status f obj chg \<Longrightarrow> \<not> chg_Planning chg \<Longrightarrow> ready_condition obj' = ready_condition obj"
  by (simp add: ready_condition_def new_status_simps)

text \<open>What the accumulated changes say when the summaries are honest.\<close>

lemma last_some_in: "last_some f xs = Some y \<Longrightarrow> \<exists>x\<in>set xs. f x = Some y"
  by (induction xs rule: rev_induct) (auto simp: last_some_snoc split: option.splits)

lemma last_some_None: "last_some f xs = None \<Longrightarrow> x \<in> set xs \<Longrightarrow> f x = None"
  by (induction xs rule: rev_induct) (auto simp: last_some_snoc split: option.splits)

lemma summary_of_iff [simp]: "summary_of e = Some c \<longleftrightarrow> e = SummaryEvent c"
  by (cases e) (auto simp: summary_of_def)

lemma honest_flag:
  assumes "honest_summaries hc as" and "ActOperation kind dryRun obj tr (ch, res) \<in> set as"
    and "drained \<or> \<not> hc ch"
  shows "chg_HasResourceChanges (changes_of hc dryRun drained tr) = hc ch"
proof -
  let ?es = "if drained then events_of tr else butlast (events_of tr)"
  from assms(1,2) have H: "SummaryEvent c \<in> set (events_of tr) \<Longrightarrow> hc c = hc ch"
      "hc ch \<Longrightarrow> \<exists>c. SummaryEvent c \<in> set (events_of tr)" for c
    unfolding honest_summaries_def by blast+
  show ?thesis
  proof (cases "last_some summary_of ?es")
    case None
    have "\<not> hc ch"
    proof
      assume "hc ch"
      with H(2) assms(3) obtain c where "SummaryEvent c \<in> set ?es" by auto
      from last_some_None [OF None this] show False by (simp add: summary_of_def)
    qed
    with None show ?thesis by (simp add: changes_of_def StackChanges_fold split del: if_split)
  next
    case (Some c)
    then have "SummaryEvent c \<in> set ?es" by (auto dest: last_some_in)
    then have "hc c = hc ch" using H(1) by (auto split: if_splits dest: in_set_butlastD)
    with Some show ?thesis by (simp add: changes_of_def StackChanges_fold split del: if_split)
  qed
qed

text \<open>Two shapes of a reconciliation: it ends quietly after the preview, or after a deployment with its status.\<close>

lemma reconcile_stack_quiet:
  assumes "reconcile_stack L (ir_Pulumi r) (sample_options r c) d1 d2 st stack = Returns (st', (\<lparr>Requeue = False\<rparr>, None))"
    and "account_api_contract r" and "om_DeletionTimestamp (rc_obj st) = None"
  obtains cfg ch where "operate L (sample_options r c) cfg True d1 (logged st (ActMarshal None)) stack = Returns (st', Inr ch)"
    "\<not> el_HasChanges (rl_Engine L) ch"
  using assms(1)
proof (cases rule: reconcile_stack_cases)
  case (no_changes cfg st1 ch)
  from no_changes(1) have "om_DeletionTimestamp (rc_obj st1) = None"
    using assms(3) by (elim operate_status [OF _ assms(2)]) (simp add: same_ownership_def)
  with no_changes(3) have "st' = st1" by (auto elim: finish_cases)
  with no_changes show thesis by (intro that) simp_all
next
  case (deployed cfg st1 ch stack1 st2 ch2)
  from deployed(1,3) have "om_DeletionTimestamp (rc_obj st2) = None"
    using assms(3) by (elim operate_status [OF _ assms(2)]) (simp add: same_ownership_def)
  with deployed(4) show thesis by (auto elim: finish_cases)
qed (auto dest: operate_not_quiet)

lemma operate_ended_last:
  "operate L opts cfg dryRun drained st stack = Returns (st', Inl ret) \<Longrightarrow>
   rc_trace st' \<noteq> before @ [a, ActStatus chg None]"
  by (erule operate_cases) (auto split: option.splits)

lemma reconcile_stack_deployed:
  assumes "reconcile_stack L (ir_Pulumi r) (sample_options r c) d1 d2 st stack = Returns (st', ret)"
    and "account_api_contract r"
    and "rc_trace st' = before @ [ActOperation kind False o1 tr result, ActStatus chg None]"
  obtains cfg st1 ch stack1 ch2 where
    "operate L (sample_options r c) cfg True d1 (logged st (ActMarshal None)) stack = Returns (st1, Inr ch)"
    "el_HasChanges (rl_Engine L) ch"
    "operate L (sample_options r c) cfg False d2 st1 stack1 = Returns (st', Inr ch2)" "ret = (\<lparr>Requeue = True\<rparr>, None)"
  using assms(1)
proof (cases rule: reconcile_stack_cases)
  case (marshal e)
  with assms(3) show thesis by simp
next
  case (preview_ended cfg)
  from operate_ended_last [OF this] assms(3) show thesis by blast
next
  case (no_changes cfg st1 ch)
  from no_changes(1,3) assms(3) show thesis
    by (elim operate_status [OF _ assms(2)] finish_cases) simp_all
next
  case (deploy_ended cfg st1 ch stack1)
  from operate_ended_last [OF deploy_ended(3)] assms(3) show thesis by blast
next
  case (deployed cfg st1 ch stack1 st2 ch2)
  from deployed(4) have "st' = st2 \<and> ret = (\<lparr>Requeue = True\<rparr>, None)"
    using assms(3) by (elim finish_cases) simp_all
  with deployed show thesis by (intro that) simp_all
qed

lemma close_stack_obj [simp]: "rc_obj (close_stack L st) = rc_obj st"
  by (simp add: close_stack_def split: option.split prod.split)

lemma Reconcile_deployed:
  fixes r :: "('w, 'h) IamAccountReconciler"
  assumes "Reconcile L r d1 d2 w req = Returns (Some st, ret)" and api: "account_api_contract r"
    and "rc_trace st = before @ [ActOperation kind False o1 tr result, ActStatus chg None, ActClose]"
  obtains st0 st1 st2 :: "('w, 'h, IamAccount) rec_state" and cfg ch stack0 stack1 ch2 c where
    "operate L (sample_options r c) cfg True d1 st0 stack0 = Returns (st1, Inr ch)" "el_HasChanges (rl_Engine L) ch"
    "operate L (sample_options r c) cfg False d2 st1 stack1 = Returns (st2, Inr ch2)" "ret = (\<lparr>Requeue = True\<rparr>, None)"
    "rc_obj st = rc_obj st2" "rc_trace st = rc_trace st2 @ [ActClose]"
proof -
  obtain obj c where "ReconcileObject L (ir_Pulumi r) (sample_options r c) d1 d2 w obj = Returns (st, ret)"
    using assms(1) by (auto elim: Reconcile_cases)
  then show thesis
  proof (cases rule: ReconcileObject_cases)
    case (no_stack s0 e)
    from no_stack(2) have "last (rc_trace st) \<noteq> ActClose" by (cases rule: getOrCreateStack_cases) simp_all
    with assms(3) show thesis by simp
  next
    case (stack s0 s1 stk s2)
    then have tr: "rc_trace st = rc_trace s2 @ [ActClose]" "rc_obj st = rc_obj s2"
      using reconcile_stack_keeps_stack by (fastforce simp: close_stack_trace)+
    with assms(3) have "rc_trace s2 = before @ [ActOperation kind False o1 tr result, ActStatus chg None]" by simp
    from reconcile_stack_deployed [OF stack(4) api this]
    obtain cfg st1 ch stack1 ch2 where
      "operate L (sample_options r c) cfg True d1 (logged s1 (ActMarshal None)) stk = Returns (st1, Inr ch)"
      "el_HasChanges (rl_Engine L) ch"
      "operate L (sample_options r c) cfg False d2 st1 stack1 = Returns (s2, Inr ch2)" "ret = (\<lparr>Requeue = True\<rparr>, None)"
      by metis
    then show thesis by (rule that) (rule tr)+
  qed (use assms(3) in simp)
qed

text \<open>The status of an object after a preview with changes and a deployment whose statuses were written.\<close>

lemma deployed_status:
  fixes r :: "('w, 'h) IamAccountReconciler"
  assumes "Reconcile L r d1 d2 w req = Returns (Some st, ret)" and api: "account_api_contract r"
    and "set_condition_contract (ir_SetCondition r)" and hc: "hc = el_HasChanges (rl_Engine L)"
    and "rc_trace st = before @ [ActOperation kind False o1 tr result, ActStatus chg None, ActClose]"
  obtains kindp op trp ch resp before1 where
    "before = before1 @ [ActOperation kindp True op trp (ch, resp), ActStatus (changes_of hc True d1 trp) None]"
    "hc ch" "ret = (\<lparr>Requeue = True\<rparr>, None)"
    "ready_condition (rc_obj st) = Some (planned_condition (chg_HasResourceChanges (changes_of hc True d1 trp)))"
    "st_ObservedGeneration (ia_Status (rc_obj st)) = om_Generation (rc_obj st)"
    "st_KSA (ia_Status (rc_obj st)) = string_output (chg_Outputs (changes_of hc False d2 tr)) ''ksa''"
    "st_GSA (ia_Status (rc_obj st)) = (if spec_Type (ia_Spec (rc_obj st)) = IamAccountTypeGoogle
       then string_output (chg_Outputs (changes_of hc False d2 tr)) ''gsa'' else [])"
proof -
  obtain st0 st1 st2 :: "('w, 'h, IamAccount) rec_state" and cfg ch stack0 stack1 ch2 c where
    preview: "operate L (sample_options r c) cfg True d1 st0 stack0 = Returns (st1, Inr ch)" "hc ch"
    and deploy: "operate L (sample_options r c) cfg False d2 st1 stack1 = Returns (st2, Inr ch2)"
    and ret: "ret = (\<lparr>Requeue = True\<rparr>, None)" and st: "rc_obj st = rc_obj st2" "rc_trace st = rc_trace st2 @ [ActClose]"
    unfolding hc by (rule Reconcile_deployed [OF assms(1,2,5)])
  obtain kindp trp resp where p:
    "rc_trace st1 = rc_trace st0 @ [ActOperation kindp True (meta_of (rc_obj st0)) trp (ch, resp),
       ActStatus (changes_of hc True d1 trp) None]"
    "ia_Status (rc_obj st1) = new_status (ir_SetCondition r) (rc_obj st0) (changes_of hc True d1 trp)"
    unfolding hc by (rule operate_status [OF preview(1) api])
  obtain tr' where d: "rc_trace st1 = before" "tr' = tr"
    "ia_Status (rc_obj st2) = new_status (ir_SetCondition r) (rc_obj st1) (changes_of hc False d2 tr')"
    "om_Generation (rc_obj st2) = om_Generation (rc_obj st1)" "ia_Spec (rc_obj st2) = ia_Spec (rc_obj st1)"
    unfolding hc by (rule operate_status [OF deploy api]) (use st(2) assms(5) in simp)
  have "ready_condition (rc_obj st) = ready_condition (rc_obj st1)"
    unfolding st(1) by (rule ready_after_deployment [OF d(3)]) simp
  also have "\<dots> = Some (planned_condition (chg_HasResourceChanges (changes_of hc True d1 trp)))"
    by (rule ready_after_preview [OF assms(3) p(2)]) simp
  finally show thesis
    using p(1) d preview(2) ret st(1) by (intro that) (simp_all add: new_status_simps)
qed

section \<open>Properties\<close>

text \<open>
  C9. Settled means ready. When a reconciliation of an object that is not being deleted ends with neither an
  error nor a request to be repeated, the object's Ready condition is True with reason OK, and its observed
  generation is its generation (provided the engine's summaries agree with its results). So the sample
  never goes quiet on an object that it reports as pending.
\<close>

theorem settled_is_ready:
  assumes "Reconcile L r d1 d2 w req = Returns (Some st, (\<lparr>Requeue = False\<rparr>, None))"
    and "ir_Get r w req = Inr obj" and "om_DeletionTimestamp obj = None"
    and "account_api_contract r" and "set_condition_contract (ir_SetCondition r)"
    and "finalizer_contract (rl_Finalizers L)" and "honest_summaries (el_HasChanges (rl_Engine L)) (rc_trace st)"
  shows "ready_condition (rc_obj st) =
      Some \<lparr>cond_Type = ConditionReady, cond_Status = ''True'', cond_Reason = ''OK''\<rparr> \<and>
    st_ObservedGeneration (ia_Status (rc_obj st)) = om_Generation (rc_obj st)"
proof -
  let ?hc = "el_HasChanges (rl_Engine L)"
  obtain c where "ReconcileObject L (ir_Pulumi r) (sample_options r c) d1 d2 w obj = Returns (st, (\<lparr>Requeue = False\<rparr>, None))"
    using assms(1,2) by (auto elim: Reconcile_cases)
  then show ?thesis
  proof (cases rule: ReconcileObject_cases)
    case (stack s0 s1 stk s2)
    have "om_DeletionTimestamp (rc_obj s1) = None"
      using add_finalizer_ok [OF stack(1) assms(6) account_object_api [OF assms(4)]] stack(2) assms(3)
      by (auto simp: owned_def elim: getOrCreateStack_cases)
    from reconcile_stack_quiet [OF stack(4) assms(4) this] obtain cfg ch where
      op: "operate L (sample_options r c) cfg True d1 (logged s1 (ActMarshal None)) stk = Returns (s2, Inr ch)" "\<not> ?hc ch" .
    obtain kind tr res where p:
      "rc_trace s2 = rc_trace s1 @ [ActMarshal None, ActOperation kind True (meta_of (rc_obj s1)) tr (ch, res),
         ActStatus (changes_of ?hc True d1 tr) None]"
      "ia_Status (rc_obj s2) = new_status (ir_SetCondition r) (rc_obj s1) (changes_of ?hc True d1 tr)"
      "om_Generation (rc_obj s2) = om_Generation (rc_obj s1)"
      by (rule operate_status [OF op(1) assms(4)]) simp
    have "rc_trace st = rc_trace s2 @ [ActClose]" "rc_obj st = rc_obj s2"
      using reconcile_stack_keeps_stack [OF stack(4)] stack(3,5) by (simp_all add: close_stack_trace)
    moreover have "\<not> chg_HasResourceChanges (changes_of ?hc True d1 tr)"
      using honest_flag [OF assms(7), of kind True _ tr ch res d1] op(2) p(1) calculation(1) by fastforce
    ultimately show ?thesis
      using ready_after_preview [OF assms(5) p(2)] p(2,3) by (simp add: new_status_simps planned_condition_def)
  qed (auto split: if_splits)
qed


text \<open>
  C24. A missed summary is reported as ready. When the goroutine that drains the events of the preview has not
  handled the last of them, the summary, by the time the changes are read, then after the deployment of
  those changes the object's Ready condition is True with reason OK, at the observed generation, although
  the preview announced changes.
\<close>

theorem missed_summary_reports_ready:
  assumes "Reconcile L r False d2 w req = Returns (Some st, ret)"
    and "rc_trace st = before @ [ActOperation kindp True op trp (ch, resp), ActStatus chgp None] @
      [ActOperation kind False o1 tr result, ActStatus chg None, ActClose]"
    and "account_api_contract r" and "set_condition_contract (ir_SetCondition r)"
    and "events_of trp = es @ [SummaryEvent c]" and "last_some summary_of es = None"
  shows "el_HasChanges (rl_Engine L) ch \<and>
    ready_condition (rc_obj st) = Some \<lparr>cond_Type = ConditionReady, cond_Status = ''True'', cond_Reason = ''OK''\<rparr> \<and>
    st_ObservedGeneration (ia_Status (rc_obj st)) = om_Generation (rc_obj st)"
proof -
  let ?hc = "el_HasChanges (rl_Engine L)"
  have "rc_trace st = (before @ [ActOperation kindp True op trp (ch, resp), ActStatus chgp None]) @
      [ActOperation kind False o1 tr result, ActStatus chg None, ActClose]"
    using assms(2) by simp
  from deployed_status [OF assms(1,3,4) refl this] have "?hc ch \<and>
      ready_condition (rc_obj st) = Some (planned_condition (chg_HasResourceChanges (changes_of ?hc True False trp))) \<and>
      st_ObservedGeneration (ia_Status (rc_obj st)) = om_Generation (rc_obj st)"
    by auto
  moreover have "\<not> chg_HasResourceChanges (changes_of ?hc True False trp)"
    using assms(5,6) by (simp add: changes_of_def StackChanges_fold)
  ultimately show ?thesis by (simp add: planned_condition_def)
qed

section \<open>Concrete reconciliations of the sample\<close>

text \<open>
  The sample over the in-memory API, with an engine that reports the stack's outputs and then a summary of
  the given changes.
\<close>

definition reporting_op :: "resource_changes \<Rightarrow> engine_op" where
  "reporting_op ch upd base dryRun =
     Call (EmitEvent (ResourceOutputsEvent pulumiStackType (Some [''ksa'' \<mapsto> PropString ''account'']))) (\<lambda>_.
     Call (EmitEvent (SummaryEvent ch)) (\<lambda>_. Result ((ch, None), Result None)))"

definition reporting_trace :: "resource_changes \<Rightarrow> call_trace" where
  "reporting_trace ch =
     [(EmitEvent (ResourceOutputsEvent pulumiStackType (Some [''ksa'' \<mapsto> PropString ''account''])), Emitted),
      (EmitEvent (SummaryEvent ch), Emitted)]"

definition sample_lib :: "resource_changes \<Rightarrow> (mem, IamAccount) reconcile_lib" where
  "sample_lib ch =
     \<lparr>rl_Finalizers = list_finalizers, rl_Marshal = (\<lambda>obj. Inr (om_Name obj)), rl_Plugins = idle_plugins,
      rl_Engine = demo_engine\<lparr>el_Update := reporting_op ch, el_Destroy := reporting_op ch\<rparr>\<rparr>"

definition sample_account :: IamAccount where
  "sample_account = object_meta.extend owned_object
     \<lparr>ia_Spec = \<lparr>spec_Type = IamAccountTypeGeneric, spec_Google = None\<rparr>,
      ia_Status = \<lparr>st_ObservedGeneration = 0, st_Conditions = [], st_GSA = [], st_KSA = []\<rparr>\<rparr>"

definition sample_reconciler :: "(mem, secretSnapshotHandle) IamAccountReconciler" where
  "sample_reconciler =
     \<lparr>ir_Get = (\<lambda>w n. Inr sample_account), ir_StatusUpdate = (\<lambda>w obj. (w, obj, None)), ir_IsNotFound = (\<lambda>e. False),
      ir_SetCondition = (\<lambda>cs c. c # filter (\<lambda>d. cond_Type d \<noteq> cond_Type c) cs),
      ir_Pulumi =
        \<lparr>r_Update = (\<lambda>w obj. (w, obj, None)), r_FinalizerName = ''f'',
         r_createPluginContext = (\<lambda>w. (w, Inr \<lparr>pc_Host = idle_host\<rparr>)), r_backend = demo_backend (Inr 7),
         r_hostContext = None, r_proj = demo_project\<rparr>\<rparr>"

lemma sample_simps [simp]:
  "rl_Finalizers (sample_lib ch) = list_finalizers" "rl_Marshal (sample_lib ch) obj = Inr (om_Name obj)"
  "rl_Plugins (sample_lib ch) = idle_plugins" "el_HasChanges (rl_Engine (sample_lib ch)) c \<longleftrightarrow> c ''create'' \<noteq> None"
  "el_Update (rl_Engine (sample_lib ch)) = reporting_op ch" "el_Destroy (rl_Engine (sample_lib ch)) = reporting_op ch"
  "el_ContextClose (rl_Engine (sample_lib ch)) = (\<lambda>(w, ctx). ((w, ctx), None))"
  "ir_Get sample_reconciler w n = Inr sample_account" "ir_StatusUpdate sample_reconciler w obj = (w, obj, None)"
  "r_Update (ir_Pulumi sample_reconciler) w obj = (w, obj, None)" "r_FinalizerName (ir_Pulumi sample_reconciler) = ''f''"
  "r_createPluginContext (ir_Pulumi sample_reconciler) w = (w, Inr \<lparr>pc_Host = idle_host\<rparr>)"
  "r_backend (ir_Pulumi sample_reconciler) = demo_backend (Inr 7)" "r_proj (ir_Pulumi sample_reconciler) = demo_project"
  "om_DeletionTimestamp sample_account = None" "om_Finalizers sample_account = [''f'']"
  "newStackReferenceForObject (meta_of sample_account) = \<lparr>or_UID = ''u1'', or_Namespace = ''ns''\<rparr>"
  "ia_Spec sample_account = \<lparr>spec_Type = IamAccountTypeGeneric, spec_Google = None\<rparr>"
  by (simp_all add: sample_lib_def sample_reconciler_def demo_engine_def sample_account_def object_meta.defs
      owned_object_def demo_object_def newStackReferenceForObject_def)

lemma sample_contracts [simp]:
  "account_api_contract sample_reconciler" "set_condition_contract (ir_SetCondition sample_reconciler)"
proof -
  show "account_api_contract sample_reconciler" by (auto simp: account_api_contract_def same_ownership_def)
  have "find (\<lambda>d. cond_Type d = t) (filter (\<lambda>d. cond_Type d \<noteq> u) cs) = (if t = u then None else find (\<lambda>d. cond_Type d = t) cs)"
    for t u and cs :: "condition list"
    by (induction cs) auto
  then show "set_condition_contract (ir_SetCondition sample_reconciler)"
    by (auto simp: sample_reconciler_def set_condition_contract_def condition_of_def)
qed

lemma reporting_events [simp]: "events_of (reporting_trace ch) =
    [ResourceOutputsEvent pulumiStackType (Some [''ksa'' \<mapsto> PropString ''account'']), SummaryEvent ch]"
  by (simp add: reporting_trace_def)

definition after_status :: "bool \<Rightarrow> bool \<Rightarrow> resource_changes \<Rightarrow> IamAccount \<Rightarrow> IamAccount" where
  "after_status dryRun drained ch obj = obj\<lparr>ia_Status := new_status (ir_SetCondition sample_reconciler) obj
     (changes_of (\<lambda>c. c ''create'' \<noteq> None) dryRun drained (reporting_trace ch))\<rparr>"

lemma sample_operate:
  assumes "rc_world st = no_secrets"
  shows "operate (sample_lib ch) (sample_options sample_reconciler c) cfg dryRun drained st (demo_stack None None) =
    Returns (st\<lparr>rc_stack := Some (demo_stack None None), rc_obj := after_status dryRun drained ch (rc_obj st),
        rc_trace := rc_trace st @
          [ActOperation (operation_of (meta_of (rc_obj st))) dryRun (meta_of (rc_obj st)) (reporting_trace ch) (ch, None),
           ActStatus (changes_of (\<lambda>c. c ''create'' \<noteq> None) dryRun drained (reporting_trace ch)) None]\<rparr>,
      Inr ch)"
proof -
  have h: "handler_or_nil (Some h) = h" for h :: "stack_changes \<Rightarrow> engine_event \<Rightarrow> stack_changes"
    by (simp add: fun_eq_iff handler_or_nil_def)
  have "st\<lparr>rc_world := no_secrets\<rparr> = st" using assms by simp
  then show ?thesis
    using assms
    by (simp add: operate_def updateFunc_def updateStatusFunc_def Update_def Destroy_def Let_def stack_operation_def
        newUpdate_def getTarget_def kube_run_def runEngineAction_def reporting_op_def reporting_trace_def
        failed_result_def changes_of_def h read_handler_def send_def handle_inflight_def UpdateStatus_def
        sample_options_def new_drainer_def operation_of_def logged_def after_status_def)
qed

lemma sample_started:
  "add_finalizer (sample_lib ch) (ir_Pulumi sample_reconciler)
     \<lparr>rc_world = no_secrets, rc_obj = sample_account, rc_stack = None, rc_trace = []\<rparr> =
   (\<lparr>rc_world = no_secrets, rc_obj = sample_account, rc_stack = None, rc_trace = []\<rparr>, None)"
  "getOrCreateStack (ir_Pulumi sample_reconciler)
     \<lparr>rc_world = no_secrets, rc_obj = sample_account, rc_stack = None, rc_trace = []\<rparr> =
   (\<lparr>rc_world = no_secrets, rc_obj = sample_account, rc_stack = Some (demo_stack None None),
      rc_trace = [ActContext None, ActLoad None]\<rparr>, None)"
  by (simp_all add: add_finalizer_def getOrCreateStack_def store_context_def load_with_context_def demo_load_any
      logged_def)

definition sample_course :: "bool \<Rightarrow> bool \<Rightarrow> resource_changes \<Rightarrow> IamAccount \<Rightarrow> action list" where
  "sample_course dryRun drained ch obj =
     [ActOperation OpUpdate dryRun (meta_of obj) (reporting_trace ch) (ch, None),
      ActStatus (changes_of (\<lambda>c. c ''create'' \<noteq> None) dryRun drained (reporting_trace ch)) None]"

lemma after_status_simps [simp]:
  "om_DeletionTimestamp (after_status dryRun drained ch obj) = om_DeletionTimestamp obj"
  "om_Generation (after_status dryRun drained ch obj) = om_Generation obj"
  "meta_of (after_status dryRun drained ch obj) = meta_of obj"
  by (simp_all add: after_status_def object_meta.truncate_def)

lemma Reconcile_sample:
  assumes "ReconcileObject L (ir_Pulumi sample_reconciler) (sample_options sample_reconciler (Some Map.empty)) d1 d2 w
    sample_account = Returns (st, ret)"
  shows "Reconcile L sample_reconciler d1 d2 w req = Returns (Some st, ret)"
  using assms by (simp add: Reconcile_def sample_options_def IamAccountTypeGeneric_def IamAccountTypeGoogle_def)

lemma sample_settled:
  "\<exists>st. Reconcile (sample_lib Map.empty) sample_reconciler d1 d2 no_secrets req =
     Returns (Some st, (\<lparr>Requeue = False\<rparr>, None)) \<and>
     rc_trace st = [ActContext None, ActLoad None, ActMarshal None] @
       sample_course True d1 Map.empty sample_account @ [ActClose] \<and>
     rc_obj st = after_status True d1 Map.empty sample_account"
proof -
  have "\<exists>st. ReconcileObject (sample_lib Map.empty) (ir_Pulumi sample_reconciler)
      (sample_options sample_reconciler (Some Map.empty)) d1 d2 no_secrets sample_account =
     Returns (st, (\<lparr>Requeue = False\<rparr>, None)) \<and>
     rc_trace st = [ActContext None, ActLoad None, ActMarshal None] @
       sample_course True d1 Map.empty sample_account @ [ActClose] \<and>
     rc_obj st = after_status True d1 Map.empty sample_account"
    by (simp add: ReconcileObject_def sample_started reconcile_stack_def sample_operate Let_def finish_def
        close_stack_def stack_Close_def sample_course_def operation_of_def logged_def)
  then show ?thesis by (blast intro: Reconcile_sample)
qed

lemma sample_deployed:
  assumes "ch ''create'' = Some n"
  shows "\<exists>st. Reconcile (sample_lib ch) sample_reconciler d1 d2 no_secrets req =
     Returns (Some st, (\<lparr>Requeue = True\<rparr>, None)) \<and>
     rc_trace st = [ActContext None, ActLoad None, ActMarshal None] @
       sample_course True d1 ch sample_account @ sample_course False d2 ch sample_account @ [ActClose] \<and>
     rc_obj st = after_status False d2 ch (after_status True d1 ch sample_account)"
proof -
  have "\<exists>st. ReconcileObject (sample_lib ch) (ir_Pulumi sample_reconciler)
      (sample_options sample_reconciler (Some Map.empty)) d1 d2 no_secrets sample_account =
     Returns (st, (\<lparr>Requeue = True\<rparr>, None)) \<and>
     rc_trace st = [ActContext None, ActLoad None, ActMarshal None] @
       sample_course True d1 ch sample_account @ sample_course False d2 ch sample_account @ [ActClose] \<and>
     rc_obj st = after_status False d2 ch (after_status True d1 ch sample_account)"
    using assms
    by (simp add: ReconcileObject_def sample_started reconcile_stack_def sample_operate Let_def finish_def
        close_stack_def stack_Close_def sample_course_def operation_of_def logged_def)
  then show ?thesis by (blast intro: Reconcile_sample)
qed

lemma honest_course:
  "honest_summaries hc ([ActContext None, ActLoad None, ActMarshal None] @ sample_course a b ch obj @
     sample_course a' b' ch obj' @ [ActClose])"
  "honest_summaries hc ([ActContext None, ActLoad None, ActMarshal None] @ sample_course a b ch obj @ [ActClose])"
  by (auto simp: honest_summaries_def sample_course_def)

theorem settled_is_ready_witness:
  "\<exists>st. Reconcile (sample_lib Map.empty) sample_reconciler False False no_secrets \<lparr>nn_Namespace = ''ns'', nn_Name = ''n''\<rparr> =
      Returns (Some st, (\<lparr>Requeue = False\<rparr>, None)) \<and>
    ready_condition (rc_obj st) = Some \<lparr>cond_Type = ConditionReady, cond_Status = ''True'', cond_Reason = ''OK''\<rparr>"
proof -
  obtain st where run: "Reconcile (sample_lib Map.empty) sample_reconciler False False no_secrets
      \<lparr>nn_Namespace = ''ns'', nn_Name = ''n''\<rparr> = Returns (Some st, (\<lparr>Requeue = False\<rparr>, None))"
    and tr: "rc_trace st = [ActContext None, ActLoad None, ActMarshal None] @
       sample_course True False Map.empty sample_account @ [ActClose]"
    using sample_settled by metis
  have "honest_summaries hc (rc_trace st)" for hc unfolding tr by (rule honest_course)
  from settled_is_ready [OF run _ _ _ _ _ this] run show ?thesis by simp
qed


theorem missed_summary_reports_ready_witness:
  "\<exists>st. Reconcile (sample_lib [''create'' \<mapsto> 1]) sample_reconciler False True no_secrets
       \<lparr>nn_Namespace = ''ns'', nn_Name = ''n''\<rparr> = Returns (Some st, (\<lparr>Requeue = True\<rparr>, None)) \<and>
     ready_condition (rc_obj st) = Some \<lparr>cond_Type = ConditionReady, cond_Status = ''True'', cond_Reason = ''OK''\<rparr>"
proof -
  obtain st where run: "Reconcile (sample_lib [''create'' \<mapsto> 1]) sample_reconciler False True no_secrets
      \<lparr>nn_Namespace = ''ns'', nn_Name = ''n''\<rparr> = Returns (Some st, (\<lparr>Requeue = True\<rparr>, None))"
    and tr: "rc_trace st = [ActContext None, ActLoad None, ActMarshal None] @
       sample_course True False [''create'' \<mapsto> 1] sample_account @
       sample_course False True [''create'' \<mapsto> 1] sample_account @ [ActClose]"
    using sample_deployed [of "[''create'' \<mapsto> 1]" 1] by (metis fun_upd_same)
  let ?es = "[ResourceOutputsEvent pulumiStackType (Some [''ksa'' \<mapsto> PropString ''account''])]"
  have "last_some summary_of ?es = None" by (simp add: last_some_def summary_of_def)
  moreover have "events_of (reporting_trace [''create'' \<mapsto> 1]) = ?es @ [SummaryEvent [''create'' \<mapsto> 1]]" by simp
  moreover have "rc_trace st = [ActContext None, ActLoad None, ActMarshal None] @
      sample_course True False [''create'' \<mapsto> 1] sample_account @
      [ActOperation OpUpdate False (meta_of sample_account) (reporting_trace [''create'' \<mapsto> 1]) ([''create'' \<mapsto> 1], None),
       ActStatus (changes_of (\<lambda>c. c ''create'' \<noteq> None) False True (reporting_trace [''create'' \<mapsto> 1])) None, ActClose]"
    unfolding tr by (simp add: sample_course_def)
  ultimately show ?thesis
    using run missed_summary_reports_ready [OF run, where before = "[ActContext None, ActLoad None, ActMarshal None]"]
    by (simp add: sample_course_def)
qed

end
