(* ===== verification/Unwinding.thy ===== *)
theory Unwinding
  imports AccountStatus
begin

text \<open>
  Panics. A reconciliation has no reason of its own to panic once it has started: a panic is the engine's, or
  that of one of the two calls that may panic under it. It unwinds through the reconciler, which closes the
  stack. The sample adds one panic of its own, before anything has started.
\<close>

section \<open>Engines that do not panic\<close>

text \<open>
  A call that cannot panic: not the loading of plugins of a kind that the host does not know, nor the
  query of a stack's resources, for the stack may not exist.
\<close>

fun safe_call :: "engine_call \<Rightarrow> bool" where
  "safe_call (CallHost (CallEnsurePlugins plugins kinds)) \<longleftrightarrow> list_all (\<lambda>p. \<forall>k. pi_Kind p \<noteq> UnknownPlugin k) plugins"
| "safe_call (ReadStackResourceOutputs name) \<longleftrightarrow> False"
| "safe_call _ \<longleftrightarrow> True"

text \<open>A program that does not panic itself, makes only such calls, and ends with a result in \<open>P\<close>.\<close>

primrec safe_prog :: "('r \<Rightarrow> bool) \<Rightarrow> 'r engine_prog \<Rightarrow> bool" where
  "safe_prog P (Result r) \<longleftrightarrow> P r"
| "safe_prog P (Crash m) \<longleftrightarrow> False"
| "safe_prog P (Call c k) \<longleftrightarrow> safe_call c \<and> (\<forall>reply. safe_prog P (k reply))"

definition safe_op :: "engine_op \<Rightarrow> bool" where
  "safe_op eop \<longleftrightarrow> (\<forall>upd base dryRun. safe_prog (\<lambda>(result, closing). safe_prog (\<lambda>_. True) closing) (eop upd base dryRun))"

lemma safe_call_returns:
  assumes "safe_call c"
  obtains st' reply where "serve_call po h obj st c = Returns (st', reply)"
proof (cases "serve_call po h obj st c")
  case (Returns x)
  then show thesis by (cases x) (auto intro: that)
next
  case (Panics x)
  obtain st' m where x: "x = (st', m)" by (cases x)
  from Panics [unfolded x] have False
  proof (cases rule: serve_call_panic)
    case (call hc w' host')
    then obtain plugins kinds where hc: "hc = CallEnsurePlugins plugins kinds"
      by (cases hc) (auto split: prod.splits)
    with call(2) have "is_panic (EnsurePlugins po (os_world st, os_host st) plugins kinds)"
      by (auto simp: and_then_Panics split: prod.splits)
    with assms call(1) hc show False by (auto simp: EnsurePlugins_def ensure_loop_panics list_all_iff)
  next
    case (read n)
    with assms show False by simp
  qed
  then show thesis ..
qed

lemma safe_prog_returns:
  "safe_prog P p \<Longrightarrow> \<exists>st' tr r. run_prog (serve_call po h obj) p st = Returns (st', tr, r) \<and> P r"
proof (induction p arbitrary: st)
  case (Call c k)
  then have "safe_call c" by simp
  then obtain st1 reply where "serve_call po h obj st c = Returns (st1, reply)"
    by (rule safe_call_returns)
  moreover obtain st' tr r where "run_prog (serve_call po h obj) (k reply) st1 = Returns (st', tr, r)" "P r"
    using Call.IH [OF rangeI] Call.prems by fastforce
  ultimately show ?case by auto
qed auto

lemma safe_operation_returns:
  assumes "safe_op eop"
  obtains st' tr result where "stack_operation po E eop w s obj opts s0 = Returns (st', tr, result)"
proof (cases "newUpdate (el_QName E) s (so_Config opts) s0")
  case (Inl e)
  then show thesis by (intro that) (simp add: stack_operation_def)
next
  case (Inr ud)
  obtain upd d where ud: "ud = (upd, d)" by (cases ud)
  let ?h = "so_EventHandler opts"
  obtain st1 tr1 result closing where run: "run_prog (serve_call po ?h obj)
      (eop upd (tg_Snapshot (GetTarget upd)) (so_DryRun opts)) \<lparr>os_world = w, os_stack = s, os_events = d\<rparr> =
      Returns (st1, tr1, result, closing)" and "safe_prog (\<lambda>_. True) closing"
    using safe_prog_returns [OF assms [unfolded safe_op_def, rule_format]] by fastforce
  from safe_prog_returns [OF this(2)] obtain st2 tr2 r
    where "run_prog (serve_call po ?h obj) closing st1 = Returns (st2, tr2, r)" by blast
  with Inr ud run show thesis by (intro that) (simp add: stack_operation_def kube_run_def runEngineAction_def)
qed

lemma safe_operate_returns:
  assumes "safe_op (el_Update (rl_Engine L))" and "safe_op (el_Destroy (rl_Engine L))"
  shows "operate L opts cfg dryRun drained st stack \<noteq> Panics (st', m)"
proof
  assume "operate L opts cfg dryRun drained st stack = Panics (st', m)"
  then obtain eop so os tr where eop: "eop = el_Update (rl_Engine L) \<or> eop = el_Destroy (rl_Engine L)"
    and op: "stack_operation (rl_Plugins L) (rl_Engine L) eop (rc_world st) stack (meta_of (rc_obj st)) so
      (NewStackChanges dryRun) = Panics (os, tr, m)"
    by (rule operate_panic)
  from eop assms have "safe_op eop" by auto
  then obtain st1 tr1 result where "stack_operation (rl_Plugins L) (rl_Engine L) eop (rc_world st) stack
      (meta_of (rc_obj st)) so (NewStackChanges dryRun) = Returns (st1, tr1, result)"
    by (rule safe_operation_returns)
  with op show False by simp
qed

lemma safe_reconcile_stack_returns:
  assumes "safe_op (el_Update (rl_Engine L))" and "safe_op (el_Destroy (rl_Engine L))"
  shows "reconcile_stack L r opts d1 d2 st stack \<noteq> Panics (st', m)"
proof
  assume "reconcile_stack L r opts d1 d2 st stack = Panics (st', m)"
  then show False by (rule reconcile_stack_panic) (simp_all add: safe_operate_returns [OF assms])
qed

section \<open>Panics of the sample\<close>

lemma Reconcile_panic:
  assumes "Reconcile L r d1 d2 w req = Panics (stopt, m)"
  obtains (unstarted) obj where "ir_Get r w req = Inr obj" "stopt = None"
      "spec_Type (ia_Spec obj) = IamAccountTypeGoogle" "spec_Google (ia_Spec obj) = None"
  | (started) obj cfg st where "ir_Get r w req = Inr obj" "stopt = Some st"
      "ReconcileObject L (ir_Pulumi r) (sample_options r cfg) d1 d2 w obj = Panics (st, m)"
  using assms
  by (auto simp: Reconcile_def sample_options_def and_then_Panics
      split: sum.splits if_splits option.splits ending.splits)

lemma reconcile_stack_panic_last:
  assumes "reconcile_stack L r opts d1 d2 st stack = Panics (st', m)"
  shows "\<exists>before kind dryRun obj tr. rc_trace st' = before @ [ActPanic kind dryRun obj tr m]"
  using assms by (cases rule: reconcile_stack_panic) (auto elim!: operate_panic)

text \<open>
  C35. Where panics come from, and what they leave. When \<^verbatim>\<open>Reconcile\<close> of the sample panics, either nothing
  has started, and then the object is a Google account without its Google part, whose project was read
  through a nil pointer; or the panic is that of an engine operation: the operation is the last thing that
  happened, but for the stack, which is closed on the way out, and the engine is one that may
  panic. With an engine that never panics (and asks for no unknown kind of plugin and for no other
  stack's resources) every reconciliation that starts returns: no nil stack, handle, snapshot or map is ever
  used by the reconciler and the backend themselves.
\<close>

theorem panics_are_the_engines:
  assumes "Reconcile L r d1 d2 w req = Panics (started, m)"
  shows "case started of
      None \<Rightarrow> \<exists>obj. ir_Get r w req = Inr obj \<and> spec_Type (ia_Spec obj) = IamAccountTypeGoogle \<and>
        spec_Google (ia_Spec obj) = None
    | Some st \<Rightarrow>
        (\<exists>before kind dryRun o1 tr. rc_trace st = before @ [ActPanic kind dryRun o1 tr m, ActClose]) \<and>
        \<not> (safe_op (el_Update (rl_Engine L)) \<and> safe_op (el_Destroy (rl_Engine L)))"
  using assms
proof (cases rule: Reconcile_panic)
  case (started obj cfg st)
  from started(3) obtain stack st1 st2 where
    p: "reconcile_stack L (ir_Pulumi r) (sample_options r cfg) d1 d2 st1 stack = Panics (st2, m)"
    and st: "st = close_stack L st2"
    by (rule ReconcileObject_panic)
  from reconcile_stack_panic_last [OF p] have "\<exists>before kind dryRun o1 tr.
      rc_trace st = before @ [ActPanic kind dryRun o1 tr m, ActClose]"
    using reconcile_stack_panic_keeps_stack [OF p] st by (auto simp: close_stack_trace)
  moreover have "\<not> (safe_op (el_Update (rl_Engine L)) \<and> safe_op (el_Destroy (rl_Engine L)))"
    using p safe_reconcile_stack_returns by blast
  ultimately show ?thesis using started(2) by simp
qed simp

section \<open>A concrete panic\<close>

text \<open>An engine that has something to create, and panics when it is to do so, after one event.\<close>

definition crashing_op :: engine_op where
  "crashing_op upd base dryRun =
     (if dryRun then Result (([''create'' \<mapsto> 1], None), Result None)
      else Call (EmitEvent (SummaryEvent [''create'' \<mapsto> 1])) (\<lambda>_. Crash ''engine''))"

definition crashing_lib :: "(mem, IamAccount) reconcile_lib" where
  "crashing_lib = (sample_lib Map.empty)\<lparr>rl_Engine := demo_engine\<lparr>el_Update := crashing_op, el_Destroy := crashing_op\<rparr>\<rparr>"

lemma crashing_lib_simps [simp]:
  "rl_Finalizers crashing_lib = list_finalizers" "rl_Marshal crashing_lib obj = Inr (om_Name obj)"
  "rl_Plugins crashing_lib = idle_plugins" "el_HasChanges (rl_Engine crashing_lib) c \<longleftrightarrow> c ''create'' \<noteq> None"
  "el_Update (rl_Engine crashing_lib) = crashing_op" "el_Destroy (rl_Engine crashing_lib) = crashing_op"
  "el_ContextClose (rl_Engine crashing_lib) = (\<lambda>(w, ctx). ((w, ctx), None))"
  by (simp_all add: crashing_lib_def sample_lib_def demo_engine_def)

lemma crashing_preview:
  "stack_operation idle_plugins E crashing_op w (demo_stack None None) obj
     \<lparr>so_DryRun = True, so_Config = Some cfg, so_EventHandler = Some h\<rparr> s0 =
   Returns (\<lparr>os_world = w, os_stack = demo_stack None None, os_events = new_drainer s0\<rparr>, [], ([''create'' \<mapsto> 1], None))"
  by (simp add: stack_operation_def newUpdate_def getTarget_def kube_run_def runEngineAction_def crashing_op_def)

lemma crashing_deployment:
  "stack_operation idle_plugins E crashing_op w (demo_stack None None) obj
     \<lparr>so_DryRun = False, so_Config = Some cfg, so_EventHandler = Some h\<rparr> s0 =
   Panics (\<lparr>os_world = w, os_stack = demo_stack None None,
       os_events = send (handler_or_nil (Some h)) (new_drainer s0) (SummaryEvent [''create'' \<mapsto> 1])\<rparr>,
     [(EmitEvent (SummaryEvent [''create'' \<mapsto> 1]), Emitted)], ''engine'')"
  by (simp add: stack_operation_def newUpdate_def getTarget_def kube_run_def runEngineAction_def crashing_op_def)

lemma crashing_reconcile:
  "\<exists>st. Reconcile crashing_lib sample_reconciler True True no_secrets req = Panics (Some st, ''engine'') \<and>
     last (rc_trace st) = ActClose"
  by (simp add: Reconcile_def IamAccountTypeGeneric_def IamAccountTypeGoogle_def ReconcileObject_def add_finalizer_def
      getOrCreateStack_def store_context_def load_with_context_def demo_load_any reconcile_stack_def operate_def
      updateFunc_def updateStatusFunc_def Update_def crashing_preview crashing_deployment failed_result_def Let_def
      UpdateStatus_def close_stack_def stack_Close_def logged_def)

theorem panics_are_the_engines_witness:
  "\<exists>st before kind dryRun o1 tr. Reconcile crashing_lib sample_reconciler True True no_secrets demo_name = Panics (Some st, ''engine'') \<and>
     rc_trace st = before @ [ActPanic kind dryRun o1 tr ''engine'', ActClose]"
proof -
  obtain st where "Reconcile crashing_lib sample_reconciler True True no_secrets demo_name = Panics (Some st, ''engine'')"
    using crashing_reconcile by blast
  with panics_are_the_engines [OF this] show ?thesis by auto
qed

end
