(* ===== verification/Operation.thy ===== *)
theory Operation
  imports Status
begin

text \<open>
  The goroutines of one engine operation: the operation itself, which sends events, the goroutine of
  \<^verbatim>\<open>newUpdate\<close> that drains them (pkg/backend/stack.go), and the goroutine of \<^verbatim>\<open>runEngineAction\<close> that
  forwards the cancellation of the caller's context to the engine (pkg/backend/backend.go).
\<close>

section \<open>Goroutines\<close>

text \<open>
  The drainer is at its receive or has an event in hand. It has no last state: the channel is never closed,
  so its loop never ends. The watcher is at its \<^verbatim>\<open>select\<close> or has ended. \<open>or_returned\<close> says that the operation
  has returned, and with it that \<^verbatim>\<open>done\<close> is closed (the deferred close).
\<close>

datatype drainer_pc = Receiving | Handling engine_event

datatype watcher_pc = Selecting | WatcherEnded

record 's op_run =
  or_todo :: "engine_event list"
  or_drainer :: drainer_pc
  or_handler :: 's
  or_ctxDone :: bool
  or_cancelled :: bool
  or_watcher :: watcher_pc
  or_returned :: bool

definition start_run :: "engine_event list \<Rightarrow> 's \<Rightarrow> bool \<Rightarrow> 's op_run" where
  "start_run es s ctxDone =
     \<lparr>or_todo = es, or_drainer = Receiving, or_handler = s, or_ctxDone = ctxDone, or_cancelled = False,
      or_watcher = Selecting, or_returned = False\<rparr>"

text \<open>
  The steps, in every interleaving. The caller's context may be done at any time. The engine sends an event
  when the drainer receives; it may give up its remaining events only when it was cancelled; it returns
  when it has none left. The watcher's \<^verbatim>\<open>select\<close> takes either branch that is ready.
\<close>

inductive run_step :: "('s \<Rightarrow> engine_event \<Rightarrow> 's) \<Rightarrow> 's op_run \<Rightarrow> 's op_run \<Rightarrow> bool" for h where
  context_done: "\<not> or_ctxDone u \<Longrightarrow> run_step h u (u\<lparr>or_ctxDone := True\<rparr>)"
| engine_sends: "\<not> or_returned u \<Longrightarrow> or_todo u = e # es \<Longrightarrow> or_drainer u = Receiving \<Longrightarrow>
    run_step h u (u\<lparr>or_todo := es, or_drainer := Handling e\<rparr>)"
| engine_gives_up: "\<not> or_returned u \<Longrightarrow> or_cancelled u \<Longrightarrow> or_todo u \<noteq> [] \<Longrightarrow> run_step h u (u\<lparr>or_todo := []\<rparr>)"
| engine_returns: "\<not> or_returned u \<Longrightarrow> or_todo u = [] \<Longrightarrow> run_step h u (u\<lparr>or_returned := True\<rparr>)"
| drainer_handles: "or_drainer u = Handling e \<Longrightarrow>
    run_step h u (u\<lparr>or_drainer := Receiving, or_handler := h (or_handler u) e\<rparr>)"
| watcher_cancels: "or_watcher u = Selecting \<Longrightarrow> or_ctxDone u \<Longrightarrow>
    run_step h u (u\<lparr>or_cancelled := True, or_watcher := WatcherEnded\<rparr>)"
| watcher_ends: "or_watcher u = Selecting \<Longrightarrow> or_returned u \<Longrightarrow> run_step h u (u\<lparr>or_watcher := WatcherEnded\<rparr>)"

inductive_cases run_stepE: "run_step h u u'"

text \<open>A run of \<open>n\<close> steps; no goroutine can go on when only the caller's context could still change.\<close>

definition at_rest :: "('s \<Rightarrow> engine_event \<Rightarrow> 's) \<Rightarrow> 's op_run \<Rightarrow> bool" where
  "at_rest h u \<longleftrightarrow> (\<forall>u'. run_step h u u' \<longrightarrow> or_ctxDone u' \<noteq> or_ctxDone u)"

section \<open>Every run is finite\<close>

definition run_measure :: "'s op_run \<Rightarrow> nat" where
  "run_measure u = 2 * length (or_todo u) + (case or_drainer u of Receiving \<Rightarrow> 0 | Handling e \<Rightarrow> 1) +
     (if or_ctxDone u then 0 else 1) + (if or_watcher u = Selecting then 1 else 0) + (if or_returned u then 0 else 1)"

lemma run_step_measure: "run_step h u u' \<Longrightarrow> run_measure u' < run_measure u"
  by (erule run_stepE) (auto simp: run_measure_def neq_Nil_conv)

lemma run_bounded: "(run_step h ^^ n) u u' \<Longrightarrow> n + run_measure u' \<le> run_measure u"
proof (induction n arbitrary: u')
  case (Suc n)
  then obtain u1 where "(run_step h ^^ n) u u1" "run_step h u1 u'" by auto
  with Suc.IH [of u1] run_step_measure [of h u1 u'] show ?case by simp
qed simp

section \<open>What holds throughout a run\<close>

definition drained_events :: "'s op_run \<Rightarrow> engine_event list" where
  "drained_events u = (case or_drainer u of Receiving \<Rightarrow> [] | Handling e \<Rightarrow> [e])"

text \<open>
  The events that were sent are handled in order, but for the one in hand; events are dropped only by a
  cancelled engine; the engine is cancelled only after the caller's context was done, and by the watcher,
  which has ended then.
\<close>

definition events_inv :: "('s \<Rightarrow> engine_event \<Rightarrow> 's) \<Rightarrow> engine_event list \<Rightarrow> 's \<Rightarrow> 's op_run \<Rightarrow> bool" where
  "events_inv h es s u \<longleftrightarrow>
     (\<exists>handled dropped. es = handled @ drained_events u @ or_todo u @ dropped \<and> or_handler u = foldl h s handled \<and>
        (dropped \<noteq> [] \<longrightarrow> or_cancelled u \<and> or_todo u = []))"

definition control_inv :: "'s op_run \<Rightarrow> bool" where
  "control_inv u \<longleftrightarrow> (or_cancelled u \<longrightarrow> or_ctxDone u \<and> or_watcher u = WatcherEnded) \<and>
     (or_watcher u = WatcherEnded \<longrightarrow> or_cancelled u \<or> or_returned u) \<and> (or_returned u \<longrightarrow> or_todo u = [])"

lemma start_inv: "events_inv h es s (start_run es s c)" "control_inv (start_run es s c)"
  by (simp_all add: events_inv_def control_inv_def start_run_def drained_events_def)

lemma events_invI:
  "es = handled @ drained_events u @ or_todo u @ dropped \<Longrightarrow> or_handler u = foldl h s handled \<Longrightarrow>
     (dropped \<noteq> [] \<Longrightarrow> or_cancelled u \<and> or_todo u = []) \<Longrightarrow> events_inv h es s u"
  unfolding events_inv_def by blast

lemma run_step_control: "run_step h u u' \<Longrightarrow> control_inv u \<Longrightarrow> control_inv u'"
  by (erule run_stepE) (auto simp: control_inv_def)

lemma run_step_events:
  assumes "run_step h u u'" and "events_inv h es s u"
  shows "events_inv h es s u'"
proof -
  from assms(2) obtain handled dropped where es: "es = handled @ drained_events u @ or_todo u @ dropped"
    "or_handler u = foldl h s handled" and dropped: "dropped \<noteq> [] \<Longrightarrow> or_cancelled u \<and> or_todo u = []"
    unfolding events_inv_def by blast
  from assms(1) show ?thesis
  proof (cases rule: run_step.cases)
    case (engine_sends e rest)
    with es dropped show ?thesis by (intro events_invI [of _ handled _ dropped]) (auto simp: drained_events_def)
  next
    case engine_gives_up
    with es show ?thesis by (intro events_invI [of _ handled _ "or_todo u @ dropped"]) (auto simp: drained_events_def)
  next
    case (drainer_handles e)
    with es dropped show ?thesis
      by (intro events_invI [of _ "handled @ [e]" _ dropped]) (simp_all add: drained_events_def)
  qed (use es dropped in \<open>auto intro!: events_invI [of _ handled _ dropped] simp: drained_events_def\<close>)
qed

lemma run_keeps_inv: "(run_step h ^^ n) u u' \<Longrightarrow> events_inv h es s u \<Longrightarrow> control_inv u \<Longrightarrow>
    events_inv h es s u' \<and> control_inv u'"
  by (induction n arbitrary: u') (auto intro: run_step_events run_step_control)

text \<open>At rest the operation has returned, the watcher has ended and the drainer is back at its receive.\<close>

lemma at_rest_cases:
  assumes "at_rest h u"
  shows "or_drainer u = Receiving \<and> or_watcher u = WatcherEnded \<and> or_returned u"
proof -
  have no: "\<not> run_step h u u'" if "or_ctxDone u' = or_ctxDone u" for u'
    using assms that unfolding at_rest_def by blast
  have d: "or_drainer u = Receiving"
    using no [OF _ ] run_step.drainer_handles [of u _ h] by (cases "or_drainer u") fastforce+
  have r: "or_returned u"
  proof (rule ccontr)
    assume "\<not> or_returned u"
    then show False
      using d no run_step.engine_sends [of u _ _ h] run_step.engine_returns [of u h]
      by (cases "or_todo u") fastforce+
  qed
  have "or_watcher u = WatcherEnded"
    using r no run_step.watcher_ends [of u h] by (cases "or_watcher u") fastforce+
  with d r show ?thesis by blast
qed

text \<open>
  C22. An engine operation comes to rest, and what it leaves behind. From the start of an operation that sends
  the events \<open>es\<close>, under every interleaving of the engine, the drainer, the watcher and the caller's context,
  there are at most \<open>2 * length es + 4\<close> steps, so every run is finite. When no goroutine can go on, the
  operation has returned and the watcher has ended: it neither blocks the operation nor outlives it. Every
  event was handled, once and in order, unless the engine was cancelled, and it was cancelled only if the
  caller's context was done. But the drainer is still there, waiting on a channel that nobody closes: one
  goroutine stays behind for every operation.
\<close>

theorem operation_comes_to_rest:
  assumes "(run_step h ^^ n) (start_run es s ctxDone) u"
  shows "n \<le> 2 * length es + 4 \<and> (or_cancelled u \<longrightarrow> or_ctxDone u) \<and>
    (at_rest h u \<longrightarrow> or_returned u \<and> or_watcher u = WatcherEnded \<and> or_drainer u = Receiving \<and>
       (\<exists>handled dropped. es = handled @ dropped \<and> or_handler u = foldl h s handled \<and>
          (dropped \<noteq> [] \<longrightarrow> or_cancelled u)))"
proof -
  have "run_measure (start_run es s ctxDone) \<le> 2 * length es + 4"
    by (simp add: run_measure_def start_run_def)
  with run_bounded [OF assms] have "n \<le> 2 * length es + 4" by simp
  moreover have inv: "events_inv h es s u" "control_inv u" using run_keeps_inv [OF assms start_inv] by blast+
  moreover have "or_drainer u = Receiving \<Longrightarrow> or_returned u \<Longrightarrow> \<exists>handled dropped. es = handled @ dropped \<and>
      or_handler u = foldl h s handled \<and> (dropped \<noteq> [] \<longrightarrow> or_cancelled u)"
    using inv by (fastforce simp: events_inv_def control_inv_def drained_events_def)
  ultimately show ?thesis
    using at_rest_cases [of h u] by (simp add: control_inv_def)
qed

section \<open>The channel among the goroutines\<close>

text \<open>
  Every step that is not the engine's giving up is a step of the channel alone (theory Status), or leaves the
  channel as it is.
\<close>

definition channel_of :: "'s op_run \<Rightarrow> 's channel" where
  "channel_of u =
     (or_todo u, case or_drainer u of Receiving \<Rightarrow> None | Handling e \<Rightarrow> Some e, or_handler u)"

lemma run_step_channel:
  "run_step h u u' \<Longrightarrow> channel_of u' = channel_of u \<or> channel_step h (channel_of u) (channel_of u') \<or>
     (or_cancelled u \<and> or_todo u' = [])"
  by (erule run_stepE) (auto simp: channel_of_def intro: channel_step.intros)

section \<open>A concrete run\<close>

definition rested :: "nat op_run" where
  "rested = \<lparr>or_todo = [], or_drainer = Receiving, or_handler = 8, or_ctxDone = False, or_cancelled = False,
     or_watcher = WatcherEnded, or_returned = True\<rparr>"

lemma demo_run_to_rest: "(run_step (\<lambda>n e. n + 1) ^^ 4) (start_run [OtherEvent ''e''] 7 False) rested"
proof -
  let ?h = "\<lambda>n e. n + 1 :: nat"
  let ?u0 = "start_run [OtherEvent ''e''] (7 :: nat) False"
  let ?u1 = "?u0\<lparr>or_todo := [], or_drainer := Handling (OtherEvent ''e'')\<rparr>"
  let ?u2 = "?u1\<lparr>or_drainer := Receiving, or_handler := 8\<rparr>"
  let ?u3 = "?u2\<lparr>or_returned := True\<rparr>"
  have "run_step ?h ?u0 ?u1" by (rule run_step.engine_sends) (simp_all add: start_run_def)
  moreover have "run_step ?h ?u1 ?u2"
    using run_step.drainer_handles [of ?u1 "OtherEvent ''e''" ?h] by (simp add: start_run_def)
  moreover have "run_step ?h ?u2 ?u3" by (rule run_step.engine_returns) (simp_all add: start_run_def)
  moreover have "run_step ?h ?u3 rested"
    using run_step.watcher_ends [of ?u3 ?h] by (simp add: start_run_def rested_def)
  ultimately show ?thesis by (auto simp: numeral_eq_Suc)
qed

theorem operation_comes_to_rest_witness:
  "or_handler rested = foldl (\<lambda>n e. n + 1) 7 [OtherEvent ''e''] \<and> or_returned rested \<and> or_drainer rested = Receiving"
proof -
  have "at_rest (\<lambda>n e. n + 1) rested"
    unfolding at_rest_def by (auto simp: rested_def elim: run_stepE)
  with operation_comes_to_rest [OF demo_run_to_rest] show ?thesis
    by (auto simp: rested_def)
qed

end
