(* ===== verification/Manager.thy ===== *)
theory Manager
  imports AccountStatus
begin

text \<open>
  The sample's process (sample/main.go) and the registration of its types
  (sample/api/v1/groupversion_info.go, the init function of iamaccount_types.go).
\<close>

section \<open>Registration\<close>

record group_version =
  gv_Group :: string
  gv_Version :: string

definition GroupVersion :: group_version where
  "GroupVersion = \<lparr>gv_Group = ''pulumi-controller.example.com'', gv_Version = ''v1''\<rparr>"

text \<open>What the init function of the API package gives to \<^verbatim>\<open>SchemeBuilder.Register\<close>.\<close>

definition registered_types :: "string list" where
  "registered_types = [''IamAccount'', ''IamAccountList'']"

section \<open>The libraries of the process\<close>

text \<open>
  The flags with their defaults, and the options of the manager. Parsing flags (\<^const>\<open>None\<close> when the command
  line is refused), finding the cluster's configuration, schemes, the manager and its health checks are
  libraries; a new reconciler has the manager's client and scheme.
\<close>

record main_flags =
  mf_metricsAddr :: string
  mf_enableLeaderElection :: bool
  mf_probeAddr :: string

definition default_flags :: main_flags where
  "default_flags = \<lparr>mf_metricsAddr = '':8080'', mf_enableLeaderElection = False, mf_probeAddr = '':8081''\<rparr>"

record manager_options =
  mo_MetricsBindAddress :: string
  mo_Port :: int
  mo_HealthProbeBindAddress :: string
  mo_LeaderElection :: bool
  mo_LeaderElectionID :: string

definition options_of :: "main_flags \<Rightarrow> manager_options" where
  "options_of f =
     \<lparr>mo_MetricsBindAddress = mf_metricsAddr f, mo_Port = 9443, mo_HealthProbeBindAddress = mf_probeAddr f,
      mo_LeaderElection = mf_enableLeaderElection f, mo_LeaderElectionID = ''6932d832.example.com''\<rparr>"

record ('w, 's, 'cfg) main_lib =
  ml_NewScheme :: 's
  ml_AddClientGo :: "'s \<Rightarrow> 's \<times> go_error option"
  ml_AddTypes :: "'s \<Rightarrow> group_version \<Rightarrow> string list \<Rightarrow> 's \<times> go_error option"
  ml_Parse :: "main_flags \<Rightarrow> string list \<Rightarrow> main_flags option"
  ml_GetConfig :: "'w \<Rightarrow> 'cfg option"
  ml_NewManager :: "'w \<Rightarrow> 'cfg \<Rightarrow> 's \<Rightarrow> manager_options \<Rightarrow> 'w \<times> (go_error + ('w, IamAccount) manager)"
  ml_NewReconciler :: "('w, IamAccount) manager \<Rightarrow> ('w, secretSnapshotHandle) IamAccountReconciler"
  ml_Complete :: "('w, IamAccount) manager \<Rightarrow> ('w, secretSnapshotHandle) IamAccountReconciler \<Rightarrow> go_error option"
  ml_AddHealthzCheck :: "('w, IamAccount) manager \<Rightarrow> string \<Rightarrow> go_error option"
  ml_AddReadyzCheck :: "('w, IamAccount) manager \<Rightarrow> string \<Rightarrow> go_error option"
  ml_Start :: "'w \<Rightarrow> ('w, IamAccount) manager \<Rightarrow> 'w \<times> go_error option"

section \<open>The process\<close>

text \<open>\<^verbatim>\<open>utilruntime.Must\<close> panics on an error; the init function of the process fills the scheme.\<close>

definition Must :: "go_error option \<Rightarrow> unit outcome" where
  "Must err = (case err of None \<Rightarrow> Returns () | Some e \<Rightarrow> Panics ''scheme'')"

definition init_scheme :: "('w, 's, 'cfg) main_lib \<Rightarrow> 's outcome" where
  "init_scheme M =
     (case ml_AddClientGo M (ml_NewScheme M) of
        (s1, err1) \<Rightarrow> and_then (Must err1) (\<lambda>_.
          (case ml_AddTypes M s1 GroupVersion registered_types of
             (s2, err2) \<Rightarrow> and_then (Must err2) (\<lambda>_. Returns s2))))"

text \<open>
  The steps of \<^verbatim>\<open>main\<close> with their outcomes, and the code the process exits with; it exits at the first
  step that fails. The result has the reconciler that was registered, if that was reached.
\<close>

datatype main_step =
    StepFlags bool
  | StepConfig bool
  | StepManager "go_error option"
  | StepController "go_error option"
  | StepHealthz "go_error option"
  | StepReadyz "go_error option"
  | StepStart "go_error option"

record ('w, 'h) main_run =
  mr_world :: 'w
  mr_steps :: "main_step list"
  mr_exit :: nat
  mr_reconciler :: "('w, 'h) IamAccountReconciler option"

definition run_manager :: "('w, 's, 'cfg) main_lib \<Rightarrow> 'w \<Rightarrow> ('w, IamAccount) manager \<Rightarrow>
    ('w, secretSnapshotHandle) IamAccountReconciler \<Rightarrow> main_step list \<Rightarrow> ('w, secretSnapshotHandle) main_run" where
  "run_manager M w mgr r steps =
     (case ml_AddHealthzCheck M mgr ''healthz'' of
        Some e \<Rightarrow> \<lparr>mr_world = w, mr_steps = steps @ [StepHealthz (Some e)], mr_exit = 1, mr_reconciler = Some r\<rparr>
      | None \<Rightarrow>
          (case ml_AddReadyzCheck M mgr ''readyz'' of
             Some e \<Rightarrow> \<lparr>mr_world = w, mr_steps = steps @ [StepHealthz None, StepReadyz (Some e)], mr_exit = 1,
               mr_reconciler = Some r\<rparr>
           | None \<Rightarrow>
               (case ml_Start M w mgr of
                  (w', err) \<Rightarrow> \<lparr>mr_world = w', mr_steps = steps @ [StepHealthz None, StepReadyz None, StepStart err],
                    mr_exit = (if err = None then 0 else 1), mr_reconciler = Some r\<rparr>)))"

definition main :: "('w, 's, 'cfg) main_lib \<Rightarrow> ('w, 'c, 'p) build_lib \<Rightarrow> 'w plugin_ops \<Rightarrow> 'p \<Rightarrow> IamAccount \<Rightarrow> 'p \<Rightarrow>
    string list \<Rightarrow> 'w \<Rightarrow> ('w, secretSnapshotHandle) main_run outcome" where
  "main M B po np empty_account program args w =
     and_then (init_scheme M) (\<lambda>scheme.
       (case ml_Parse M default_flags args of
          None \<Rightarrow> Returns \<lparr>mr_world = w, mr_steps = [StepFlags False], mr_exit = 2, mr_reconciler = None\<rparr>
        | Some flags \<Rightarrow>
            (case ml_GetConfig M w of
               None \<Rightarrow> Returns \<lparr>mr_world = w, mr_steps = [StepFlags True, StepConfig False], mr_exit = 1,
                 mr_reconciler = None\<rparr>
             | Some cfg \<Rightarrow>
                 (case ml_NewManager M w cfg scheme (options_of flags) of
                    (w1, Inl e) \<Rightarrow> Returns \<lparr>mr_world = w1,
                      mr_steps = [StepFlags True, StepConfig True, StepManager (Some e)], mr_exit = 1, mr_reconciler = None\<rparr>
                  | (w1, Inr mgr) \<Rightarrow>
                      and_then (SetupWithManager B po np empty_account program (ml_Complete M mgr) mgr (ml_NewReconciler M mgr))
                        (\<lambda>(r, err).
                          (case err of
                             Some e \<Rightarrow> Returns \<lparr>mr_world = w1, mr_steps = [StepFlags True, StepConfig True, StepManager None,
                               StepController (Some e)], mr_exit = 1, mr_reconciler = None\<rparr>
                           | None \<Rightarrow> Returns (run_manager M w1 mgr r
                               [StepFlags True, StepConfig True, StepManager None, StepController None])))))))"

section \<open>The course of the process\<close>

fun step_ok :: "main_step \<Rightarrow> bool" where
  "step_ok (StepFlags b) = b"
| "step_ok (StepConfig b) = b"
| "step_ok (StepManager e) = (e = None)"
| "step_ok (StepController e) = (e = None)"
| "step_ok (StepHealthz e) = (e = None)"
| "step_ok (StepReadyz e) = (e = None)"
| "step_ok (StepStart e) = (e = None)"

fun step_number :: "main_step \<Rightarrow> nat" where
  "step_number (StepFlags b) = 0"
| "step_number (StepConfig b) = 1"
| "step_number (StepManager e) = 2"
| "step_number (StepController e) = 3"
| "step_number (StepHealthz e) = 4"
| "step_number (StepReadyz e) = 5"
| "step_number (StepStart e) = 6"

text \<open>Steps in order, all but the last successful, up to the first failure or the end.\<close>

definition in_order :: "main_step list \<Rightarrow> bool" where
  "in_order steps \<longleftrightarrow> steps \<noteq> [] \<and> map step_number steps = [0..<length steps] \<and> list_all step_ok (butlast steps) \<and>
     (step_ok (last steps) \<longrightarrow> length steps = 7)"

lemma upt_numerals [simp]:
  "[0..<2] = [0, 1]" "[0..<3] = [0, 1, 2]" "[0..<4] = [0, 1, 2, 3]" "[0..<5] = [0, 1, 2, 3, 4]"
  "[0..<6] = [0, 1, 2, 3, 4, 5]" "[0..<7] = [0, 1, 2, 3, 4, 5, 6 :: nat]"
  by (simp_all add: upt_rec)

lemma SetupWithManager_success:
  assumes "SetupWithManager B po np empty_account program complete mgr r0 = Returns (r, None)"
  obtains pr gvk where "r = r0\<lparr>ir_Pulumi := pr\<rparr>" "complete r = None" "mgr_GVK mgr empty_account = Inr gvk"
    "r_FinalizerName pr = sample_finalizer" "proj_Name (r_proj pr) = makeProjectName (bl_UnicodeLower B) gvk"
    "r_createPluginContext pr = createPluginHost B po (r_proj pr) program"
proof -
  from assms obtain pr where pr: "Build B po np (WithOptions (WithProgram (For (NewReconcilerManagedBy mgr) empty_account)
      program []) [FinalizerName sample_finalizer]) = Returns (Inr pr)" and r: "r = r0\<lparr>ir_Pulumi := pr\<rparr>" "complete r = None"
    using assms unfolding SetupWithManager_def and_then_Returns
    by (elim exE conjE) (auto simp: Let_def split: sum.splits)
  from pr show thesis
    by (rule Build_success) (auto intro: that [OF r])
qed

text \<open>The two parts of the process.\<close>

lemma run_manager_course:
  assumes "run_manager M w mgr r steps = m" and "steps = [StepFlags True, StepConfig True, StepManager None, StepController None]"
  shows "in_order (mr_steps m) \<and> (mr_exit m = 0 \<longleftrightarrow> list_all step_ok (mr_steps m)) \<and> mr_exit m \<le> 1 \<and>
    mr_reconciler m = Some r"
  using assms by (auto simp: run_manager_def in_order_def split: option.splits prod.splits if_splits)

lemma main_cases:
  assumes "main M B po np empty_account program args w = Returns m"
  obtains (stopped) "in_order (mr_steps m)" "mr_exit m \<noteq> 0" "\<not> list_all step_ok (mr_steps m)" "length (mr_steps m) \<le> 4"
  | (running) s flags cfg w1 mgr r where "init_scheme M = Returns s" "ml_NewManager M w cfg s (options_of flags) = (w1, Inr mgr)"
      "SetupWithManager B po np empty_account program (ml_Complete M mgr) mgr (ml_NewReconciler M mgr) = Returns (r, None)"
      "m = run_manager M w1 mgr r [StepFlags True, StepConfig True, StepManager None, StepController None]"
proof -
  from assms obtain s where s: "init_scheme M = Returns s" by (auto simp: main_def and_then_Returns)
  show thesis
  proof (cases "\<exists>flags cfg w1 mgr. ml_Parse M default_flags args = Some flags \<and> ml_GetConfig M w = Some cfg \<and>
      ml_NewManager M w cfg s (options_of flags) = (w1, Inr mgr)")
    case False
    with assms s show thesis
      by (intro stopped) (auto simp: main_def in_order_def split: option.splits sum.splits prod.splits)
  next
    case True
    then obtain flags cfg w1 mgr where l: "ml_Parse M default_flags args = Some flags" "ml_GetConfig M w = Some cfg"
      "ml_NewManager M w cfg s (options_of flags) = (w1, Inr mgr)" by blast
    let ?prep = "SetupWithManager B po np empty_account program (ml_Complete M mgr) mgr (ml_NewReconciler M mgr)"
    from assms s l obtain r err where su: "?prep = Returns (r, err)" by (cases "?prep") (auto simp: main_def)
    show thesis
    proof (cases err)
      case None
      with assms s l su show thesis by (intro running) (auto simp: main_def)
    next
      case (Some e)
      with assms s l su show thesis by (intro stopped) (auto simp: main_def in_order_def)
    qed
  qed
qed

text \<open>The name of the sample's project.\<close>

lemma sample_project_name:
  "makeProjectName u \<lparr>gvk_Group = gv_Group GroupVersion, gvk_Version = gv_Version GroupVersion, gvk_Kind = ''IamAccount''\<rparr> =
     ''iamaccount.pulumi-controller.example.com''"
  by (simp add: makeProjectName_def ToLower_def is_ascii_def lower_byte_def GroupVersion_def Let_def char_of_def bit_iff_odd)


section \<open>A concrete process\<close>

definition quiet_manager :: "(nat list, IamAccount) manager" where
  "quiet_manager =
     \<lparr>mgr_Secrets = mgr_Secrets demo_manager, mgr_Update = (\<lambda>w obj. (w, obj, None)),
      mgr_GVK = (\<lambda>obj. Inr \<lparr>gvk_Group = gv_Group GroupVersion, gvk_Version = gv_Version GroupVersion,
        gvk_Kind = ''IamAccount''\<rparr>)\<rparr>"

definition new_reconciler :: "(nat list, secretSnapshotHandle) IamAccountReconciler" where
  "new_reconciler =
     \<lparr>ir_Get = (\<lambda>w n. Inl not_found), ir_StatusUpdate = (\<lambda>w obj. (w, obj, None)), ir_IsNotFound = (\<lambda>e. e = not_found),
      ir_SetCondition = (\<lambda>cs c. c # cs),
      ir_Pulumi = \<lparr>r_Update = mgr_Update quiet_manager, r_FinalizerName = [],
        r_createPluginContext = (\<lambda>w. (w, Inl not_found)),
        r_backend = createBackend demo_build (NewReconcilerManagedBy quiet_manager) demo_project,
        r_hostContext = None, r_proj = demo_project\<rparr>\<rparr>"

definition quiet_lib :: "(nat list, string list, unit) main_lib" where
  "quiet_lib =
     \<lparr>ml_NewScheme = [], ml_AddClientGo = (\<lambda>s. (''Secret'' # s, None)), ml_AddTypes = (\<lambda>s gv ts. (ts @ s, None)),
      ml_Parse = (\<lambda>f args. Some f), ml_GetConfig = (\<lambda>w. Some ()), ml_NewManager = (\<lambda>w cfg s opts. (w, Inr quiet_manager)),
      ml_NewReconciler = (\<lambda>mgr. new_reconciler), ml_Complete = (\<lambda>mgr r. None),
      ml_AddHealthzCheck = (\<lambda>mgr n. None), ml_AddReadyzCheck = (\<lambda>mgr n. None), ml_Start = (\<lambda>w mgr. (w, None))\<rparr>"

lemma quiet_main:
  "\<exists>m. main quiet_lib demo_build demo_plugins [] account program args [] = Returns m \<and>
     length (mr_steps m) = 7 \<and> mr_exit m = 0"
  by (simp add: main_def init_scheme_def Must_def quiet_lib_def SetupWithManager_def Build_def createProject_def
      NewReconcilerManagedBy_def For_def WithProgram_def WithOptions_def FinalizerName_def quiet_manager_def
      run_manager_def Let_def)


end
