(* ===== verification/DeepCopy.thy ===== *)
theory DeepCopy
  imports IamAccount
begin

text \<open>
  The deep copies of the sample's types (sample/api/v1/zz_generated.deepcopy.go), over an explicit store,
  since what they promise is about sharing: the copy is to be independent of the original.
\<close>

section \<open>The store\<close>

text \<open>
  The structs as they lie in memory. Metadata and text are values here (the library copies what lies behind
  them); the optional Google part is a pointer, the conditions and the items of a list are slices, each
  given by its array.
\<close>

type_synonym addr = nat

record spec_cell =
  sp_Type :: string
  sp_Google :: "addr option"

record status_cell =
  sx_ObservedGeneration :: int64
  sx_Conditions :: "addr option"
  sx_GSA :: string
  sx_KSA :: string

record account_cell = object_meta +
  ac_Spec :: spec_cell
  ac_Status :: status_cell

record list_cell =
  li_ResourceVersion :: string
  li_Items :: "addr option"

record go_store =
  gs_next :: addr
  gs_googles :: "addr \<rightharpoonup> IamAccountSpecGoogle"
  gs_arrays :: "addr \<rightharpoonup> condition list"
  gs_accounts :: "addr \<rightharpoonup> account_cell"
  gs_items :: "addr \<rightharpoonup> account_cell list"
  gs_lists :: "addr \<rightharpoonup> list_cell"
  gs_specs :: "addr \<rightharpoonup> spec_cell"
  gs_statuses :: "addr \<rightharpoonup> status_cell"

definition new_addr :: "go_store \<Rightarrow> go_store \<times> addr" where
  "new_addr s = (s\<lparr>gs_next := Suc (gs_next s)\<rparr>, gs_next s)"

text \<open>Every address in use was allocated.\<close>

definition store_ok :: "go_store \<Rightarrow> bool" where
  "store_ok s \<longleftrightarrow> (\<forall>a \<in> dom (gs_accounts s) \<union> dom (gs_items s) \<union> dom (gs_lists s) \<union> dom (gs_specs s) \<union>
     dom (gs_statuses s) \<union> dom (gs_arrays s) \<union> dom (gs_googles s). a < gs_next s)"

section \<open>The copies\<close>

text \<open>
  \<^verbatim>\<open>DeepCopyInto\<close> of a spec and a status are assignments of structs; that of an account assigns its spec and
  its status so, and copies the metadata.
\<close>

definition spec_DeepCopyInto :: "spec_cell \<Rightarrow> spec_cell" where
  "spec_DeepCopyInto src = src"

definition status_DeepCopyInto :: "status_cell \<Rightarrow> status_cell" where
  "status_DeepCopyInto src = src"

definition account_DeepCopyInto :: "account_cell \<Rightarrow> account_cell" where
  "account_DeepCopyInto src = object_meta.extend (meta_of src) \<lparr>ac_Spec = ac_Spec src, ac_Status = ac_Status src\<rparr>"

text \<open>The copies behind a pointer, which may be nil; a pointer that is not nil points to an object.\<close>

definition account_DeepCopy :: "go_store \<Rightarrow> addr option \<Rightarrow> (go_store \<times> addr option) outcome" where
  "account_DeepCopy s p =
     (case p of
        None \<Rightarrow> Returns (s, None)
      | Some a \<Rightarrow>
          (case gs_accounts s a of
             None \<Rightarrow> Panics ''invalid address''
           | Some src \<Rightarrow>
               (let (s1, out) = new_addr s
                in Returns (s1\<lparr>gs_accounts := (gs_accounts s1)(out \<mapsto> account_DeepCopyInto src)\<rparr>, Some out))))"

text \<open>\<^verbatim>\<open>DeepCopyObject\<close>: the interface is nil when the copy is.\<close>

definition account_DeepCopyObject :: "go_store \<Rightarrow> addr option \<Rightarrow> (go_store \<times> addr option) outcome" where
  "account_DeepCopyObject s p =
     and_then (account_DeepCopy s p) (\<lambda>(s', c). Returns (s', case c of Some b \<Rightarrow> Some b | None \<Rightarrow> None))"

definition spec_DeepCopy :: "go_store \<Rightarrow> addr option \<Rightarrow> (go_store \<times> addr option) outcome" where
  "spec_DeepCopy s p =
     (case p of
        None \<Rightarrow> Returns (s, None)
      | Some a \<Rightarrow>
          (case gs_specs s a of
             None \<Rightarrow> Panics ''invalid address''
           | Some src \<Rightarrow>
               (let (s1, out) = new_addr s
                in Returns (s1\<lparr>gs_specs := (gs_specs s1)(out \<mapsto> spec_DeepCopyInto src)\<rparr>, Some out))))"

definition status_DeepCopy :: "go_store \<Rightarrow> addr option \<Rightarrow> (go_store \<times> addr option) outcome" where
  "status_DeepCopy s p =
     (case p of
        None \<Rightarrow> Returns (s, None)
      | Some a \<Rightarrow>
          (case gs_statuses s a of
             None \<Rightarrow> Panics ''invalid address''
           | Some src \<Rightarrow>
               (let (s1, out) = new_addr s
                in Returns (s1\<lparr>gs_statuses := (gs_statuses s1)(out \<mapsto> status_DeepCopyInto src)\<rparr>, Some out))))"

text \<open>The items of a list are copied one by one into a new array; a nil slice stays nil.\<close>

primrec copy_items :: "account_cell list \<Rightarrow> account_cell list" where
  "copy_items [] = []"
| "copy_items (c # cs) = account_DeepCopyInto c # copy_items cs"

definition list_DeepCopyInto :: "go_store \<Rightarrow> list_cell \<Rightarrow> (go_store \<times> list_cell) outcome" where
  "list_DeepCopyInto s src =
     (case li_Items src of
        None \<Rightarrow> Returns (s, src)
      | Some arr \<Rightarrow>
          (case gs_items s arr of
             None \<Rightarrow> Panics ''invalid address''
           | Some cells \<Rightarrow>
               (let (s1, new) = new_addr s
                in Returns (s1\<lparr>gs_items := (gs_items s1)(new \<mapsto> copy_items cells)\<rparr>, src\<lparr>li_Items := Some new\<rparr>))))"

definition list_DeepCopy :: "go_store \<Rightarrow> addr option \<Rightarrow> (go_store \<times> addr option) outcome" where
  "list_DeepCopy s p =
     (case p of
        None \<Rightarrow> Returns (s, None)
      | Some a \<Rightarrow>
          (case gs_lists s a of
             None \<Rightarrow> Panics ''invalid address''
           | Some src \<Rightarrow>
               (let (s1, out) = new_addr s
                in and_then (list_DeepCopyInto s1 src) (\<lambda>(s2, cell).
                   Returns (s2\<lparr>gs_lists := (gs_lists s2)(out \<mapsto> cell)\<rparr>, Some out)))))"

definition list_DeepCopyObject :: "go_store \<Rightarrow> addr option \<Rightarrow> (go_store \<times> addr option) outcome" where
  "list_DeepCopyObject s p =
     and_then (list_DeepCopy s p) (\<lambda>(s', c). Returns (s', case c of Some b \<Rightarrow> Some b | None \<Rightarrow> None))"

section \<open>What a struct in the store stands for\<close>

definition conditions_at :: "go_store \<Rightarrow> addr option \<Rightarrow> condition list" where
  "conditions_at s p = (case Option.bind p (gs_arrays s) of None \<Rightarrow> [] | Some cs \<Rightarrow> cs)"

definition account_at :: "go_store \<Rightarrow> account_cell \<Rightarrow> IamAccount" where
  "account_at s c = object_meta.extend (meta_of c)
     \<lparr>ia_Spec = \<lparr>spec_Type = sp_Type (ac_Spec c), spec_Google = Option.bind (sp_Google (ac_Spec c)) (gs_googles s)\<rparr>,
      ia_Status = \<lparr>st_ObservedGeneration = sx_ObservedGeneration (ac_Status c),
        st_Conditions = conditions_at s (sx_Conditions (ac_Status c)),
        st_GSA = sx_GSA (ac_Status c), st_KSA = sx_KSA (ac_Status c)\<rparr>\<rparr>"

text \<open>A write to the elements of the conditions of a status, as \<^verbatim>\<open>meta.SetStatusCondition\<close> does to a condition that is there.\<close>

definition write_conditions :: "go_store \<Rightarrow> status_cell \<Rightarrow> (condition list \<Rightarrow> condition list) \<Rightarrow> go_store" where
  "write_conditions s c f =
     (case sx_Conditions c of
        None \<Rightarrow> s
      | Some arr \<Rightarrow> s\<lparr>gs_arrays := (gs_arrays s)(arr := map_option f (gs_arrays s arr))\<rparr>)"

lemma account_DeepCopyInto_id [simp]: "account_DeepCopyInto c = c"
  by (simp add: account_DeepCopyInto_def object_meta.extend_def object_meta.truncate_def)

lemma copy_items_id [simp]: "copy_items cs = cs"
  by (induction cs) simp_all

text \<open>
  C40. The deep copy of an account is not deep. The copy is a new object that reads like the original, and the
  original reads as before; but its conditions and its Google part are those of the original: whatever is
  then written to the conditions of the copy in place (as the status update does on an object that came out
  of the client's cache by such a copy) is what the original has too.
\<close>

theorem account_copy_shares_conditions:
  assumes "store_ok s" and "gs_accounts s a = Some c" and "sx_Conditions (ac_Status c) = Some arr"
    and "gs_arrays s arr = Some cs" and "account_DeepCopyObject s (Some a) = Returns (s', Some b)"
  shows "b \<noteq> a \<and> gs_accounts s' a = Some c \<and> account_at s' c = account_at s c \<and>
    (\<exists>copy. gs_accounts s' b = Some copy \<and> account_at s' copy = account_at s c \<and>
       (\<forall>f. st_Conditions (ia_Status (account_at (write_conditions s' (ac_Status copy) f) c)) = f cs))"
proof -
  from assms(1,2) have "a < gs_next s" by (auto simp: store_ok_def)
  moreover from assms(2,5) have s': "s' = s\<lparr>gs_next := Suc (gs_next s),
      gs_accounts := (gs_accounts s)(gs_next s \<mapsto> c)\<rparr>" "b = gs_next s"
    by (auto simp: account_DeepCopyObject_def account_DeepCopy_def new_addr_def Let_def)
  moreover have "account_at s' d = account_at s d" for d
    by (simp add: s' account_at_def conditions_at_def)
  moreover have "st_Conditions (ia_Status (account_at (write_conditions s' (ac_Status c) f) c)) = f cs" for f
    using assms(3,4) by (simp add: s' account_at_def conditions_at_def write_conditions_def object_meta.extend_def)
  ultimately show ?thesis using assms(2) by auto
qed

text \<open>The list's copy has an array of its own, with the same accounts in it.\<close>

lemma list_copy_items:
  assumes "store_ok s" and "gs_lists s a = Some l" and "li_Items l = Some arr" and "gs_items s arr = Some cells"
    and "list_DeepCopyObject s (Some a) = Returns (s', Some b)"
  shows "\<exists>l' arr'. gs_lists s' b = Some l' \<and> li_Items l' = Some arr' \<and> arr' \<noteq> arr \<and> gs_items s' arr' = Some cells \<and>
    b \<noteq> a \<and> gs_lists s' a = Some l \<and> gs_items s' arr = Some cells"
proof -
  from assms(1,2,4) have "a < gs_next s" "arr < gs_next s" by (auto simp: store_ok_def)
  with assms(2-5) show ?thesis
    by (auto simp: list_DeepCopyObject_def list_DeepCopy_def list_DeepCopyInto_def new_addr_def Let_def)
qed

section \<open>A concrete store\<close>

definition cached_account :: account_cell where
  "cached_account = object_meta.extend owned_object
     \<lparr>ac_Spec = \<lparr>sp_Type = IamAccountTypeGeneric, sp_Google = None\<rparr>,
      ac_Status = \<lparr>sx_ObservedGeneration = 3, sx_Conditions = Some 0, sx_GSA = [], sx_KSA = []\<rparr>\<rparr>"

definition cache :: go_store where
  "cache =
     \<lparr>gs_next = 2, gs_googles = Map.empty, gs_arrays = [0 \<mapsto> [planned_condition True]],
      gs_accounts = [1 \<mapsto> cached_account], gs_items = Map.empty, gs_lists = Map.empty, gs_specs = Map.empty,
      gs_statuses = Map.empty\<rparr>"

theorem account_copy_shares_conditions_witness:
  "\<exists>s' copy. account_DeepCopyObject cache (Some 1) = Returns (s', Some 2) \<and> gs_accounts s' 2 = Some copy \<and>
     st_Conditions (ia_Status (account_at (write_conditions s' (ac_Status copy) (\<lambda>cs. [planned_condition False]))
       cached_account)) = [planned_condition False]"
proof -
  obtain s' where copied: "account_DeepCopyObject cache (Some 1) = Returns (s', Some 2)"
    by (simp add: account_DeepCopyObject_def account_DeepCopy_def new_addr_def Let_def cache_def)
  have "store_ok cache" "gs_accounts cache 1 = Some cached_account"
    "sx_Conditions (ac_Status cached_account) = Some 0" "gs_arrays cache 0 = Some [planned_condition True]"
    by (simp_all add: store_ok_def cache_def cached_account_def object_meta.extend_def)
  from account_copy_shares_conditions [OF this copied] copied show ?thesis by blast
qed

end
