(* ===== verification/Spec2Isabelle.thy ===== *)
theory Spec2Isabelle
  imports Protocol Builder Convergence Unwinding Operation Manager DeepCopy
begin

text \<open>
  A verification development of pulumi-controller-runtime: a library that lets a Kubernetes controller
  drive a Pulumi stack towards a custom resource, and its sample controller.

  The program. A reconciler (pkg/reconcile) handles one object at a time: it puts a finalizer on it, loads
  the object's stack from the backend (pkg/backend) on a fresh plugin context, previews the stack, reports
  the planned changes, deploys if there are any, reports the outputs, and removes the finalizer of a deleted
  object. The backend keeps a stack's snapshot in a Kubernetes secret, guarded by the secret's resource
  version and by the generation of the object it was made for. The Pulumi engine runs the operations; it
  calls back into the repository to save snapshots, to send events and to use plugins. The plugin host
  (pkg/plugin) loads and caches plugins and runs the embedded program as a language runtime.

  The theories, in the order of the calls, each with the sources it models.

  Prelude: errors, values of a call that may panic, decimal numbers, and lemmas on lists and text.

  Kube: objects, secrets, the client and the finalizers of controller-runtime, with the documented
  behaviour of the API server as contracts (\<open>api_contract\<close>, \<open>finalizer_contract\<close>).

  StackRef: stack references (pkg/backend/stack.go, backend.go) and their text.

  Pulumi: the data of the Pulumi SDK that crosses the boundary (snapshots, properties, configuration).

  Instances: instances of the contracts, an in-memory API server, a plain codec and qualified names, used
  by the examples that show the hypotheses of the properties can hold.

  Snapshot: the secret snapshotter (pkg/backend/snapshot.go): reading, writing and querying snapshots; what
  a failed write leaves.

  Status: stack changes (pkg/reconcile/status.go) and the event channel with its draining goroutine
  (newUpdate of pkg/backend/stack.go), as a step relation and as a function, proved equal.

  HostServer, Host, LanguageHost, HostWorld: the engine service, the plugin host, the language runtime with
  its goroutine, the loaders (pkg/plugin), the wrapped host of stack.go, and what they leave alone.

  Operation: the goroutines of one engine operation (the operation, the drainer, the watcher that forwards a
  cancellation) under every interleaving: bounds on runs, what is left at the end.

  Engine: an engine operation as a program that calls the modelled code; what holds of every call holds of
  every operation.

  Stack: backend and stack (pkg/backend/backend.go, stack.go): loading, the three operations, saving.
  StackStore: the stack over the secret snapshotter: memory, handle and storage agree; an operation's last
  save is what is stored and what the next load gives; a stale stack writes nothing.

  Protocol: any number of workers that load and save, in every interleaving: generations never decrease and
  no save overwrites a snapshot it has not seen.

  Reconciler: \<^verbatim>\<open>ReconcileObject\<close> (pkg/reconcile/reconciler.go) with a trace of its visible actions. The trace
  decides the result, follows an abstract state machine, and respects ownership by the finalizer.
  Persistence: the snapshot deployed by a whole reconciliation is the one stored at its end. Convergence: the
  reconciliation after a deployment finds nothing left to do and ends quietly. Unwinding: a reconciliation
  panics only when the engine does, and closes its stack then too.

  Builder: the construction of a reconciler (pkg/reconcile/builder.go).

  Crc32, IamAccount, AccountStatus: the sample (sample/api/v1, sample/controllers): CRC-32 and its text,
  the custom resource, the program, the status, and what the status says after a reconciliation.
  Manager: the sample's process (sample/main.go) and the registration of its types.
  DeepCopy: the checked-in deep copies of the sample's types, over an explicit store, and what they share.
\<close>

text \<open>
  Conventions. The state of everything outside the repository is a type variable, the world; the client, the
  plugins, the engine, the codec and the callbacks are arguments, and what is assumed of them is a
  named contract in the theorem that needs it. A Go error is a value; a pair of a result and an error is a sum,
  a pointer an option; a panic is an ending of its own, with the state it leaves, in which the deferred calls
  still run. Generations are 64-bit words read as signed. Pointers
  that are shared (the snapshot handle, the object that a write fills in) are threaded so that every
  reader sees the change. Loops over slices and maps are structural recursions over lists (a map's order of
  iteration is an argument), and an engine operation is a finite program, so no fuel is needed: every function
  of the development is total. The step relation of the goroutines has a decreasing measure, which bounds
  every run by twice the number of events plus four steps. A program that never ends is only the user's,
  in the language runtime, where it is a case of the program's end.

  Concurrency. Each method of the plugin host holds its mutex and is one step. The draining goroutine of an
  update runs beside the engine (Operation has all its goroutines as one step relation); when the changes
  are read it may not have handled the last event, a Boolean argument of the definitions. The workers of a controller are interleaved in Protocol at the
  granularity of loads and saves, and in Reconciler for the shared field \<^verbatim>\<open>hostContext\<close>.

  Interfaces. The locales state what one part relies on in another: \<open>snapshot_storage\<close> (what the backend may
  expect of a storage), \<open>engine_client\<close> and its extension \<open>stack_client\<close> (what every call of the engine keeps, an
  operation keeps, however it ends), \<open>event_handler\<close>, \<open>host_relation\<close> (what every method of the host keeps) and \<open>runtime_loading\<close>;
  each is interpreted on the model's own definitions.

  Not modelled. Tracing spans (but for the fields they log) and log lines; the gRPC serving of the engine
  service; \<^verbatim>\<open>CloneSnapshot\<close>, which nothing calls and whose copy is a third-party library's, and the empty
  \<^verbatim>\<open>logPropertyMap\<close>; the test harness. A panic on a goroutine that the engine starts itself ends the process at
  once, without the deferred calls: the model's panics are those that unwind through the reconciler. The
  status callback and the services of the API server are assumed to return.
\<close>

end
